(* ===== verification/Prelude.thy ===== *)
theory Prelude imports
  Complex_Main "HOL-Library.Word" "HOL-Library.Multiset" "HOL-Library.Sublist"
  "HOL-Library.List_Lexorder" "HOL-Library.Char_ord"
begin

text \<open>
  Shared vocabulary of the development: the result type of fallible Go functions, the
  named fact collections the component theories add to, and the generic lemmas on lists,
  maps and folds that several components need.

  A Go function returning an error is modelled by \<open>go_err + 'a\<close>: \<open>Inl (GoError s)\<close> is
  a returned error, \<open>Inl (GoPanic s)\<close> a run-time panic (nil dereference, index out of
  range), \<open>Inr v\<close> a normal return.
\<close>

datatype go_err = GoError string | GoPanic string

type_synonym 'a go = "go_err + 'a"

text \<open>
  A point in time is the number of nanoseconds since Go's zero \<open>time.Time\<close>
  (1 January of year 1), so the zero value of the type is \<open>0\<close>; a duration is a
  number of nanoseconds.
\<close>

type_synonym time = int
type_synonym duration = int

named_theorems sort_facts "permutation and order facts of the sorts the code uses"
named_theorems member_facts "facts on members and member lists"
named_theorems eom_facts "field facts of the exactly-once manager's operations"

abbreviation isErr :: "'a go \<Rightarrow> bool" where
  "isErr r \<equiv> (\<exists>e. r = Inl e)"

subsection \<open>Lists\<close>

text \<open>The first index whose element satisfies a test: the shape of every search loop.\<close>

fun find_index :: "('a \<Rightarrow> bool) \<Rightarrow> 'a list \<Rightarrow> nat option" where
  "find_index P [] = None"
| "find_index P (x # xs) = (if P x then Some 0 else map_option Suc (find_index P xs))"

lemma find_index_Some:
  "find_index P xs = Some i \<Longrightarrow> i < length xs \<and> P (xs ! i) \<and> (\<forall>j < i. \<not> P (xs ! j))"
proof (induction xs arbitrary: i)
  case (Cons x xs)
  then show ?case
    by (auto simp: less_Suc_eq_0_disj split: if_splits)
qed simp

lemma find_index_None: "find_index P xs = None \<longleftrightarrow> (\<forall>x \<in> set xs. \<not> P x)"
  by (induction xs) auto

lemma find_index_take_drop:
  "find_index P xs = Some i \<Longrightarrow> xs = take i xs @ xs ! i # drop (Suc i) xs"
  by (auto dest: find_index_Some intro: id_take_nth_drop)

definition remove_nth :: "nat \<Rightarrow> 'a list \<Rightarrow> 'a list" where
  "remove_nth i xs = take i xs @ drop (Suc i) xs"

lemma set_remove_nth: "set (remove_nth i xs) \<subseteq> set xs"
  by (auto simp: remove_nth_def dest: in_set_takeD in_set_dropD)

lemma remove_nth_middle: "length pre = n \<Longrightarrow> remove_nth n (pre @ x # post) = pre @ post"
  by (auto simp: remove_nth_def)

lemma sorted_wrt_remove_nth: "sorted_wrt R xs \<Longrightarrow> sorted_wrt R (remove_nth i xs)"
proof -
  assume s: "sorted_wrt R xs"
  have "sorted_wrt R (take i xs @ drop i xs)" using s by simp
  then have t: "sorted_wrt R (take i xs)" "\<forall>x \<in> set (take i xs). \<forall>y \<in> set (drop i xs). R x y"
    unfolding sorted_wrt_append by auto
  have "set (drop (Suc i) xs) \<subseteq> set (drop i xs)"
    by (metis Suc_n_not_le_n linorder_le_cases set_drop_subset_set_drop)
  with t s show ?thesis
    by (auto simp: remove_nth_def sorted_wrt_append sorted_wrt_drop)
qed

lemma map_remove_nth: "map f (remove_nth i xs) = remove_nth i (map f xs)"
  by (simp add: remove_nth_def take_map drop_map)

lemma distinct_remove_nth: "distinct xs \<Longrightarrow> distinct (remove_nth i xs)"
  by (simp add: remove_nth_def set_take_disj_set_drop_if_distinct)

lemma notin_image: "k \<notin> f ` A \<longleftrightarrow> (\<forall>x \<in> A. f x \<noteq> k)"
  by auto

lemma option_eqI: "(\<And>x. a = Some x \<longleftrightarrow> b = Some x) \<Longrightarrow> a = b"
  by (cases a; cases b) auto

text \<open>A sorted list is determined by its elements when their keys are distinct.\<close>

lemma sorted_key_unique:
  fixes f :: "'a \<Rightarrow> 'k::linorder"
  assumes "sorted (map f xs)" and "sorted (map f ys)" and "mset xs = mset ys"
    and "distinct (map f xs)"
  shows "xs = ys"
proof -
  have "mset (map f ys) = mset (map f xs)" using assms(3) by simp
  then have "sort (map f xs) = map f ys" using assms(2) by (rule properties_for_sort)
  then have "map f xs = map f ys" using assms(1) by (simp add: sorted_sort_id)
  moreover have "set ys = set xs" using assms(3) by (metis mset_eq_setD)
  moreover have "inj_on f (set xs)" using assms(4) by (simp add: distinct_map)
  ultimately show ?thesis by (simp add: map_inj_on)
qed

subsection \<open>Folds over operations\<close>

lemma fold_invariant_list:
  "I s \<Longrightarrow> (\<And>x s. x \<in> set xs \<Longrightarrow> I s \<Longrightarrow> I (f x s)) \<Longrightarrow> I (fold f xs s)"
  by (induction xs arbitrary: s) auto

lemma map_of_distinct_set:
  "distinct (map f xs) \<Longrightarrow> x \<in> set xs \<Longrightarrow> map_of (map (\<lambda>y. (f y, y)) xs) (f x) = Some x"
  by (rule map_of_is_SomeI) (auto simp: comp_def)

lemma map_of_key_Some:
  "map_of (map (\<lambda>y. (f y, y)) xs) k = Some x \<Longrightarrow> x \<in> set xs \<and> f x = k"
  by (induction xs) (auto split: if_splits)

lemma map_of_key_None:
  "map_of (map (\<lambda>y. (f y, y)) xs) k = None \<longleftrightarrow> k \<notin> f ` set xs"
  by (induction xs) auto

lemma map_of_key_mset_eq:
  assumes "distinct (map f xs)" and "mset ys = mset xs"
  shows "map_of (map (\<lambda>y. (f y, y)) ys) = map_of (map (\<lambda>y. (f y, y)) xs)"
proof
  fix k
  from assms have d: "distinct (map f ys)"
    by (metis mset_map mset_eq_imp_distinct_iff)
  from assms(2) have s: "set ys = set xs" by (rule mset_eq_setD)
  show "map_of (map (\<lambda>y. (f y, y)) ys) k = map_of (map (\<lambda>y. (f y, y)) xs) k"
  proof (cases "map_of (map (\<lambda>y. (f y, y)) xs) k")
    case None
    with s have "map_of (map (\<lambda>y. (f y, y)) ys) k = None" by (simp add: map_of_key_None)
    with None show ?thesis by simp
  next
    case (Some x)
    then have "x \<in> set ys" "f x = k" using s by (auto dest: map_of_key_Some)
    with d Some show ?thesis using map_of_distinct_set by fastforce
  qed
qed

end
