(* ===== verification/GoLib.thy ===== *)
theory GoLib imports Prelude begin

unbundle bit_operations_syntax

text \<open>
  The parts of Go's standard library the program relies on, as executable definitions:
  decimal formatting and \<open>strconv.Atoi\<close>, the \<open>strings\<close> functions, \<open>net.SplitHostPort\<close>,
  \<open>path/filepath.Base\<close>, saturating time arithmetic, the FNV-1a hash of \<open>hash/fnv\<close> and
  \<open>sort.Slice\<close>. A Go string is a list of bytes, here \<open>char list\<close>.
\<close>

subsection \<open>Decimal numbers\<close>

definition digit :: "nat \<Rightarrow> char" where
  "digit d = char_of (48 + d)"

definition is_digit :: "char \<Rightarrow> bool" where
  "is_digit c \<longleftrightarrow> 48 \<le> (of_char c :: nat) \<and> (of_char c :: nat) \<le> 57"

definition digit_val :: "char \<Rightarrow> nat" where
  "digit_val c = of_char c - 48"

fun dec_nat :: "nat \<Rightarrow> string" where
  "dec_nat n = (if n < 10 then [digit n] else dec_nat (n div 10) @ [digit (n mod 10)])"

declare dec_nat.simps [simp del]

text \<open>\<open>fmt.Sprintf("%d", i)\<close>.\<close>

definition dec :: "int \<Rightarrow> string" where
  "dec i = (if i < 0 then CHR ''-'' # dec_nat (nat (- i)) else dec_nat (nat i))"

fun digits_val :: "nat \<Rightarrow> string \<Rightarrow> nat" where
  "digits_val acc [] = acc"
| "digits_val acc (c # cs) = digits_val (10 * acc + digit_val c) cs"

text \<open>
  \<open>strconv.Atoi\<close>: the value and whether the error is nil. A syntax error gives 0, a
  value outside 64 bits the nearest bound, both with an error.
\<close>

definition int_max :: int where "int_max = 9223372036854775807"
definition int_min :: int where "int_min = - 9223372036854775808"

definition Atoi :: "string \<Rightarrow> int \<times> bool" where
  "Atoi s =
     (let neg = (case s of c # _ \<Rightarrow> c = CHR ''-'' | [] \<Rightarrow> False);
          body = (case s of c # cs \<Rightarrow> if c = CHR ''-'' \<or> c = CHR ''+'' then cs else s | [] \<Rightarrow> [])
      in if body = [] \<or> \<not> list_all is_digit body then (0, False)
         else (let v = (if neg then - int (digits_val 0 body) else int (digits_val 0 body))
               in if v > int_max then (int_max, False)
                  else if v < int_min then (int_min, False)
                  else (v, True)))"

lemma of_char_digit: "d < 10 \<Longrightarrow> (of_char (digit d) :: nat) = 48 + d"
  by (simp add: digit_def)

lemma digit_facts [simp]:
  assumes "d < 10"
  shows "is_digit (digit d)" and "digit_val (digit d) = d"
  using of_char_digit [OF assms] assms by (simp_all add: is_digit_def digit_val_def)

lemma is_digit_not: "is_digit c \<Longrightarrow> c \<noteq> CHR ''-'' \<and> c \<noteq> CHR ''+'' \<and> c \<noteq> CHR '':''"
  by (auto simp: is_digit_def)

lemma list_all_dec_nat: "list_all is_digit (dec_nat n)"
proof (induction n rule: dec_nat.induct)
  case (1 n)
  then show ?case by (subst dec_nat.simps) auto
qed

lemma dec_nat_not_Nil: "dec_nat n \<noteq> []"
  by (subst dec_nat.simps) simp

lemma digits_val_append: "digits_val acc (xs @ [c]) = 10 * digits_val acc xs + digit_val c"
  by (induction xs arbitrary: acc) auto

lemma digits_val_dec_nat: "digits_val 0 (dec_nat n) = n"
proof (induction n rule: dec_nat.induct)
  case (1 n)
  then show ?case by (subst dec_nat.simps) (auto simp: digits_val_append)
qed

lemma dec_nat_hd: obtains c cs where "dec_nat n = c # cs" "is_digit c"
proof (cases "dec_nat n")
  case (Cons c cs)
  then have "is_digit c" using list_all_dec_nat [of n] by simp
  with Cons show ?thesis using that by blast
qed (simp add: dec_nat_not_Nil)

lemma dec_nonneg_chars: "0 \<le> i \<Longrightarrow> c \<in> set (dec i) \<Longrightarrow> is_digit c"
  using list_all_dec_nat [of "nat i"] by (auto simp: dec_def list_all_iff)

text \<open>Formatting then parsing a 64-bit integer is the identity.\<close>

lemma Atoi_dec:
  assumes "int_min \<le> i" and "i \<le> int_max"
  shows "Atoi (dec i) = (i, True)"
proof (cases "i < 0")
  case True
  have "Atoi (CHR ''-'' # dec_nat (nat (- i))) = (i, True)"
    using True assms
    by (simp add: Atoi_def Let_def digits_val_dec_nat list_all_dec_nat dec_nat_not_Nil int_max_def)
  with True show ?thesis by (simp add: dec_def)
next
  case False
  obtain c cs where c: "dec_nat (nat i) = c # cs" "is_digit c" by (rule dec_nat_hd)
  have "digits_val 0 (c # cs) = nat i" "list_all is_digit (c # cs)"
    using digits_val_dec_nat [of "nat i"] list_all_dec_nat [of "nat i"] c(1) by simp_all
  moreover have "c \<noteq> CHR ''-''" "c \<noteq> CHR ''+''" using is_digit_not [OF c(2)] by auto
  ultimately show ?thesis
    using False assms c(1) by (simp add: Atoi_def Let_def dec_def int_min_def)
qed

lemma dec_nat_eq [simp]: "dec_nat m = dec_nat n \<longleftrightarrow> m = n"
  by (metis digits_val_dec_nat)

lemma dec_nat_no_minus [simp]: "dec_nat n \<noteq> CHR ''-'' # xs"
proof
  assume "dec_nat n = CHR ''-'' # xs"
  then have "is_digit CHR ''-''" using list_all_dec_nat [of n] by simp
  then show False by (simp add: is_digit_def)
qed

lemma dec_inj: "dec i = dec j \<Longrightarrow> i = j"
  using dec_nat_no_minus [symmetric]
  by (cases "i < 0"; cases "j < 0") (auto simp: dec_def eq_nat_nat_iff)

subsection \<open>Strings\<close>

text \<open>Split at the first occurrence of a non-empty separator.\<close>

fun cut_at :: "string \<Rightarrow> string \<Rightarrow> (string \<times> string) option" where
  "cut_at sep [] = (if sep = [] then Some ([], []) else None)"
| "cut_at sep (c # cs) =
     (if prefix sep (c # cs) then Some ([], drop (length sep) (c # cs))
      else map_option (\<lambda>(a, b). (c # a, b)) (cut_at sep cs))"

lemma cut_at_Some: "cut_at sep s = Some (a, b) \<Longrightarrow> s = a @ sep @ b"
proof (induction s arbitrary: a b)
  case Nil
  then show ?case by (auto split: if_splits)
next
  case (Cons c cs)
  then show ?case
    by (auto simp: prefix_def split: if_splits)
qed

lemma cut_at_length: "cut_at sep s = Some (a, b) \<Longrightarrow> sep \<noteq> [] \<Longrightarrow> length b < length s"
  using cut_at_Some [of sep s a b] by (cases sep) auto

text \<open>\<open>strings.Contains\<close>, \<open>strings.HasPrefix\<close>, \<open>strings.Split\<close> (non-empty separator).\<close>

definition Contains :: "string \<Rightarrow> string \<Rightarrow> bool" where
  "Contains s sub \<longleftrightarrow> cut_at sub s \<noteq> None"

definition HasPrefix :: "string \<Rightarrow> string \<Rightarrow> bool" where
  "HasPrefix s p \<longleftrightarrow> prefix p s"

function Split :: "string \<Rightarrow> string \<Rightarrow> string list" where
  "Split s sep =
     (case cut_at sep s of
        None \<Rightarrow> [s]
      | Some (a, b) \<Rightarrow> if sep = [] then [s] else a # Split b sep)"
  by pat_completeness auto
termination
  by (relation "measure (\<lambda>(s, sep). length s)") (auto dest: cut_at_length)

declare Split.simps [simp del]

lemma Split_not_Nil: "Split s sep \<noteq> []"
  by (subst Split.simps) (auto split: option.splits)

lemma cut_at_char_None: "cut_at [c] s = None \<longleftrightarrow> c \<notin> set s"
  by (induction s) (auto simp: prefix_def)

lemma cut_at_char_absent [simp]: "c \<notin> set s \<Longrightarrow> cut_at [c] s = None"
  by (simp add: cut_at_char_None)

lemma cut_at_char_append: "c \<notin> set a \<Longrightarrow> cut_at [c] (a @ c # b) = Some (a, b)"
  by (induction a) (auto simp: prefix_def)

lemma Split_no_sep: "c \<notin> set s \<Longrightarrow> Split s [c] = [s]"
  by (subst Split.simps) simp

lemma Split_one_sep: "c \<notin> set a \<Longrightarrow> c \<notin> set b \<Longrightarrow> Split (a @ c # b) [c] = [a, b]"
  by (subst Split.simps) (simp add: cut_at_char_append Split_no_sep)

text \<open>The text before and after the last occurrence of a byte (\<open>strings.LastIndex\<close>).\<close>

fun rcut :: "char \<Rightarrow> string \<Rightarrow> (string \<times> string) option" where
  "rcut c [] = None"
| "rcut c (x # xs) =
     (case rcut c xs of
        Some (a, b) \<Rightarrow> Some (x # a, b)
      | None \<Rightarrow> if x = c then Some ([], xs) else None)"

lemma rcut_None: "rcut c s = None \<longleftrightarrow> c \<notin> set s"
  by (induction s) (auto split: option.splits)

lemma rcut_last: "c \<notin> set b \<Longrightarrow> rcut c (a @ c # b) = Some (a, b)"
proof (induction a)
  case Nil
  then have "rcut c b = None" by (simp add: rcut_None)
  then show ?case by simp
qed simp

definition lower_char :: "char \<Rightarrow> char" where
  "lower_char c = (let n = of_char c :: nat in if 65 \<le> n \<and> n \<le> 90 then char_of (n + 32) else c)"

text \<open>\<open>strings.ToLower\<close> on ASCII text, and \<open>strings.TrimSpace\<close> with Go's ASCII spaces.\<close>

definition ToLower :: "string \<Rightarrow> string" where
  "ToLower s = map lower_char s"

definition is_space :: "char \<Rightarrow> bool" where
  "is_space c \<longleftrightarrow> (let n = of_char c :: nat in n = 32 \<or> (9 \<le> n \<and> n \<le> 13))"

definition TrimSpace :: "string \<Rightarrow> string" where
  "TrimSpace s = rev (dropWhile is_space (rev (dropWhile is_space s)))"

text \<open>\<open>filepath.Base\<close> of a slash-separated path.\<close>

definition Base :: "string \<Rightarrow> string" where
  "Base p =
     (if p = [] then ''.''
      else let q = rev (dropWhile (\<lambda>c. c = CHR ''/'') (rev p))
           in if q = [] then ''/'' else (case rcut (CHR ''/'') q of None \<Rightarrow> q | Some (_, b) \<Rightarrow> b))"

text \<open>
  \<open>net.SplitHostPort\<close>: the host and the port text, \<open>None\<close> for an error. The port
  starts after the last colon; a host in brackets may itself hold colons.
\<close>

definition SplitHostPort :: "string \<Rightarrow> (string \<times> string) option" where
  "SplitHostPort hp =
     (case rcut (CHR '':'') hp of
        None \<Rightarrow> None
      | Some (h, p) \<Rightarrow>
          if hp \<noteq> [] \<and> hd hp = CHR ''['' then
            (if h \<noteq> [] \<and> cut_at '']'' h = Some (butlast h, [])
                \<and> CHR ''['' \<notin> set (tl hp) \<and> CHR '']'' \<notin> set p
             then Some (tl (butlast h), p) else None)
          else
            (if CHR '':'' \<in> set h \<or> CHR ''['' \<in> set hp \<or> CHR '']'' \<in> set hp then None
             else Some (h, p)))"

text \<open>The same where the caller drops the error: two empty strings stand for it.\<close>

definition SplitHostPort0 :: "string \<Rightarrow> string \<times> string" where
  "SplitHostPort0 hp = (case SplitHostPort hp of None \<Rightarrow> ([], []) | Some r \<Rightarrow> r)"

lemma SplitHostPort_plain:
  assumes "CHR '':'' \<notin> set h" "CHR ''['' \<notin> set h" "CHR '']'' \<notin> set h"
    and "CHR '':'' \<notin> set p" "CHR ''['' \<notin> set p" "CHR '']'' \<notin> set p"
  shows "SplitHostPort (h @ '':'' @ p) = Some (h, p)"
proof -
  have "rcut (CHR '':'') (h @ CHR '':'' # p) = Some (h, p)" using assms(4) by (rule rcut_last)
  moreover have "hd (h @ CHR '':'' # p) \<noteq> CHR ''[''" using assms(2) by (cases h) auto
  ultimately show ?thesis using assms by (simp add: SplitHostPort_def)
qed

subsection \<open>Time\<close>

text \<open>\<open>Time.Sub\<close> saturates at the bounds of a duration; \<open>Time.Unix\<close> counts seconds from 1970.\<close>

definition time_Sub :: "time \<Rightarrow> time \<Rightarrow> duration" where
  "time_Sub a b = max int_min (min int_max (a - b))"

definition Unix :: "time \<Rightarrow> int" where
  "Unix t = t div 1000000000 - 62135596800"

subsection \<open>FNV-1a, 32 bits\<close>

definition fnv1a_step :: "32 word \<Rightarrow> char \<Rightarrow> 32 word" where
  "fnv1a_step h c = (h XOR of_nat (of_char c)) * 16777619"

definition fnv32a :: "string \<Rightarrow> 32 word" where
  "fnv32a s = foldl fnv1a_step 2166136261 s"

lemma fnv32a_empty: "fnv32a [] = 2166136261"
  by (simp add: fnv32a_def)

lemma fnv32a_a: "fnv32a ''a'' = 0xE40C292C"
  by (simp add: fnv32a_def fnv1a_step_def)

subsection \<open>sort.Slice\<close>

text \<open>
  \<open>sort.Slice\<close> sorts a slice of at most twelve elements by insertion: each element moves
  left while it is less than its neighbour. The model is that algorithm; the sorted prefix
  is kept reversed, so its last element comes first. Longer slices go through pattern-defeating
  quicksort, of which the library promises only a sorted permutation: the laws of the locale
  \<open>slice_sort\<close> below, and every lemma of the development on a sorted slice rests on them alone.
\<close>

fun ins_left :: "('a \<Rightarrow> 'a \<Rightarrow> bool) \<Rightarrow> 'a \<Rightarrow> 'a list \<Rightarrow> 'a list" where
  "ins_left lt x [] = [x]"
| "ins_left lt x (y # ys) = (if lt x y then y # ins_left lt x ys else x # y # ys)"

definition sort_slice :: "('a \<Rightarrow> 'a \<Rightarrow> bool) \<Rightarrow> 'a list \<Rightarrow> 'a list" where
  "sort_slice lt xs = rev (foldl (\<lambda>acc x. ins_left lt x acc) [] xs)"

lemma mset_ins_left: "mset (ins_left lt x ys) = add_mset x (mset ys)"
  by (induction ys) auto

lemma mset_foldl_ins: "mset (foldl (\<lambda>acc x. ins_left lt x acc) acc xs) = mset xs + mset acc"
  by (induction xs arbitrary: acc) (auto simp: mset_ins_left)

lemma mset_sort_slice [sort_facts]: "mset (sort_slice lt xs) = mset xs"
  by (simp add: sort_slice_def mset_foldl_ins)

lemma set_ins_left: "set (ins_left lt x ys) = insert x (set ys)"
  by (induction ys) auto

lemma sorted_ins_left:
  fixes f :: "'a \<Rightarrow> 'k::linorder"
  shows "sorted_wrt (\<lambda>a b. f b \<le> f a) ys \<Longrightarrow>
    sorted_wrt (\<lambda>a b. f b \<le> f a) (ins_left (\<lambda>a b. f a < f b) x ys)"
  by (induction ys) (auto simp: set_ins_left)

lemma sorted_foldl_ins:
  fixes f :: "'a \<Rightarrow> 'k::linorder"
  shows "sorted_wrt (\<lambda>a b. f b \<le> f a) acc \<Longrightarrow>
    sorted_wrt (\<lambda>a b. f b \<le> f a) (foldl (\<lambda>acc x. ins_left (\<lambda>a b. f a < f b) x acc) acc xs)"
  by (induction xs arbitrary: acc) (auto simp: sorted_ins_left)

lemma sorted_sort_slice [sort_facts]:
  fixes f :: "'a \<Rightarrow> 'k::linorder"
  shows "sorted (map f (sort_slice (\<lambda>a b. f a < f b) xs))"
  using sorted_foldl_ins [of f "[]" xs]
  by (simp add: sort_slice_def sorted_map sorted_wrt_rev)

lemma set_sort_slice [sort_facts]: "set (sort_slice lt xs) = set xs"
  by (metis mset_sort_slice set_mset_mset)

lemma length_sort_slice [sort_facts]: "length (sort_slice lt xs) = length xs"
  by (metis mset_sort_slice size_mset)

lemma distinct_map_sort_slice [sort_facts]:
  "distinct (map g (sort_slice lt xs)) = distinct (map g xs)"
  by (metis mset_map mset_sort_slice mset_eq_imp_distinct_iff)

text \<open>The contract of a sort by a key, and what it gives its callers.\<close>

locale slice_sort =
  fixes key :: "'a \<Rightarrow> 'k::linorder"
    and srt :: "'a list \<Rightarrow> 'a list"
  assumes srt_perm: "mset (srt xs) = mset xs"
    and srt_sorted: "sorted (map key (srt xs))"
begin

lemma srt_set: "set (srt xs) = set xs"
  by (metis srt_perm set_mset_mset)

lemma srt_distinct: "distinct (map g (srt xs)) = distinct (map g xs)"
  by (metis mset_map srt_perm mset_eq_imp_distinct_iff)

lemma srt_length: "length (srt xs) = length xs"
  by (metis srt_perm size_mset)

lemma srt_lookup:
  "distinct (map g xs) \<Longrightarrow>
    map_of (map (\<lambda>y. (g y, y)) (srt xs)) = map_of (map (\<lambda>y. (g y, y)) xs)"
  by (rule map_of_key_mset_eq) (simp_all add: srt_perm)

text \<open>With distinct keys the result does not depend on the order of the input.\<close>

lemma srt_unique:
  assumes "mset ys = mset xs" and "distinct (map key xs)"
  shows "srt ys = srt xs"
proof (rule sorted_key_unique [where f = key])
  show "distinct (map key (srt ys))"
    unfolding srt_distinct using assms by (metis mset_map mset_eq_imp_distinct_iff)
  show "mset (srt ys) = mset (srt xs)" using assms(1) by (simp add: srt_perm)
qed (rule srt_sorted)+

end

end
