(* ===== verification/Journal.thy ===== *)
theory Journal imports Main begin

text \<open>
  The interface of a component that keeps a journal: every legal operation appends records to the
  journal, and applying those records to the durable view of the state gives the durable view
  after the operation. The client of the interface, crash recovery, only needs that replaying the
  whole journal from the empty view gives the current durable view; it is proved here once. The
  exactly-once manager interprets the locale.
\<close>

locale journaled =
  fixes ok :: "'s \<Rightarrow> bool"
    and legal :: "'op \<Rightarrow> 's \<Rightarrow> bool"
    and exec :: "'op \<Rightarrow> 's \<Rightarrow> 's"
    and journal :: "'s \<Rightarrow> 'r list"
    and emitted :: "'op \<Rightarrow> 's \<Rightarrow> 'r list"
    and view :: "'s \<Rightarrow> 'v"
    and replay1 :: "'r \<Rightarrow> 'v \<Rightarrow> 'v"
  assumes exec_ok: "ok s \<Longrightarrow> legal op s \<Longrightarrow> ok (exec op s)"
    and exec_journal: "ok s \<Longrightarrow> legal op s \<Longrightarrow> journal (exec op s) = journal s @ emitted op s"
    and exec_view: "ok s \<Longrightarrow> legal op s \<Longrightarrow> view (exec op s) = fold replay1 (emitted op s) (view s)"
begin

primrec legal_run :: "'op list \<Rightarrow> 's \<Rightarrow> bool" where
  "legal_run [] s = True"
| "legal_run (op # ops) s = (legal op s \<and> legal_run ops (exec op s))"

lemma legal_run_append:
  "legal_run (xs @ ys) s = (legal_run xs s \<and> legal_run ys (fold exec xs s))"
  by (induction xs arbitrary: s) auto

lemma run_ok: "ok s \<Longrightarrow> legal_run ops s \<Longrightarrow> ok (fold exec ops s)"
  by (induction ops arbitrary: s) (auto simp: exec_ok)

lemma run_journal_extends:
  "ok s \<Longrightarrow> legal_run ops s \<Longrightarrow> \<exists>new. journal (fold exec ops s) = journal s @ new \<and>
    view (fold exec ops s) = fold replay1 new (view s)"
proof (induction ops arbitrary: s)
  case (Cons op ops)
  then obtain new where "journal (fold exec ops (exec op s)) = journal (exec op s) @ new"
    "view (fold exec ops (exec op s)) = fold replay1 new (view (exec op s))"
    using exec_ok by fastforce
  with Cons.prems show ?case
    by (intro exI [of _ "emitted op s @ new"]) (simp add: exec_journal exec_view)
qed simp

text \<open>If the journal explains the state now, it explains the state after any legal run.\<close>

theorem run_recovered:
  assumes "ok s" and "legal_run ops s" and "view s = fold replay1 (journal s) v0"
  shows "view (fold exec ops s) = fold replay1 (journal (fold exec ops s)) v0"
  using run_journal_extends [OF assms(1,2)] assms(3) by auto

end

end
