(* ===== verification/ExactlyOnce.thy ===== *)
theory ExactlyOnce imports GoLib Journal begin

text \<open>
  \<open>exactly_once.go\<close> and the tuple type of \<open>task.go\<close>: the exactly-once manager of a task, its
  write-ahead log and the recovery from it.

  The log is a sequence of lines. \<open>encoding/json\<close> and \<open>bufio.Scanner\<close> are modelled at the level of
  values: a line is blank, or text that does not parse, or a JSON value, and \<open>logRecord\<close> produces
  the JSON object the Go code builds, which the recovery code decodes field by field. The
  HyDFS side of a flush is the argument saying whether the write reached the log. Pointers
  to tuples are modelled by value: the retry loop's in-place updates write the entry back.
  A nil map entry cannot occur, so a map of pointers is a map of values.
\<close>

subsection \<open>Data\<close>

record Tuple =
  tp_ID :: string
  tp_Key :: string
  tp_Value :: string
  tp_Timestamp :: time
  tp_SenderID :: string
  tp_TaskID :: string
  tp_EOF :: "bool option"

definition zeroTuple :: Tuple where
  "zeroTuple = \<lparr>tp_ID = [], tp_Key = [], tp_Value = [], tp_Timestamp = 0, tp_SenderID = [],
     tp_TaskID = [], tp_EOF = None\<rparr>"

record ReceivedTuple =
  rt_TupleID :: string
  rt_SenderID :: string
  rt_ReceivedAt :: time
  rt_Processed :: bool
  rt_ExpectedOutputs :: int
  rt_OutputCount :: int

record SentTuple =
  st_Tuple :: "Tuple option"
  st_SentAt :: time
  st_OriginalID :: string
  st_Destination :: string

subsection \<open>Log records as JSON\<close>

datatype json = JNull | JBool bool | JNum int | JStr string | JTime time
  | JArr "json list" | JObj "(string \<times> json) list"

datatype line = Blank | Unparsable | Line json

text \<open>
  Decoding a field into a Go struct: a missing field or null leaves the zero value, a value of
  another kind is an error.
\<close>

definition field :: "string \<Rightarrow> (string \<times> json) list \<Rightarrow> json" where
  "field k ob = (case map_of (rev ob) k of None \<Rightarrow> JNull | Some v \<Rightarrow> v)"

fun as_str :: "json \<Rightarrow> string option" where
  "as_str (JStr s) = Some s" | "as_str JNull = Some []" | "as_str _ = None"

fun as_int :: "json \<Rightarrow> int option" where
  "as_int (JNum n) = Some n" | "as_int JNull = Some 0" | "as_int _ = None"

fun as_bool :: "json \<Rightarrow> bool option" where
  "as_bool (JBool b) = Some b" | "as_bool JNull = Some False" | "as_bool _ = None"

fun as_time :: "json \<Rightarrow> time option" where
  "as_time (JTime t) = Some t" | "as_time JNull = Some 0" | "as_time _ = None"

fun as_EOF :: "json \<Rightarrow> bool option option" where
  "as_EOF (JBool b) = Some (Some b)" | "as_EOF JNull = Some None" | "as_EOF _ = None"

definition Tuple_to_json :: "Tuple \<Rightarrow> json" where
  "Tuple_to_json t = JObj
     ([(''ID'', JStr (tp_ID t)), (''Key'', JStr (tp_Key t)), (''Value'', JStr (tp_Value t)),
       (''Timestamp'', JTime (tp_Timestamp t)), (''SenderID'', JStr (tp_SenderID t)),
       (''TaskID'', JStr (tp_TaskID t))] @
      (case tp_EOF t of None \<Rightarrow> [] | Some b \<Rightarrow> [(''EOF'', JBool b)]))"

definition Tuple_of_json :: "json \<Rightarrow> Tuple option" where
  "Tuple_of_json j =
     (case j of
        JNull \<Rightarrow> Some zeroTuple
      | JObj ob \<Rightarrow>
          (case (as_str (field ''ID'' ob), as_str (field ''Key'' ob), as_str (field ''Value'' ob),
                 as_time (field ''Timestamp'' ob), as_str (field ''SenderID'' ob),
                 as_str (field ''TaskID'' ob), as_EOF (field ''EOF'' ob)) of
             (Some i, Some k, Some v, Some ts, Some s, Some tk, Some e) \<Rightarrow>
               Some \<lparr>tp_ID = i, tp_Key = k, tp_Value = v, tp_Timestamp = ts, tp_SenderID = s,
                     tp_TaskID = tk, tp_EOF = e\<rparr>
           | _ \<Rightarrow> None)
      | _ \<Rightarrow> None)"

definition ReceivedTuple_to_json :: "ReceivedTuple \<Rightarrow> json" where
  "ReceivedTuple_to_json r = JObj
     [(''TupleID'', JStr (rt_TupleID r)), (''SenderID'', JStr (rt_SenderID r)),
      (''ReceivedAt'', JTime (rt_ReceivedAt r)), (''Processed'', JBool (rt_Processed r)),
      (''ExpectedOutputs'', JNum (rt_ExpectedOutputs r)), (''OutputCount'', JNum (rt_OutputCount r))]"

definition ReceivedTuple_of_json :: "json \<Rightarrow> ReceivedTuple option" where
  "ReceivedTuple_of_json j =
     (case j of
        JNull \<Rightarrow> Some \<lparr>rt_TupleID = [], rt_SenderID = [], rt_ReceivedAt = 0, rt_Processed = False,
                       rt_ExpectedOutputs = 0, rt_OutputCount = 0\<rparr>
      | JObj ob \<Rightarrow>
          (case (as_str (field ''TupleID'' ob), as_str (field ''SenderID'' ob),
                 as_time (field ''ReceivedAt'' ob), as_bool (field ''Processed'' ob),
                 as_int (field ''ExpectedOutputs'' ob), as_int (field ''OutputCount'' ob)) of
             (Some i, Some s, Some a, Some p, Some e, Some c) \<Rightarrow>
               Some \<lparr>rt_TupleID = i, rt_SenderID = s, rt_ReceivedAt = a, rt_Processed = p,
                     rt_ExpectedOutputs = e, rt_OutputCount = c\<rparr>
           | _ \<Rightarrow> None)
      | _ \<Rightarrow> None)"

definition SentTuple_to_json :: "SentTuple \<Rightarrow> json" where
  "SentTuple_to_json s = JObj
     [(''Tuple'', (case st_Tuple s of None \<Rightarrow> JNull | Some t \<Rightarrow> Tuple_to_json t)),
      (''SentAt'', JTime (st_SentAt s)), (''OriginalID'', JStr (st_OriginalID s)),
      (''Destination'', JStr (st_Destination s))]"

definition SentTuple_of_json :: "json \<Rightarrow> SentTuple option" where
  "SentTuple_of_json j =
     (case j of
        JNull \<Rightarrow> Some \<lparr>st_Tuple = None, st_SentAt = 0, st_OriginalID = [], st_Destination = []\<rparr>
      | JObj ob \<Rightarrow>
          (case (if field ''Tuple'' ob = JNull then Some None
                 else map_option Some (Tuple_of_json (field ''Tuple'' ob)),
                 as_time (field ''SentAt'' ob), as_str (field ''OriginalID'' ob),
                 as_str (field ''Destination'' ob)) of
             (Some t, Some a, Some i, Some d) \<Rightarrow>
               Some \<lparr>st_Tuple = t, st_SentAt = a, st_OriginalID = i, st_Destination = d\<rparr>
           | _ \<Rightarrow> None)
      | _ \<Rightarrow> None)"

lemma Tuple_json_roundtrip [simp]: "Tuple_of_json (Tuple_to_json t) = Some t"
  by (cases "tp_EOF t") (simp_all add: Tuple_of_json_def Tuple_to_json_def field_def)

lemma ReceivedTuple_json_roundtrip [simp]: "ReceivedTuple_of_json (ReceivedTuple_to_json r) = Some r"
  by (simp add: ReceivedTuple_of_json_def ReceivedTuple_to_json_def field_def)

lemma Tuple_to_json_not_null [simp]: "Tuple_to_json t \<noteq> JNull"
  by (simp add: Tuple_to_json_def)

lemma SentTuple_json_roundtrip [simp]: "SentTuple_of_json (SentTuple_to_json s) = Some s"
  by (cases "st_Tuple s") (simp_all add: SentTuple_of_json_def SentTuple_to_json_def field_def)

subsection \<open>The manager\<close>

text \<open>
  \<open>eom_task\<close> is the owning task's ID when the task pointer is set, \<open>eom_nm\<close> says that the node
  manager and its server are. The maps' sizes are finite by construction.
\<close>

record EOM =
  eom_received :: "string \<rightharpoonup> ReceivedTuple"
  eom_sent :: "string \<rightharpoonup> SentTuple"
  eom_isSource :: bool
  eom_isFinalStage :: bool
  eom_walFileName :: string
  eom_writeBuffer :: "line list"
  eom_pendingAcks :: "string list"
  eom_nm :: bool
  eom_task :: "string option"
  eom_stopped :: bool

definition logRecord :: "string \<Rightarrow> string \<Rightarrow> json option \<Rightarrow> EOM \<Rightarrow> EOM" where
  "logRecord recType tupleID payload eom =
     (let rc = [(''tuple_id'', JStr tupleID), (''type'', JStr recType)] @
               (case payload of None \<Rightarrow> [] | Some p \<Rightarrow> [(''payload'', p)])
      in eom\<lparr>eom_writeBuffer := eom_writeBuffer eom @ [Line (JObj rc)]\<rparr>)"

definition AddReceivedTuple :: "time \<Rightarrow> Tuple \<Rightarrow> EOM \<Rightarrow> bool \<times> EOM" where
  "AddReceivedTuple now tuple eom =
     (if eom_isSource eom then (True, eom)
      else if eom_received eom (tp_ID tuple) \<noteq> None then (False, eom)
      else
        let rt = \<lparr>rt_TupleID = tp_ID tuple, rt_SenderID = tp_SenderID tuple, rt_ReceivedAt = now,
                  rt_Processed = False, rt_ExpectedOutputs = 0, rt_OutputCount = 0\<rparr>
        in (True, eom\<lparr>eom_received := (eom_received eom)(tp_ID tuple \<mapsto> rt)\<rparr>))"

definition SetExpectedOutputCount :: "string \<Rightarrow> int \<Rightarrow> EOM \<Rightarrow> bool \<times> EOM" where
  "SetExpectedOutputCount tupleID cnt eom =
     (if eom_isSource eom then (False, eom)
      else case eom_received eom tupleID of
          None \<Rightarrow> (False, eom)
        | Some rt \<Rightarrow>
            let rt = rt\<lparr>rt_ExpectedOutputs := cnt\<rparr>
            in if cnt > 0 \<and> rt_OutputCount rt \<ge> cnt then
                 let rt = rt\<lparr>rt_Processed := True\<rparr>
                 in (True, eom\<lparr>eom_received := (eom_received eom)(tupleID \<mapsto> rt)\<rparr>)
               else if cnt = 0 then
                 let rt = rt\<lparr>rt_Processed := True\<rparr>;
                     eom = eom\<lparr>eom_received := (eom_received eom)(tupleID \<mapsto> rt)\<rparr>;
                     eom = logRecord ''REC'' tupleID (Some (ReceivedTuple_to_json rt)) eom
                 in (True, eom\<lparr>eom_pendingAcks := eom_pendingAcks eom @ [tupleID]\<rparr>)
               else (False, eom\<lparr>eom_received := (eom_received eom)(tupleID \<mapsto> rt)\<rparr>))"

definition IncrementOutputCount :: "string \<Rightarrow> EOM \<Rightarrow> bool \<times> EOM" where
  "IncrementOutputCount tupleID eom =
     (if eom_isSource eom then (False, eom)
      else case eom_received eom tupleID of
          None \<Rightarrow> (False, eom)
        | Some rt \<Rightarrow>
            let rt = rt\<lparr>rt_OutputCount := rt_OutputCount rt + 1\<rparr>
            in if rt_ExpectedOutputs rt > 0 \<and> rt_OutputCount rt \<ge> rt_ExpectedOutputs rt then
                 let rt = rt\<lparr>rt_Processed := True\<rparr>;
                     eom = eom\<lparr>eom_received := (eom_received eom)(tupleID \<mapsto> rt)\<rparr>;
                     eom = logRecord ''REC'' tupleID (Some (ReceivedTuple_to_json rt)) eom
                 in (True, eom\<lparr>eom_pendingAcks := eom_pendingAcks eom @ [tupleID]\<rparr>)
               else (False, eom\<lparr>eom_received := (eom_received eom)(tupleID \<mapsto> rt)\<rparr>))"

definition AddSentTuple :: "time \<Rightarrow> Tuple \<Rightarrow> string \<Rightarrow> string \<Rightarrow> EOM \<Rightarrow> EOM" where
  "AddSentTuple now tuple originalID destination eom =
     (if eom_isFinalStage eom then eom
      else
        let st = \<lparr>st_Tuple = Some tuple, st_SentAt = now, st_OriginalID = originalID,
                  st_Destination = destination\<rparr>;
            eom = eom\<lparr>eom_sent := (eom_sent eom)(tp_ID tuple \<mapsto> st)\<rparr>
        in logRecord ''SENT'' (tp_ID tuple) (Some (SentTuple_to_json st)) eom)"

definition RemoveSentTuple :: "string \<Rightarrow> EOM \<Rightarrow> EOM" where
  "RemoveSentTuple tupleID eom =
     (if eom_isFinalStage eom then eom
      else case eom_sent eom tupleID of
          None \<Rightarrow> eom
        | Some _ \<Rightarrow>
            logRecord ''ACK'' tupleID None (eom\<lparr>eom_sent := (eom_sent eom)(tupleID := None)\<rparr>))"

definition GetSentTuple :: "string \<Rightarrow> EOM \<Rightarrow> SentTuple option" where
  "GetSentTuple tupleID eom = (if eom_isFinalStage eom then None else eom_sent eom tupleID)"

definition EOM_Stop :: "EOM \<Rightarrow> EOM" where
  "EOM_Stop eom = (if eom_stopped eom then eom else eom\<lparr>eom_stopped := True\<rparr>)"

subsection \<open>Recovery\<close>

type_synonym eom_view = "(string \<rightharpoonup> ReceivedTuple) \<times> (string \<rightharpoonup> SentTuple)"

text \<open>One turn of the scanning loops of \<open>restoreFromLogs\<close> and \<open>mergeStateFromLocalWal\<close>.\<close>

definition replay_line :: "line \<Rightarrow> eom_view \<Rightarrow> eom_view" where
  "replay_line l v =
     (case l of
        Line (JObj ob) \<Rightarrow>
          (case (as_str (field ''type'' ob), as_str (field ''tuple_id'' ob)) of
             (Some ty, Some tid) \<Rightarrow>
               if ty = ''REC'' then
                 (case ReceivedTuple_of_json (field ''payload'' ob) of
                    None \<Rightarrow> v | Some rt \<Rightarrow> ((fst v)(tid \<mapsto> rt), snd v))
               else if ty = ''SENT'' then
                 (case SentTuple_of_json (field ''payload'' ob) of
                    None \<Rightarrow> v | Some st \<Rightarrow> (fst v, (snd v)(tid \<mapsto> st)))
               else if ty = ''ACK'' then (fst v, (snd v)(tid := None))
               else v
           | _ \<Rightarrow> v)
      | _ \<Rightarrow> v)"

definition replay :: "line list \<Rightarrow> eom_view \<Rightarrow> eom_view" where
  "replay ls v = fold replay_line ls v"

definition mergeStateFromLocalWal :: "line list \<Rightarrow> EOM \<Rightarrow> EOM" where
  "mergeStateFromLocalWal wal eom =
     (let (r, s) = replay wal (eom_received eom, eom_sent eom)
      in eom\<lparr>eom_received := r, eom_sent := s\<rparr>)"

text \<open>The log found for the task, if any, is the argument \<open>wal\<close>.\<close>

definition restoreFromLogs :: "line list option \<Rightarrow> EOM \<Rightarrow> EOM" where
  "restoreFromLogs wal eom =
     (if eom_isSource eom then eom
      else case (if eom_nm eom \<and> eom_walFileName eom \<noteq> [] then wal else None) of
          None \<Rightarrow> eom
        | Some ls \<Rightarrow> mergeStateFromLocalWal ls eom)"

definition NewExactlyOnceManager ::
    "line list option \<Rightarrow> bool \<Rightarrow> bool \<Rightarrow> bool \<Rightarrow> string option \<Rightarrow> EOM" where
  "NewExactlyOnceManager wal isSource isFinalStage nm task =
     restoreFromLogs wal
       \<lparr>eom_received = Map.empty, eom_sent = Map.empty, eom_isSource = isSource,
        eom_isFinalStage = isFinalStage,
        eom_walFileName = (case task of None \<Rightarrow> [] | Some t \<Rightarrow> ''wal-'' @ t @ ''.log''),
        eom_writeBuffer = [], eom_pendingAcks = [], eom_nm = nm, eom_task = task,
        eom_stopped = False\<rparr>"

subsection \<open>Flushing and retrying\<close>

text \<open>
  A tick of the flush loop: what goes to the write-ahead log, the ACKs it then sends (tuple
  ID, sender ID), and the manager with its buffers emptied. The ACKs do not depend on whether
  the write succeeded.
\<close>

definition flush_acks :: "EOM \<Rightarrow> (string \<times> string) list" where
  "flush_acks eom =
     (if eom_nm eom \<and> eom_task eom \<noteq> None then
        concat (map (\<lambda>i. case eom_received eom i of
            None \<Rightarrow> []
          | Some rt \<Rightarrow> if rt_SenderID rt = [] then [] else [(rt_TupleID rt, rt_SenderID rt)])
          (eom_pendingAcks eom))
      else [])"

definition ackFlushTick :: "EOM \<Rightarrow> line list \<times> (string \<times> string) list \<times> EOM" where
  "ackFlushTick eom =
     (if eom_writeBuffer eom = [] \<and> eom_pendingAcks eom = [] then ([], [], eom)
      else (if eom_nm eom \<and> eom_walFileName eom \<noteq> [] then eom_writeBuffer eom else [],
            flush_acks eom,
            eom\<lparr>eom_writeBuffer := [], eom_pendingAcks := []\<rparr>))"

text \<open>
  \<open>RetryPendingSends\<close> up to its callback: the entries due, in the order \<open>ids\<close> in which Go
  visits the map, each stamped with the current time.
\<close>

definition retry_due :: "time \<Rightarrow> duration \<Rightarrow> SentTuple \<Rightarrow> bool" where
  "retry_due now interval st \<longleftrightarrow> \<not> time_Sub now (st_SentAt st) < interval"

definition retry_one ::
    "time \<Rightarrow> duration \<Rightarrow> string \<Rightarrow> (string \<times> SentTuple) list \<times> EOM \<Rightarrow> (string \<times> SentTuple) list \<times> EOM" where
  "retry_one now interval i p =
     (case p of (toRetry, eom) \<Rightarrow>
        (case eom_sent eom i of
           None \<Rightarrow> (toRetry, eom)
         | Some st \<Rightarrow>
             if retry_due now interval st then
               let st = st\<lparr>st_SentAt := now\<rparr>
               in (toRetry @ [(i, st)], eom\<lparr>eom_sent := (eom_sent eom)(i \<mapsto> st)\<rparr>)
             else (toRetry, eom)))"

definition RetryPendingSends ::
    "time \<Rightarrow> duration \<Rightarrow> string list \<Rightarrow> EOM \<Rightarrow> (string \<times> SentTuple) list \<times> EOM" where
  "RetryPendingSends now interval ids eom =
     (if eom_isFinalStage eom then ([], eom) else fold (retry_one now interval) ids ([], eom))"

definition GetStats :: "string list \<Rightarrow> string list \<Rightarrow> EOM \<Rightarrow> nat \<times> nat \<times> nat" where
  "GetStats receivedIDs sentIDs eom =
     (length receivedIDs, length sentIDs,
      length (filter (\<lambda>i. case eom_received eom i of None \<Rightarrow> False | Some rt \<Rightarrow> \<not> rt_Processed rt) receivedIDs))"

subsection \<open>The manager with its log\<close>

text \<open>
  The operations of a task's goroutines on a manager, and the system of the manager, the log as far
  as it is durable, and the ACKs sent. \<open>OFlush\<close> is a tick of the flush loop whose write to HyDFS
  succeeds iff its argument is true; \<open>ORetry\<close> is the part of a retry before the resends, which are
  \<open>OSend\<close> operations again.
\<close>

datatype eom_op =
    ORecv time Tuple
  | OExpect string int
  | OIncr string
  | OSend time Tuple string string
  | OAck string
  | ORetry time duration "string list"
  | OFlush bool

record eom_sys =
  es_wal :: "line list"
  es_acked :: "(string \<times> string) list"
  es_eom :: EOM

definition eom_exec :: "eom_op \<Rightarrow> eom_sys \<Rightarrow> eom_sys" where
  "eom_exec op s =
     (case op of
        ORecv now t \<Rightarrow> s\<lparr>es_eom := snd (AddReceivedTuple now t (es_eom s))\<rparr>
      | OExpect i n \<Rightarrow> s\<lparr>es_eom := snd (SetExpectedOutputCount i n (es_eom s))\<rparr>
      | OIncr i \<Rightarrow> s\<lparr>es_eom := snd (IncrementOutputCount i (es_eom s))\<rparr>
      | OSend now t orig dest \<Rightarrow> s\<lparr>es_eom := AddSentTuple now t orig dest (es_eom s)\<rparr>
      | OAck i \<Rightarrow> s\<lparr>es_eom := RemoveSentTuple i (es_eom s)\<rparr>
      | ORetry now iv ids \<Rightarrow> s\<lparr>es_eom := snd (RetryPendingSends now iv ids (es_eom s))\<rparr>
      | OFlush written \<Rightarrow>
          (case ackFlushTick (es_eom s) of (out, acks, eom) \<Rightarrow>
             \<lparr>es_wal = (if written then es_wal s @ out else es_wal s), es_acked = es_acked s @ acks,
              es_eom = eom\<rparr>))"

text \<open>
  What the callers guarantee: the expected count of a tuple that is still being processed is set
  before any of its outputs is counted (\<open>readTaskOutput\<close>); and, for a run without storage
  failures, every flush is written.
\<close>

definition expect_first :: "eom_op \<Rightarrow> eom_sys \<Rightarrow> bool" where
  "expect_first op s =
     (case op of
        OExpect i n \<Rightarrow>
          (case eom_received (es_eom s) i of
             None \<Rightarrow> True | Some rt \<Rightarrow> rt_Processed rt \<or> rt_OutputCount rt = 0)
      | OFlush written \<Rightarrow> written
      | _ \<Rightarrow> True)"

text \<open>
  The durable view: for each processed tuple its ID and sender, for each pending output what it
  was derived from and what it carries. Send times and the routing of a retried output are not part
  of it.
\<close>

type_synonym durable =
  "(string \<rightharpoonup> string \<times> string) \<times> (string \<rightharpoonup> string \<times> (string \<times> string \<times> string) option)"

definition sent_key :: "SentTuple \<Rightarrow> string \<times> (string \<times> string \<times> string) option" where
  "sent_key st = (st_OriginalID st, map_option (\<lambda>t. (tp_ID t, tp_Key t, tp_Value t)) (st_Tuple st))"

definition recv_key :: "ReceivedTuple \<Rightarrow> string \<times> string" where
  "recv_key rt = (rt_TupleID rt, rt_SenderID rt)"

definition view_of :: "eom_view \<Rightarrow> durable" where
  "view_of v = ((\<lambda>i. map_option recv_key (fst v i)), (\<lambda>i. map_option sent_key (snd v i)))"

definition processed_only :: "(string \<rightharpoonup> ReceivedTuple) \<Rightarrow> (string \<rightharpoonup> ReceivedTuple)" where
  "processed_only r = (\<lambda>i. case r i of None \<Rightarrow> None | Some rt \<Rightarrow> if rt_Processed rt then Some rt else None)"

definition durable_view :: "EOM \<Rightarrow> durable" where
  "durable_view eom = view_of (processed_only (eom_received eom), eom_sent eom)"

definition replay_view :: "line \<Rightarrow> durable \<Rightarrow> durable" where
  "replay_view l v =
     (case l of
        Line (JObj ob) \<Rightarrow>
          (case (as_str (field ''type'' ob), as_str (field ''tuple_id'' ob)) of
             (Some ty, Some tid) \<Rightarrow>
               if ty = ''REC'' then
                 (case ReceivedTuple_of_json (field ''payload'' ob) of
                    None \<Rightarrow> v | Some rt \<Rightarrow> ((fst v)(tid \<mapsto> recv_key rt), snd v))
               else if ty = ''SENT'' then
                 (case SentTuple_of_json (field ''payload'' ob) of
                    None \<Rightarrow> v | Some st \<Rightarrow> (fst v, (snd v)(tid \<mapsto> sent_key st)))
               else if ty = ''ACK'' then (fst v, (snd v)(tid := None))
               else v
           | _ \<Rightarrow> v)
      | _ \<Rightarrow> v)"

lemma map_option_upd: "(\<lambda>i. map_option f ((m(k \<mapsto> x)) i)) = (\<lambda>i. map_option f (m i))(k \<mapsto> f x)"
  by auto

lemma map_option_del: "(\<lambda>i. map_option f ((m(k := None)) i)) = (\<lambda>i. map_option f (m i))(k := None)"
  by auto

lemma view_of_replay_line: "view_of (replay_line l v) = replay_view l (view_of v)"
  unfolding replay_line_def replay_view_def view_of_def
  by (auto simp: map_option_upd map_option_del split: line.split json.split option.split)

lemma view_of_replay: "view_of (replay ls v) = fold replay_view ls (view_of v)"
  by (induction ls arbitrary: v) (simp_all add: replay_def view_of_replay_line)

subsection \<open>What the operations write\<close>

definition rec_line :: "string \<Rightarrow> ReceivedTuple \<Rightarrow> line" where
  "rec_line i rt = Line (JObj [(''tuple_id'', JStr i), (''type'', JStr ''REC''),
     (''payload'', ReceivedTuple_to_json rt)])"

definition sent_line :: "string \<Rightarrow> SentTuple \<Rightarrow> line" where
  "sent_line i st = Line (JObj [(''tuple_id'', JStr i), (''type'', JStr ''SENT''),
     (''payload'', SentTuple_to_json st)])"

definition ack_line :: "string \<Rightarrow> line" where
  "ack_line i = Line (JObj [(''tuple_id'', JStr i), (''type'', JStr ''ACK'')])"

lemma logRecord_lines [eom_facts]:
  "logRecord ''REC'' i (Some (ReceivedTuple_to_json rt)) eom =
    eom\<lparr>eom_writeBuffer := eom_writeBuffer eom @ [rec_line i rt]\<rparr>"
  "logRecord ''SENT'' i (Some (SentTuple_to_json st)) eom =
    eom\<lparr>eom_writeBuffer := eom_writeBuffer eom @ [sent_line i st]\<rparr>"
  "logRecord ''ACK'' i None eom = eom\<lparr>eom_writeBuffer := eom_writeBuffer eom @ [ack_line i]\<rparr>"
  by (simp_all add: logRecord_def rec_line_def sent_line_def ack_line_def)

lemma replay_view_lines [eom_facts]:
  "replay_view (rec_line i rt) v = ((fst v)(i \<mapsto> recv_key rt), snd v)"
  "replay_view (sent_line i st) v = (fst v, (snd v)(i \<mapsto> sent_key st))"
  "replay_view (ack_line i) v = (fst v, (snd v)(i := None))"
  by (simp_all add: replay_view_def rec_line_def sent_line_def ack_line_def field_def)

definition eom_journal :: "eom_sys \<Rightarrow> line list" where
  "eom_journal s = es_wal s @ eom_writeBuffer (es_eom s)"

definition eom_emitted :: "eom_op \<Rightarrow> eom_sys \<Rightarrow> line list" where
  "eom_emitted op s = drop (length (eom_journal s)) (eom_journal (eom_exec op s))"

definition eom_ok :: "eom_sys \<Rightarrow> bool" where
  "eom_ok s \<longleftrightarrow>
     \<not> eom_isSource (es_eom s) \<and> eom_nm (es_eom s) \<and> eom_walFileName (es_eom s) \<noteq> [] \<and>
     (\<forall>i rt. eom_received (es_eom s) i = Some rt \<longrightarrow> rt_TupleID rt = i) \<and>
     (\<forall>i \<in> set (eom_pendingAcks (es_eom s)).
        \<exists>rt. eom_received (es_eom s) i = Some rt \<and> rt_Processed rt)"

lemma processed_only_upd:
  "processed_only (r(i \<mapsto> rt)) = (processed_only r)(i := if rt_Processed rt then Some rt else None)"
  by (auto simp: processed_only_def)

lemma durable_view_eqI:
  "(\<And>i. map_option recv_key (processed_only (eom_received a) i) =
         map_option recv_key (processed_only (eom_received b) i)) \<Longrightarrow>
    (\<And>i. map_option sent_key (eom_sent a i) = map_option sent_key (eom_sent b i)) \<Longrightarrow>
    durable_view a = durable_view b"
  by (simp add: durable_view_def view_of_def)

definition only_sent_changed :: "EOM \<Rightarrow> EOM \<Rightarrow> bool" where
  "only_sent_changed eom eom' \<longleftrightarrow>
     (\<exists>s. eom' = eom\<lparr>eom_sent := s\<rparr>) \<and> durable_view eom' = durable_view eom"

lemma only_sent_refl: "only_sent_changed eom eom"
  unfolding only_sent_changed_def by (metis EOM.surjective EOM.update_convs(2))

lemma only_sent_trans: "only_sent_changed a b \<Longrightarrow> only_sent_changed b c \<Longrightarrow> only_sent_changed a c"
  by (auto simp: only_sent_changed_def)

lemma retry_one_effect: "only_sent_changed (snd p) (snd (retry_one now iv i p))"
proof (cases p)
  case (Pair acc eom)
  show ?thesis
  proof (cases "eom_sent eom i")
    case None
    with Pair show ?thesis by (simp add: retry_one_def only_sent_refl)
  next
    case (Some st)
    let ?eom = "eom\<lparr>eom_sent := (eom_sent eom)(i \<mapsto> st\<lparr>st_SentAt := now\<rparr>)\<rparr>"
    have "durable_view ?eom = durable_view eom"
      using Some by (intro durable_view_eqI) (auto simp: sent_key_def)
    then have "only_sent_changed eom ?eom" unfolding only_sent_changed_def by blast
    with Some Pair show ?thesis by (auto simp: retry_one_def Let_def only_sent_refl)
  qed
qed

lemma RetryPendingSends_effect: "only_sent_changed eom (snd (RetryPendingSends now iv ids eom))"
proof -
  have "only_sent_changed (snd p) (snd (fold (retry_one now iv) ids p))" for p
  proof (induction ids arbitrary: p)
    case (Cons i ids)
    show ?case using only_sent_trans [OF retry_one_effect Cons.IH] by simp
  qed (simp add: only_sent_refl)
  from this [of "([], eom)"] show ?thesis by (simp add: RetryPendingSends_def only_sent_refl)
qed

definition good_step :: "eom_sys \<Rightarrow> eom_sys \<Rightarrow> bool" where
  "good_step s s' \<longleftrightarrow>
     (\<exists>new. eom_journal s' = eom_journal s @ new \<and>
        durable_view (es_eom s') = fold replay_view new (durable_view (es_eom s))) \<and> eom_ok s'"

lemma good_stepI:
  "eom_journal s' = eom_journal s @ new \<Longrightarrow>
    durable_view (es_eom s') = fold replay_view new (durable_view (es_eom s)) \<Longrightarrow> eom_ok s' \<Longrightarrow>
    good_step s s'"
  by (auto simp: good_step_def)

lemmas view_defs = durable_view_def view_of_def processed_only_def

lemma good_ORecv: "eom_ok s \<Longrightarrow> good_step s (eom_exec (ORecv now t) s)"
  by (rule good_stepI [where new = "[]"])
    (auto simp: eom_exec_def AddReceivedTuple_def eom_journal_def eom_ok_def view_defs)

lemma good_ORetry: "eom_ok s \<Longrightarrow> good_step s (eom_exec (ORetry now iv ids) s)"
  using RetryPendingSends_effect [of "es_eom s" now iv ids]
  by (intro good_stepI [where new = "[]"])
    (auto simp: eom_exec_def only_sent_changed_def eom_journal_def eom_ok_def)

lemma good_OAck: "eom_ok s \<Longrightarrow> good_step s (eom_exec (OAck i) s)"
proof (cases "eom_isFinalStage (es_eom s) \<or> eom_sent (es_eom s) i = None")
  case True
  assume "eom_ok s"
  with True show ?thesis
    by (intro good_stepI [where new = "[]"])
      (auto simp: eom_exec_def RemoveSentTuple_def eom_journal_def eom_ok_def)
next
  case False
  assume "eom_ok s"
  with False show ?thesis
    by (intro good_stepI [where new = "[ack_line i]"])
      (auto simp: eom_exec_def RemoveSentTuple_def eom_journal_def eom_ok_def eom_facts view_defs)
qed

lemma good_OSend: "eom_ok s \<Longrightarrow> good_step s (eom_exec (OSend now t orig dest) s)"
proof (cases "eom_isFinalStage (es_eom s)")
  case True
  assume "eom_ok s"
  with True show ?thesis
    by (intro good_stepI [where new = "[]"])
      (auto simp: eom_exec_def AddSentTuple_def eom_journal_def eom_ok_def)
next
  case False
  let ?st = "\<lparr>st_Tuple = Some t, st_SentAt = now, st_OriginalID = orig, st_Destination = dest\<rparr>"
  assume "eom_ok s"
  with False show ?thesis
    by (intro good_stepI [where new = "[sent_line (tp_ID t) ?st]"])
      (auto simp: eom_exec_def AddSentTuple_def Let_def eom_journal_def eom_ok_def eom_facts view_defs)
qed

text \<open>Finishing a tuple: its entry becomes processed, a record is logged and an ACK is due.\<close>

lemma good_finish:
  assumes "eom_ok s" and "eom_received (es_eom s) i = Some rt0"
    and "rt_Processed rt" and "recv_key rt = recv_key rt0"
    and "eom = es_eom s"
  shows "good_step s (s\<lparr>es_eom := eom\<lparr>eom_received := (eom_received eom)(i \<mapsto> rt),
    eom_writeBuffer := eom_writeBuffer eom @ [rec_line i rt],
    eom_pendingAcks := eom_pendingAcks eom @ [i]\<rparr>\<rparr>)"
  using assms
  by (intro good_stepI [where new = "[rec_line i rt]"])
    (auto simp: eom_journal_def eom_ok_def eom_facts view_defs recv_key_def)

text \<open>Changing a count of an entry without finishing it is invisible in the durable view.\<close>

lemma good_count:
  assumes "eom_ok s" and "eom_received (es_eom s) i = Some rt0"
    and "rt_Processed rt = rt_Processed rt0" and "recv_key rt = recv_key rt0"
    and "eom = es_eom s"
  shows "good_step s (s\<lparr>es_eom := eom\<lparr>eom_received := (eom_received eom)(i \<mapsto> rt)\<rparr>\<rparr>)"
proof (rule good_stepI [where new = "[]"])
  show "durable_view (es_eom (s\<lparr>es_eom := eom\<lparr>eom_received := (eom_received eom)(i \<mapsto> rt)\<rparr>\<rparr>)) =
      fold replay_view [] (durable_view (es_eom s))"
    using assms by (auto simp: processed_only_def intro!: durable_view_eqI)
qed (use assms in \<open>auto simp: eom_journal_def eom_ok_def recv_key_def\<close>)

lemma good_skip: "eom_ok s \<Longrightarrow> good_step s s"
  by (rule good_stepI [where new = "[]"]) simp_all

lemma good_OIncr:
  assumes "eom_ok s"
  shows "good_step s (eom_exec (OIncr i) s)"
proof (cases "eom_received (es_eom s) i")
  case None
  with assms show ?thesis by (simp add: eom_exec_def IncrementOutputCount_def good_skip)
next
  case (Some rt)
  have "\<not> eom_isSource (es_eom s)" using assms by (simp add: eom_ok_def)
  with Some show ?thesis
    using good_finish [OF assms Some, of "rt\<lparr>rt_OutputCount := rt_OutputCount rt + 1, rt_Processed := True\<rparr>"]
      good_count [OF assms Some, of "rt\<lparr>rt_OutputCount := rt_OutputCount rt + 1\<rparr>"]
    by (simp add: eom_exec_def IncrementOutputCount_def Let_def eom_facts recv_key_def)
qed

lemma good_OExpect:
  assumes "eom_ok s" and "expect_first (OExpect i n) s"
  shows "good_step s (eom_exec (OExpect i n) s)"
proof (cases "eom_received (es_eom s) i")
  case None
  with assms show ?thesis by (simp add: eom_exec_def SetExpectedOutputCount_def good_skip)
next
  case (Some rt)
  have src: "\<not> eom_isSource (es_eom s)" using assms by (simp add: eom_ok_def)
  show ?thesis
  proof (cases "n > 0 \<and> rt_OutputCount rt \<ge> n")
    case True
    then have "rt_Processed rt" using assms(2) Some by (auto simp: expect_first_def)
    with True Some src show ?thesis
      using good_count [OF assms(1) Some, of "rt\<lparr>rt_ExpectedOutputs := n, rt_Processed := True\<rparr>"]
      by (simp add: eom_exec_def SetExpectedOutputCount_def Let_def recv_key_def)
  next
    case False
    with Some src show ?thesis
      using good_finish [OF assms(1) Some, of "rt\<lparr>rt_ExpectedOutputs := n, rt_Processed := True\<rparr>"]
        good_count [OF assms(1) Some, of "rt\<lparr>rt_ExpectedOutputs := n\<rparr>"]
      by (auto simp: eom_exec_def SetExpectedOutputCount_def Let_def eom_facts recv_key_def)
  qed
qed

lemma good_OFlush:
  assumes "eom_ok s" and "expect_first (OFlush w) s"
  shows "good_step s (eom_exec (OFlush w) s)"
  using assms
  by (intro good_stepI [where new = "[]"])
    (auto simp: eom_exec_def ackFlushTick_def eom_journal_def eom_ok_def expect_first_def durable_view_def)

lemma good_exec: "eom_ok s \<Longrightarrow> expect_first op s \<Longrightarrow> good_step s (eom_exec op s)"
  by (cases op)
    (simp_all add: good_ORecv good_ORetry good_OAck good_OSend good_OIncr good_OExpect good_OFlush)

interpretation wal: journaled eom_ok expect_first eom_exec eom_journal eom_emitted
    "\<lambda>s. durable_view (es_eom s)" replay_view
  using good_exec by unfold_locales (fastforce simp: good_step_def eom_emitted_def)+

subsection \<open>Recovery after a crash\<close>

text \<open>A task's manager started on an empty log, and one restarted from the log a crash leaves.\<close>

definition fresh_sys :: "bool \<Rightarrow> string \<Rightarrow> eom_sys" where
  "fresh_sys isFinal t =
     \<lparr>es_wal = [], es_acked = [], es_eom = NewExactlyOnceManager None False isFinal True (Some t)\<rparr>"

definition restarted :: "bool \<Rightarrow> string \<Rightarrow> eom_sys \<Rightarrow> EOM" where
  "restarted isFinal t s = NewExactlyOnceManager (Some (es_wal s)) False isFinal True (Some t)"

lemma fresh_ok: "eom_ok (fresh_sys f t)"
  by (simp add: fresh_sys_def eom_ok_def NewExactlyOnceManager_def restoreFromLogs_def)

abbreviation no_view :: durable where "no_view \<equiv> (Map.empty, Map.empty)"

lemma fresh_view: "durable_view (es_eom (fresh_sys f t)) = fold replay_view (eom_journal (fresh_sys f t)) no_view"
  by (simp add: fresh_sys_def eom_journal_def NewExactlyOnceManager_def restoreFromLogs_def view_defs)

lemma restarted_view:
  "view_of (eom_received (restarted f t s), eom_sent (restarted f t s)) = fold replay_view (es_wal s) no_view"
proof -
  have "(eom_received (restarted f t s), eom_sent (restarted f t s)) = replay (es_wal s) (Map.empty, Map.empty)"
    by (simp add: restarted_def NewExactlyOnceManager_def restoreFromLogs_def mergeStateFromLocalWal_def
        case_prod_unfold Let_def)
  then show ?thesis by (simp add: view_of_replay) (simp add: view_of_def)
qed


lemma replay_view_mono: "fst v i \<noteq> None \<Longrightarrow> fst (fold replay_view ls v) i \<noteq> None"
proof (induction ls arbitrary: v)
  case (Cons l ls)
  have "fst (replay_view l v) i \<noteq> None"
    using Cons.prems by (auto simp: replay_view_def split: line.split json.split option.split)
  with Cons.IH show ?case by simp
qed simp

definition acked_logged :: "eom_sys \<Rightarrow> bool" where
  "acked_logged s \<longleftrightarrow> (\<forall>a \<in> set (es_acked s). fst (fold replay_view (es_wal s) no_view) (fst a) \<noteq> None)"

lemma flush_acks_processed:
  "eom_ok s \<Longrightarrow> a \<in> set (flush_acks (es_eom s)) \<Longrightarrow> fst (durable_view (es_eom s)) (fst a) \<noteq> None"
  by (auto simp: flush_acks_def eom_ok_def view_defs split: if_splits option.splits)

lemma acked_logged_step:
  assumes "eom_ok s" and "expect_first op s" and "acked_logged s"
    and "durable_view (es_eom s) = fold replay_view (eom_journal s) no_view"
  shows "acked_logged (eom_exec op s)"
proof (cases op)
  case (OFlush w)
  have w: "w" using OFlush assms(2) by (simp add: expect_first_def)
  show ?thesis
  proof (cases "eom_writeBuffer (es_eom s) = [] \<and> eom_pendingAcks (es_eom s) = []")
    case True
    with assms(3) OFlush show ?thesis by (simp add: eom_exec_def ackFlushTick_def acked_logged_def)
  next
    case False
    have wal: "es_wal (eom_exec op s) = eom_journal s"
      "es_acked (eom_exec op s) = es_acked s @ flush_acks (es_eom s)"
      using False OFlush w assms(1) by (auto simp: eom_exec_def ackFlushTick_def eom_journal_def eom_ok_def)
    have old: "fst (fold replay_view (eom_journal s) no_view) (fst a) \<noteq> None" if "a \<in> set (es_acked s)" for a
      using that assms(3) replay_view_mono by (simp add: acked_logged_def eom_journal_def)
    show ?thesis
      using old flush_acks_processed [OF assms(1)] by (auto simp: acked_logged_def wal assms(4))
  qed
qed (use assms(3) in \<open>simp_all add: eom_exec_def acked_logged_def\<close>)

lemma acked_logged_run:
  "eom_ok s \<Longrightarrow> wal.legal_run ops s \<Longrightarrow> acked_logged s \<Longrightarrow>
    durable_view (es_eom s) = fold replay_view (eom_journal s) no_view \<Longrightarrow>
    acked_logged (fold eom_exec ops s)"
proof (induction ops arbitrary: s)
  case (Cons op ops)
  have l: "expect_first op s" "wal.legal_run [op] s" using Cons.prems(2) by simp_all
  have "durable_view (es_eom (eom_exec op s)) = fold replay_view (eom_journal (eom_exec op s)) no_view"
    using wal.run_recovered [OF Cons.prems(1) l(2) Cons.prems(4)] by simp
  with Cons show ?case
    using wal.exec_ok acked_logged_step l(1) by simp
qed simp


definition demo_ops :: "eom_op list" where
  "demo_ops = [ORecv 1 (zeroTuple\<lparr>tp_ID := ''x'', tp_SenderID := ''up''\<rparr>), OExpect ''x'' 1,
     OSend 2 (zeroTuple\<lparr>tp_ID := ''x_0''\<rparr>) ''x'' ''h:1'', OIncr ''x'', OFlush True]"

lemma demo_ops_legal: "wal.legal_run demo_ops (fresh_sys False ''t'')"
  by (simp add: demo_ops_def expect_first_def eom_exec_def AddReceivedTuple_def fresh_sys_def
      NewExactlyOnceManager_def restoreFromLogs_def zeroTuple_def)

lemma demo_ops_result:
  "es_acked (fold eom_exec demo_ops (fresh_sys False ''t'')) = [(''x'', ''up'')]"
  "eom_writeBuffer (es_eom (fold eom_exec demo_ops (fresh_sys False ''t''))) = []"
  by code_simp+



text \<open>
  Without the durability of every flush the promise fails: when the write to HyDFS fails, the
  tick drops the buffered records and sends the ACKs all the same.
\<close>

lemma failed_flush_loses_acked_tuple:
  "let s = fold eom_exec (butlast demo_ops @ [OFlush False]) (fresh_sys False ''t'')
   in es_acked s = [(''x'', ''up'')] \<and> eom_writeBuffer (es_eom s) = [] \<and>
      eom_received (restarted False ''t'' s) ''x'' = None"
  by code_simp

end
