(* ===== verification/Member.thy ===== *)
theory Member imports GoLib begin

text \<open>
  \<open>member.go\<close>, \<open>utils.go\<close>, \<open>config.go\<close> and \<open>bandwidth.go\<close>: a member of the cluster and its
  identifier, the position of a name on the hash ring, address arithmetic, the global
  configuration and the traffic counters. SHA-1 is a parameter \<open>sha1\<close> giving the digest as a
  number. The constructors named \<open>Other\<close> stand for the remaining values of Go's string enums,
  which reach the program through decoded messages.
\<close>

subsection \<open>Members\<close>

datatype Status =
    StatusAlive | StatusSuspect | StatusDead | StatusVoluntaryLeave | StatusOther string

record Member =
  m_Address :: string
  m_Created :: time
  m_Status :: Status
  m_Heartbeat :: "64 word"
  m_Incarnation :: "64 word"
  m_LastUpdated :: time
  m_Hash :: int

definition zeroMember :: Member where
  "zeroMember = \<lparr>m_Address = [], m_Created = 0, m_Status = StatusOther [], m_Heartbeat = 0,
     m_Incarnation = 0, m_LastUpdated = 0, m_Hash = 0\<rparr>"

definition MemberID :: "Member \<Rightarrow> string" where
  "MemberID m = m_Address m @ ''-'' @ dec (Unix (m_Created m))"

definition MarkSuspect :: "time \<Rightarrow> Member \<Rightarrow> Member" where
  "MarkSuspect now m = m\<lparr>m_Status := StatusSuspect, m_LastUpdated := now\<rparr>"

definition MarkDead :: "time \<Rightarrow> Member \<Rightarrow> Member" where
  "MarkDead now m = m\<lparr>m_Status := StatusDead, m_LastUpdated := now\<rparr>"

definition MarkVoluntaryLeave :: "time \<Rightarrow> Member \<Rightarrow> Member" where
  "MarkVoluntaryLeave now m = m\<lparr>m_Status := StatusVoluntaryLeave, m_LastUpdated := now\<rparr>"

definition IsAlive :: "Member \<Rightarrow> bool" where
  "IsAlive m \<longleftrightarrow> m_Status m = StatusAlive"

lemma MemberID_update [simp, member_facts]:
  "MemberID (m\<lparr>m_Status := s\<rparr>) = MemberID m"
  "MemberID (m\<lparr>m_LastUpdated := t\<rparr>) = MemberID m"
  "MemberID (m\<lparr>m_Heartbeat := h\<rparr>) = MemberID m"
  "MemberID (m\<lparr>m_Incarnation := i\<rparr>) = MemberID m"
  by (simp_all add: MemberID_def)

lemma MemberID_Mark [simp, member_facts]:
  "MemberID (MarkSuspect t m) = MemberID m"
  "MemberID (MarkDead t m) = MemberID m"
  "MemberID (MarkVoluntaryLeave t m) = MemberID m"
  by (simp_all add: MarkSuspect_def MarkDead_def MarkVoluntaryLeave_def)

lemma Hash_Mark [simp, member_facts]:
  "m_Hash (MarkSuspect t m) = m_Hash m"
  "m_Hash (MarkDead t m) = m_Hash m"
  "m_Hash (MarkVoluntaryLeave t m) = m_Hash m"
  by (simp_all add: MarkSuspect_def MarkDead_def MarkVoluntaryLeave_def)

subsection \<open>Configuration\<close>

datatype ProtocolType = GossipProtocol | PingAckProtocol | OtherProtocol string

datatype SuspicionType = Suspect | NoSuspect | OtherSuspicion string

record Config =
  cfg_IntroducerAddr :: string
  cfg_Protocol :: ProtocolType
  cfg_Fanout :: int
  cfg_Suspicion :: SuspicionType
  cfg_HashBits :: nat
  cfg_ReplicationFactor :: int

definition PingFanout :: int where "PingFanout = 1"
definition GossipFanout :: int where "GossipFanout = 1"

definition initialConfig :: Config where
  "initialConfig = \<lparr>cfg_IntroducerAddr = ''fa25-cs425-3701.cs.illinois.edu:8080'',
     cfg_Protocol = GossipProtocol, cfg_Fanout = PingFanout, cfg_Suspicion = NoSuspect,
     cfg_HashBits = 8, cfg_ReplicationFactor = 3\<rparr>"

definition SwitchProtocol :: "ProtocolType \<Rightarrow> SuspicionType \<Rightarrow> Config \<Rightarrow> Config" where
  "SwitchProtocol p s cfg =
     cfg\<lparr>cfg_Protocol := p, cfg_Suspicion := s,
         cfg_Fanout := (if p = PingAckProtocol then PingFanout else GossipFanout)\<rparr>"

definition ProtocolMap :: "string \<rightharpoonup> ProtocolType" where
  "ProtocolMap = [''gossip'' \<mapsto> GossipProtocol, ''ping'' \<mapsto> PingAckProtocol]"

definition SuspicionMap :: "string \<rightharpoonup> SuspicionType" where
  "SuspicionMap = [''suspect'' \<mapsto> Suspect, ''nosuspect'' \<mapsto> NoSuspect]"

text \<open>The fixed table of virtual machines and its reverse.\<close>

definition NodeMapEntries :: "(string \<times> string) list" where
  "NodeMapEntries =
     [(''vm1'', ''fa25-cs425-3701.cs.illinois.edu:8080''),
      (''vm2'', ''fa25-cs425-3702.cs.illinois.edu:8080''),
      (''vm3'', ''fa25-cs425-3703.cs.illinois.edu:8080''),
      (''vm4'', ''fa25-cs425-3704.cs.illinois.edu:8080''),
      (''vm5'', ''fa25-cs425-3705.cs.illinois.edu:8080''),
      (''vm6'', ''fa25-cs425-3706.cs.illinois.edu:8080''),
      (''vm7'', ''fa25-cs425-3707.cs.illinois.edu:8080''),
      (''vm8'', ''fa25-cs425-3708.cs.illinois.edu:8080''),
      (''vm9'', ''fa25-cs425-3709.cs.illinois.edu:8080''),
      (''vm10'', ''fa25-cs425-3710.cs.illinois.edu:8080'')]"

definition NodeMap :: "string \<Rightarrow> string" where
  "NodeMap k = (case map_of NodeMapEntries k of Some a \<Rightarrow> a | None \<Rightarrow> [])"

definition AddressToVMName :: "string \<Rightarrow> string" where
  "AddressToVMName a =
     (case map_of (map (\<lambda>(v, a). (a, v)) NodeMapEntries) a of Some v \<Rightarrow> v | None \<Rightarrow> [])"

lemma AddressToVMName_NodeMap:
  "list_all (\<lambda>(v, a). AddressToVMName a = v \<and> NodeMap v = a) NodeMapEntries"
  by code_simp

text \<open>
  \<open>SetMessageDropRate\<close>: the parsed rate is clamped to the unit interval; text that is no
  number changes nothing. \<open>strconv.ParseFloat\<close> is the parameter \<open>parseFloat\<close>; rates are
  rational numbers.
\<close>

definition SetMessageDropRate :: "(string \<Rightarrow> rat option) \<Rightarrow> string \<Rightarrow> rat \<Rightarrow> rat" where
  "SetMessageDropRate parseFloat txt old =
     (case parseFloat txt of
        None \<Rightarrow> old
      | Some r \<Rightarrow>
          let r = (if r < 0 then 0 else r);
              r = (if r > 1 then 1 else r)
          in r)"

lemma SetMessageDropRate_bounds:
  "0 \<le> old \<Longrightarrow> old \<le> 1 \<Longrightarrow>
    0 \<le> SetMessageDropRate pf txt old \<and> SetMessageDropRate pf txt old \<le> 1"
  by (auto simp: SetMessageDropRate_def Let_def split: option.splits)

subsection \<open>Ring positions and addresses\<close>

definition HashToMbits :: "(string \<Rightarrow> nat) \<Rightarrow> Config \<Rightarrow> string \<Rightarrow> int" where
  "HashToMbits sha1 cfg input = int (sha1 input) mod 2 ^ cfg_HashBits cfg"

lemma HashToMbits_range:
  "0 \<le> HashToMbits sha1 cfg s \<and> HashToMbits sha1 cfg s < 2 ^ cfg_HashBits cfg"
  by (simp add: HashToMbits_def)

definition GetAddressFromID :: "string \<Rightarrow> string" where
  "GetAddressFromID memberID = (case rcut (CHR ''-'') memberID of None \<Rightarrow> [] | Some (a, _) \<Rightarrow> a)"

definition convertToGRPCAddress :: "string \<Rightarrow> string" where
  "convertToGRPCAddress udpAddr =
     (case Split udpAddr '':'' of
        [host, p] \<Rightarrow>
          (let (port, ok) = Atoi p
           in if ok then host @ '':'' @ dec (port + 1000) else udpAddr)
      | _ \<Rightarrow> udpAddr)"

text \<open>
  The address recovered from a member ID is the member's address, for every member
  created since 1970, whatever dashes its host name contains: the gossip and ping senders use it
  to turn the IDs they pick into the addresses they dial.
\<close>

theorem GetAddressFromID_MemberID:
  assumes "0 \<le> Unix (m_Created m)"
  shows "GetAddressFromID (MemberID m) = m_Address m"
proof -
  have "CHR ''-'' \<notin> set (dec (Unix (m_Created m)))"
    using dec_nonneg_chars [OF assms, of "CHR ''-''"] by (auto simp: is_digit_def)
  then have "rcut (CHR ''-'') (m_Address m @ CHR ''-'' # dec (Unix (m_Created m))) =
      Some (m_Address m, dec (Unix (m_Created m)))"
    by (rule rcut_last)
  then show ?thesis by (simp add: GetAddressFromID_def MemberID_def)
qed

theorem GetAddressFromID_MemberID_witness:
  "GetAddressFromID (MemberID (zeroMember\<lparr>m_Address := ''fa25-cs425-3701:8080'',
      m_Created := 63900000000 * 1000000000\<rparr>)) = ''fa25-cs425-3701:8080''"
  by (subst GetAddressFromID_MemberID) (simp_all add: Unix_def zeroMember_def)

text \<open>The gRPC address of a well-formed UDP address has the same host and a port 1000 higher.\<close>

lemma convertToGRPCAddress_ok:
  assumes "CHR '':'' \<notin> set host" and "0 \<le> port" and "port \<le> int_max"
  shows "convertToGRPCAddress (host @ '':'' @ dec port) = host @ '':'' @ dec (port + 1000)"
proof -
  have "CHR '':'' \<notin> set (dec port)"
    using dec_nonneg_chars [OF assms(2), of "CHR '':''"] by (auto simp: is_digit_def)
  then have "Split (host @ CHR '':'' # dec port) '':'' = [host, dec port]"
    using assms(1) by (intro Split_one_sep)
  moreover have "Atoi (dec port) = (port, True)"
    using assms(2,3) by (intro Atoi_dec) (auto simp: int_min_def)
  ultimately show ?thesis by (simp add: convertToGRPCAddress_def)
qed

text \<open>Rainstorm addresses: node port plus 2000, as \<open>net.SplitHostPort\<close> and \<open>Atoi\<close> compute it.\<close>

definition addPort2000 :: "string \<Rightarrow> string" where
  "addPort2000 nodeAddr =
     (let (host, portStr) = SplitHostPort0 nodeAddr; (port, _) = Atoi portStr
      in host @ '':'' @ dec (port + 2000))"

lemma addPort2000_ok:
  assumes "CHR '':'' \<notin> set h" "CHR ''['' \<notin> set h" "CHR '']'' \<notin> set h"
    and "0 \<le> port" "port \<le> int_max"
  shows "addPort2000 (h @ '':'' @ dec port) = h @ '':'' @ dec (port + 2000)"
proof -
  have d: "c \<in> set (dec port) \<Longrightarrow> is_digit c" for c using dec_nonneg_chars [OF assms(4)] .
  have "SplitHostPort (h @ '':'' @ dec port) = Some (h, dec port)"
    using assms(1-3) d [of "CHR '':''"] d [of "CHR ''[''"] d [of "CHR '']''"]
    by (intro SplitHostPort_plain) (auto simp: is_digit_def)
  moreover have "Atoi (dec port) = (port, True)"
    using assms(4,5) by (intro Atoi_dec) (auto simp: int_min_def)
  ultimately show ?thesis by (simp add: addPort2000_def SplitHostPort0_def)
qed

subsection \<open>Bandwidth counters\<close>

record BandwidthStats =
  bs_BytesSent :: "64 word"
  bs_BytesReceived :: "64 word"

definition AddSent :: "64 word \<Rightarrow> BandwidthStats \<Rightarrow> BandwidthStats" where
  "AddSent n bs = bs\<lparr>bs_BytesSent := bs_BytesSent bs + n\<rparr>"

definition AddReceived :: "64 word \<Rightarrow> BandwidthStats \<Rightarrow> BandwidthStats" where
  "AddReceived n bs = bs\<lparr>bs_BytesReceived := bs_BytesReceived bs + n\<rparr>"

definition GetAndReset :: "BandwidthStats \<Rightarrow> 64 word \<times> 64 word \<times> BandwidthStats" where
  "GetAndReset bs = (bs_BytesSent bs, bs_BytesReceived bs,
     bs\<lparr>bs_BytesSent := 0, bs_BytesReceived := 0\<rparr>)"

lemma fold_AddSent:
  "bs_BytesSent (fold AddSent ns bs) = bs_BytesSent bs + sum_list ns"
  by (induction ns arbitrary: bs) (simp_all add: AddSent_def algebra_simps)

text \<open>Between two resets the counter reports the sum of what was added, modulo \<open>2 ^ 64\<close>.\<close>

lemma GetAndReset_window:
  "fst (GetAndReset (fold AddSent ns (snd (snd (GetAndReset bs))))) = sum_list ns"
  by (simp add: GetAndReset_def fold_AddSent)

end
