(* ===== verification/KeyedTable.thy ===== *)
theory KeyedTable imports GoLib begin

text \<open>
  The interface shared by the tables of the program that hold one entry per key: the
  membership list (entries keyed by member ID) and the HyDFS metadata (entries keyed by file
  name). Callers only read through a lookup and write whole entries; the laws below are all
  they rely on. The theories of the two components interpret the locales.
\<close>

locale keyed_table =
  fixes key :: "'v \<Rightarrow> 'k"
    and invar :: "'t \<Rightarrow> bool"
    and lookup :: "'t \<Rightarrow> 'k \<Rightarrow> 'v option"
    and upd :: "'t \<Rightarrow> 'v \<Rightarrow> 't"
  assumes upd_inv: "invar t \<Longrightarrow> invar (upd t v)"
    and upd_lookup: "invar t \<Longrightarrow> lookup (upd t v) = (lookup t)(key v \<mapsto> v)"
begin

lemma upd_frame: "invar t \<Longrightarrow> k \<noteq> key v \<Longrightarrow> lookup (upd t v) k = lookup t k"
  by (simp add: upd_lookup)

lemma upd_same: "invar t \<Longrightarrow> lookup (upd t v) (key v) = Some v"
  by (simp add: upd_lookup)

lemma foldl_upd_inv: "invar t \<Longrightarrow> invar (foldl upd t vs)"
  by (induction vs arbitrary: t) (auto intro: upd_inv)

text \<open>A batch of writes leaves each key at its last written entry.\<close>

lemma foldl_upd_lookup:
  "invar t \<Longrightarrow> lookup (foldl upd t vs) = lookup t ++ map_of (rev (map (\<lambda>v. (key v, v)) vs))"
proof (induction vs arbitrary: t)
  case (Cons v vs)
  then have "lookup (foldl upd t (v # vs)) =
      (lookup t)(key v \<mapsto> v) ++ map_of (rev (map (\<lambda>v. (key v, v)) vs))"
    by (simp add: upd_inv upd_lookup fun_upd_def)
  then show ?case by simp
qed simp

text \<open>Writes to different keys commute, up to what a reader can see.\<close>

lemma upd_commute:
  "invar t \<Longrightarrow> key v \<noteq> key w \<Longrightarrow> lookup (upd (upd t v) w) = lookup (upd (upd t w) v)"
  by (simp add: upd_inv upd_lookup fun_upd_twist)

lemma upd_overwrite:
  "invar t \<Longrightarrow> key v = key w \<Longrightarrow> lookup (upd (upd t v) w) = lookup (upd t w)"
  by (simp add: upd_inv upd_lookup)

end

locale keyed_table_del = keyed_table key invar lookup upd
  for key :: "'v \<Rightarrow> 'k" and invar :: "'t \<Rightarrow> bool"
    and lookup :: "'t \<Rightarrow> 'k \<Rightarrow> 'v option" and upd :: "'t \<Rightarrow> 'v \<Rightarrow> 't" +
  fixes del :: "'t \<Rightarrow> 'k \<Rightarrow> 't"
  assumes del_inv: "invar t \<Longrightarrow> invar (del t k)"
    and del_lookup: "invar t \<Longrightarrow> lookup (del t k) = (lookup t)(k := None)"
begin

lemma upd_del: "invar t \<Longrightarrow> lookup (del (upd t v) (key v)) = (lookup t)(key v := None)"
  by (simp add: upd_inv upd_lookup del_lookup)

lemma foldl_del_inv: "invar t \<Longrightarrow> invar (foldl del t ks)"
  by (induction ks arbitrary: t) (auto intro: del_inv)

text \<open>A sweep of deletions removes exactly the swept keys.\<close>

lemma foldl_del_lookup:
  "invar t \<Longrightarrow> lookup (foldl del t ks) k = (if k \<in> set ks then None else lookup t k)"
  by (induction ks arbitrary: t) (auto simp: del_inv del_lookup)

end

end
