(* ===== verification/MembershipList.thy ===== *)
theory MembershipList imports Member KeyedTable begin

text \<open>
  \<open>membership_list.go\<close>: the list of members kept sorted by ring position. The model of the
  list is the slice \<open>nodes\<close>; its mutex makes every operation atomic. The time-driven
  \<open>MarkSuspectIfNeeded\<close> also acts on the server and is in the theory \<open>FailureDetector\<close>. The
  printing operations are omitted.
\<close>

type_synonym MembershipList = "Member list"

definition NewMembershipList :: MembershipList where
  "NewMembershipList = []"

definition sortNodes :: "MembershipList \<Rightarrow> MembershipList" where
  "sortNodes nodes =
     (if length nodes \<le> 1 then nodes else sort_slice (\<lambda>a b. m_Hash a < m_Hash b) nodes)"

text \<open>The search loop shared by the operations: the first member with an ID.\<close>

definition member_index :: "string \<Rightarrow> MembershipList \<Rightarrow> nat option" where
  "member_index nodeID nodes = find_index (\<lambda>m. MemberID m = nodeID) nodes"

definition AddOrUpdate :: "MembershipList \<Rightarrow> Member \<Rightarrow> MembershipList" where
  "AddOrUpdate nodes member =
     (case member_index (MemberID member) nodes of
        Some i \<Rightarrow> sortNodes (nodes[i := member])
      | None \<Rightarrow> sortNodes (nodes @ [member]))"

definition RemoveMember :: "MembershipList \<Rightarrow> string \<Rightarrow> MembershipList" where
  "RemoveMember nodes nodeID =
     (case member_index nodeID nodes of Some i \<Rightarrow> remove_nth i nodes | None \<Rightarrow> nodes)"

definition Snapshot :: "MembershipList \<Rightarrow> (string \<rightharpoonup> Member)" where
  "Snapshot nodes = fold (\<lambda>m cp. cp(MemberID m \<mapsto> m)) nodes Map.empty"

definition GetAll :: "MembershipList \<Rightarrow> Member list" where
  "GetAll nodes = nodes"

definition GetSuspectedNodes :: "MembershipList \<Rightarrow> Member list" where
  "GetSuspectedNodes nodes = filter (\<lambda>m. m_Status m = StatusSuspect) nodes"

definition GetAliveMembers :: "string \<Rightarrow> MembershipList \<Rightarrow> Member list" where
  "GetAliveMembers excludeAddress nodes =
     filter (\<lambda>m. IsAlive m \<and> m_Address m \<noteq> excludeAddress) nodes"

subsection \<open>Invariant\<close>

text \<open>Sorted by ring position, at most one entry per member ID.\<close>

definition ml_inv :: "MembershipList \<Rightarrow> bool" where
  "ml_inv nodes \<longleftrightarrow> sorted (map m_Hash nodes) \<and> distinct (map MemberID nodes)"

lemma ml_inv_New [simp]: "ml_inv NewMembershipList"
  by (simp add: ml_inv_def NewMembershipList_def)

interpretation nodes_sort: slice_sort m_Hash sortNodes
proof
  fix xs
  show "mset (sortNodes xs) = mset xs"
    by (simp add: sortNodes_def mset_sort_slice)
  show "sorted (map m_Hash (sortNodes xs))"
  proof (cases "length xs \<le> 1")
    case True
    then have "length (map m_Hash xs) \<le> 1" by simp
    with True show ?thesis by (simp add: sortNodes_def sorted01)
  next
    case False
    then show ?thesis by (simp add: sortNodes_def sorted_sort_slice)
  qed
qed

lemma ml_inv_sortNodes: "distinct (map MemberID xs) \<Longrightarrow> ml_inv (sortNodes xs)"
  by (simp add: ml_inv_def nodes_sort.srt_sorted nodes_sort.srt_distinct)

subsection \<open>Lookup\<close>

lemma Snapshot_Nil [simp]: "Snapshot [] = Map.empty"
  by (simp add: Snapshot_def)

lemma Snapshot_snoc [simp]: "Snapshot (xs @ [x]) = (Snapshot xs)(MemberID x \<mapsto> x)"
  by (simp add: Snapshot_def)

lemma Snapshot_Some:
  "distinct (map MemberID xs) \<Longrightarrow> Snapshot xs k = Some m \<longleftrightarrow> m \<in> set xs \<and> MemberID m = k"
proof (induction xs rule: rev_induct)
  case (snoc x xs)
  then show ?case by (cases "k = MemberID x") (auto simp: notin_image)
qed simp

lemma Snapshot_map_of:
  "distinct (map MemberID xs) \<Longrightarrow> Snapshot xs = map_of (map (\<lambda>m. (MemberID m, m)) xs)"
  by (rule ext, rule option_eqI)
    (auto simp: Snapshot_Some dest: map_of_key_Some intro: map_of_distinct_set)

lemma Snapshot_None:
  "distinct (map MemberID xs) \<Longrightarrow> Snapshot xs k = None \<longleftrightarrow> k \<notin> MemberID ` set xs"
  by (simp add: Snapshot_map_of map_of_key_None)

lemma Snapshot_sortNodes:
  "distinct (map MemberID xs) \<Longrightarrow> Snapshot (sortNodes xs) = Snapshot xs"
  by (simp add: Snapshot_map_of nodes_sort.srt_distinct nodes_sort.srt_lookup)

lemma member_index_Some:
  assumes "member_index k xs = Some i"
  shows "i < length xs" and "MemberID (xs ! i) = k"
  using find_index_Some [of _ xs i] assms by (auto simp: member_index_def)

lemma member_index_None: "member_index k xs = None \<longleftrightarrow> k \<notin> MemberID ` set xs"
  by (auto simp: member_index_def find_index_None)

lemma member_index_middle:
  "MemberID m = k \<Longrightarrow> k \<notin> MemberID ` set pre \<Longrightarrow> member_index k (pre @ m # post) = Some (length pre)"
  unfolding member_index_def by (induction pre) auto

lemma ids_update:
  assumes "member_index (MemberID m) xs = Some i"
  shows "map MemberID (xs[i := m]) = map MemberID xs"
proof -
  have "MemberID m = map MemberID xs ! i"
    using member_index_Some [OF assms] by simp
  then show ?thesis by (simp add: map_update)
qed

lemma Snapshot_update:
  assumes d: "distinct (map MemberID xs)" and i: "member_index (MemberID m) xs = Some i"
  shows "Snapshot (xs[i := m]) = (Snapshot xs)(MemberID m \<mapsto> m)"
proof
  fix k
  note il = member_index_Some(1) [OF i] and iid = member_index_Some(2) [OF i]
  have d': "distinct (map MemberID (xs[i := m]))" using d by (simp add: ids_update [OF i])
  have other: "x \<in> set (xs[i := m]) \<longleftrightarrow> x \<in> set xs" if "MemberID x \<noteq> MemberID m" for x
    using that il iid by (metis in_set_conv_nth length_list_update nth_list_update)
  have m: "m \<in> set (xs[i := m])" using il by (rule set_update_memI)
  show "Snapshot (xs[i := m]) k = ((Snapshot xs)(MemberID m \<mapsto> m)) k"
  proof (cases "k = MemberID m")
    case True
    with m show ?thesis by (simp add: Snapshot_Some [OF d'])
  next
    case False
    have "Snapshot (xs[i := m]) k = Some x \<longleftrightarrow> Snapshot xs k = Some x" for x
      using False other [of x] by (auto simp: Snapshot_Some [OF d'] Snapshot_Some [OF d])
    then have "Snapshot (xs[i := m]) k = Snapshot xs k" by (rule option_eqI)
    with False show ?thesis by simp
  qed
qed

lemma AddOrUpdate_inv: "ml_inv xs \<Longrightarrow> ml_inv (AddOrUpdate xs m)"
  unfolding AddOrUpdate_def
  by (auto simp: ml_inv_def ids_update member_index_None split: option.splits
      intro!: ml_inv_sortNodes [unfolded ml_inv_def])

lemma AddOrUpdate_Snapshot:
  assumes "ml_inv xs"
  shows "Snapshot (AddOrUpdate xs m) = (Snapshot xs)(MemberID m \<mapsto> m)"
proof (cases "member_index (MemberID m) xs")
  case None
  then have new: "MemberID m \<notin> MemberID ` set xs" by (simp add: member_index_None)
  with assms have d: "distinct (map MemberID (xs @ [m]))" by (auto simp: ml_inv_def)
  have "Snapshot (xs @ [m]) = (Snapshot xs)(MemberID m \<mapsto> m)" by (simp add: Snapshot_def)
  with None d show ?thesis by (simp add: AddOrUpdate_def Snapshot_sortNodes)
next
  case (Some i)
  with assms show ?thesis
    by (simp add: AddOrUpdate_def Snapshot_sortNodes ml_inv_def ids_update Snapshot_update)
qed

lemma RemoveMember_inv: "ml_inv xs \<Longrightarrow> ml_inv (RemoveMember xs k)"
  by (auto simp: RemoveMember_def ml_inv_def map_remove_nth distinct_remove_nth
      sorted_wrt_remove_nth split: option.splits)

lemma RemoveMember_set:
  assumes "distinct (map MemberID xs)"
  shows "set (RemoveMember xs k) = {m \<in> set xs. MemberID m \<noteq> k}"
proof (cases "member_index k xs")
  case None
  then have "k \<notin> MemberID ` set xs" by (simp add: member_index_None)
  with None show ?thesis by (auto simp: RemoveMember_def)
next
  case (Some i)
  note il = member_index_Some(1) [OF Some] and iid = member_index_Some(2) [OF Some]
  have "xs = take i xs @ xs ! i # drop (Suc i) xs" using il by (rule id_take_nth_drop)
  then obtain a b where ab: "xs = a @ xs ! i # b" "remove_nth i xs = a @ b"
    by (simp add: remove_nth_def)
  have "distinct (map MemberID (a @ xs ! i # b))" using assms ab(1) by simp
  then have "\<forall>m \<in> set (a @ b). MemberID m \<noteq> k" using iid
    by (auto simp: notin_image)
  moreover have "set xs = insert (xs ! i) (set (a @ b))" by (subst ab(1)) auto
  ultimately have "set (a @ b) = {m \<in> set xs. MemberID m \<noteq> k}" using iid by (auto simp del: set_append)
  then show ?thesis using Some ab(2) by (simp add: RemoveMember_def)
qed

lemma RemoveMember_Snapshot:
  assumes "ml_inv xs"
  shows "Snapshot (RemoveMember xs k) = (Snapshot xs)(k := None)"
proof
  fix j
  have d: "distinct (map MemberID xs)" and d': "distinct (map MemberID (RemoveMember xs k))"
    using assms RemoveMember_inv [OF assms] by (auto simp: ml_inv_def)
  show "Snapshot (RemoveMember xs k) j = ((Snapshot xs)(k := None)) j"
    by (rule option_eqI)
      (auto simp: Snapshot_Some [OF d'] Snapshot_Some [OF d] RemoveMember_set [OF d])
qed

text \<open>The list provides the interface its clients rely on.\<close>

interpretation members: keyed_table_del MemberID ml_inv Snapshot AddOrUpdate RemoveMember
  by unfold_locales
    (simp_all add: AddOrUpdate_inv AddOrUpdate_Snapshot RemoveMember_inv RemoveMember_Snapshot)

lemma Snapshot_dom: "Snapshot xs k = Some m \<Longrightarrow> ml_inv xs \<Longrightarrow> m \<in> set xs \<and> MemberID m = k"
  by (simp add: Snapshot_Some ml_inv_def)

text \<open>
  Adding or updating a member keeps the list sorted by ring position with one entry per
  ID, whatever the member, and changes what readers see for that member's ID only: the snapshot
  afterwards is the one before with this entry overwritten. Removing an ID erases exactly it.
\<close>

theorem membership_list_is_a_table:
  assumes "ml_inv xs"
  shows "ml_inv (AddOrUpdate xs m) \<and>
    Snapshot (AddOrUpdate xs m) = (Snapshot xs)(MemberID m \<mapsto> m) \<and>
    ml_inv (RemoveMember xs k) \<and>
    Snapshot (RemoveMember xs k) = (Snapshot xs)(k := None)"
  using assms members.upd_inv members.upd_lookup members.del_inv members.del_lookup by auto

theorem membership_list_is_a_table_witness:
  "Snapshot (AddOrUpdate [zeroMember] (zeroMember\<lparr>m_Heartbeat := 7\<rparr>)) =
    (Snapshot [zeroMember])(MemberID zeroMember \<mapsto> zeroMember\<lparr>m_Heartbeat := 7\<rparr>)"
  using membership_list_is_a_table [of "[zeroMember]" "zeroMember\<lparr>m_Heartbeat := 7\<rparr>"]
  by (simp add: ml_inv_def)

text \<open>
  After any sequence of additions the whole cluster view is determined by the last entry
  written for each ID, and the list is still sorted without duplicates.
\<close>

theorem membership_list_after_updates:
  "ml_inv (foldl AddOrUpdate NewMembershipList ms) \<and>
   Snapshot (foldl AddOrUpdate NewMembershipList ms) =
     map_of (rev (map (\<lambda>m. (MemberID m, m)) ms))"
  using members.foldl_upd_inv [OF ml_inv_New] members.foldl_upd_lookup [OF ml_inv_New]
  by (simp add: Snapshot_def NewMembershipList_def)

end
