(* ===== verification/Topology.thy ===== *)
theory Topology imports MembershipList begin

text \<open>
  The streaming job: \<open>task.go\<close>, and of \<open>leader.go\<close> the job specification, the topology and its
  construction, and the placement of tasks on nodes. Tasks are shared by pointer inside one
  topology; here the topology's map holds them by value and the loops that fill their fields
  rewrite the map. A loop over a Go map that treats its entries independently is a pointwise
  function of the map; where the order matters (the round-robin placement) it is the argument
  \<open>order\<close>.
\<close>

datatype TaskStatus = TaskRunning | TaskFailed | TaskStopped

record Task =
  tk_TaskID :: string
  tk_Stage :: int
  tk_NodeID :: string
  tk_Address :: string
  tk_InputTasks :: "string \<rightharpoonup> string"
  tk_OutputTargets :: "string \<rightharpoonup> string"
  tk_ExactlyOnce :: bool
  tk_AutoscaleMode :: bool

definition NewTask :: "string \<Rightarrow> int \<Rightarrow> Task" where
  "NewTask taskID stage =
     \<lparr>tk_TaskID = taskID, tk_Stage = stage, tk_NodeID = [], tk_Address = [],
      tk_InputTasks = Map.empty, tk_OutputTargets = Map.empty,
      tk_ExactlyOnce = False, tk_AutoscaleMode = False\<rparr>"

definition AddInputTask :: "string \<Rightarrow> string \<Rightarrow> Task \<Rightarrow> Task" where
  "AddInputTask taskID address t = t\<lparr>tk_InputTasks := (tk_InputTasks t)(taskID \<mapsto> address)\<rparr>"

definition AddOutputTarget :: "string \<Rightarrow> string \<Rightarrow> Task \<Rightarrow> Task" where
  "AddOutputTarget taskID address t = t\<lparr>tk_OutputTargets := (tk_OutputTargets t)(taskID \<mapsto> address)\<rparr>"

record StageOp =
  so_Exe :: string
  so_Args :: "string list"

record JobSpec =
  js_NStages :: int
  js_TasksPerStage :: int
  js_StageOps :: "StageOp list"
  js_SourceDir :: string
  js_DestFile :: string
  js_SourceAddress :: string
  js_ExactlyOnce :: bool
  js_Autoscale :: bool
  js_InputRate :: int
  js_LW :: int
  js_HW :: int

record Topology =
  tp_JobID :: string
  tp_Tasks :: "string \<rightharpoonup> Task"
  tp_Stages :: "int list"

definition NewTopology :: "string \<Rightarrow> Topology" where
  "NewTopology jobID = \<lparr>tp_JobID = jobID, tp_Tasks = Map.empty, tp_Stages = []\<rparr>"

definition Topology_AddTask :: "Task \<Rightarrow> Topology \<Rightarrow> Topology" where
  "Topology_AddTask task t = t\<lparr>tp_Tasks := (tp_Tasks t)(tk_TaskID task \<mapsto> task)\<rparr>"

definition Topology_GetTask :: "Topology \<Rightarrow> string \<Rightarrow> Task option" where
  "Topology_GetTask t taskID = tp_Tasks t taskID"

subsection \<open>CreateTopology\<close>

definition task_name :: "int \<Rightarrow> int \<Rightarrow> int \<Rightarrow> string" where
  "task_name stage idx timestamp = ''task-'' @ dec stage @ ''-'' @ dec idx @ ''-'' @ dec timestamp"

definition stage_task :: "JobSpec \<Rightarrow> int \<Rightarrow> int \<Rightarrow> int \<Rightarrow> Task" where
  "stage_task job timestamp stage taskIdx =
     (let task = (NewTask (task_name stage taskIdx timestamp) stage)
                   \<lparr>tk_ExactlyOnce := js_ExactlyOnce job, tk_AutoscaleMode := js_Autoscale job\<rparr>;
          task =
            (if stage = 1 then
               (if js_SourceAddress job \<noteq> [] then AddInputTask ''leader'' (js_SourceAddress job) task else task)
             else if stage > 1 then
               fold (\<lambda>i. AddInputTask (task_name (stage - 1) i timestamp) []) [0..js_TasksPerStage job - 1] task
             else task);
          task =
            (if stage < js_NStages job then
               fold (\<lambda>i. AddOutputTarget (task_name (stage + 1) i timestamp) []) [0..js_TasksPerStage job - 1] task
             else task)
      in task)"

definition CreateTopology :: "MembershipList \<Rightarrow> string \<Rightarrow> time \<Rightarrow> JobSpec \<Rightarrow> Topology go" where
  "CreateTopology members self now job =
     (let topology = NewTopology (''job-'' @ dec (Unix now))
      in if GetAliveMembers self members = [] then Inl (GoError ''no alive members available'')
         else Inr (fold (\<lambda>stage topology.
             fold (\<lambda>taskIdx. Topology_AddTask (stage_task job (Unix now) stage taskIdx))
               [0..js_TasksPerStage job - 1]
               (topology\<lparr>tp_Stages := tp_Stages topology @ [stage]\<rparr>))
             [1..js_NStages job] topology))"

subsection \<open>computeTaskAssignments\<close>

text \<open>The placement loop over the task IDs: assignments made and the running node index.\<close>

definition assign_step ::
    "Member list \<Rightarrow> string \<Rightarrow> (string \<rightharpoonup> string) \<times> nat \<Rightarrow> (string \<rightharpoonup> string) \<times> nat" where
  "assign_step aliveMembers taskID st =
     (case st of (assignments, nodeIndex) \<Rightarrow>
        (assignments(taskID \<mapsto> m_Address (aliveMembers ! (nodeIndex mod length aliveMembers))),
         nodeIndex + 1))"

definition set_address :: "(string \<rightharpoonup> string) \<Rightarrow> string \<Rightarrow> Task \<Rightarrow> Task" where
  "set_address assignments taskID task =
     (case assignments taskID of
        None \<Rightarrow> task
      | Some nodeAddr \<Rightarrow> task\<lparr>tk_NodeID := nodeAddr, tk_Address := addPort2000 nodeAddr\<rparr>)"

definition fill_addresses ::
    "(string \<rightharpoonup> string) \<Rightarrow> (string \<rightharpoonup> Task) \<Rightarrow> (string \<rightharpoonup> string) \<Rightarrow> (string \<rightharpoonup> string)" where
  "fill_addresses assignments tasks links =
     (\<lambda>other. case links other of
        None \<Rightarrow> None
      | Some a \<Rightarrow>
          if assignments other = None then Some a
          else (case tasks other of None \<Rightarrow> Some a | Some t \<Rightarrow> Some (tk_Address t)))"

definition computeTaskAssignments ::
    "MembershipList \<Rightarrow> string \<Rightarrow> string list \<Rightarrow> Topology \<Rightarrow> ((string \<rightharpoonup> string) \<times> Topology \<times> nat) go" where
  "computeTaskAssignments members self order topology =
     (let aliveMembers = GetAliveMembers self members
      in if aliveMembers = [] then Inl (GoError ''no alive members available'')
         else
           let (assignments, nodeIndex) = fold (assign_step aliveMembers) order (Map.empty, 0);
               tasks = (\<lambda>i. map_option (set_address assignments i) (tp_Tasks topology i));
               tasks = (\<lambda>i. map_option (\<lambda>t. t\<lparr>
                   tk_InputTasks := fill_addresses assignments tasks (tk_InputTasks t),
                   tk_OutputTargets := fill_addresses assignments tasks (tk_OutputTargets t)\<rparr>) (tasks i))
           in Inr (assignments, topology\<lparr>tp_Tasks := tasks\<rparr>, nodeIndex mod length aliveMembers))"

subsection \<open>The shape of a topology\<close>

lemma cut_unique:
  fixes c :: char
  assumes "c \<notin> set a" and "c \<notin> set a'" and "a @ c # b = a' @ c # b'"
  shows "a = a' \<and> b = b'"
proof -
  have "Some (a, b) = Some (a', b')"
    using cut_at_char_append [OF assms(1), of b] cut_at_char_append [OF assms(2), of b'] assms(3) by metis
  then show ?thesis by simp
qed

lemma dec_no_dash: "0 \<le> i \<Longrightarrow> CHR ''-'' \<notin> set (dec i)"
  using dec_nonneg_chars [of i "CHR ''-''"] by (auto simp: is_digit_def)

lemma task_name_inj:
  assumes "0 \<le> s" "0 \<le> s'" "0 \<le> i" "0 \<le> i'"
  shows "task_name s i t = task_name s' i' t \<longleftrightarrow> s = s' \<and> i = i'"
proof
  assume "task_name s i t = task_name s' i' t"
  then have "dec s @ CHR ''-'' # (dec i @ CHR ''-'' # dec t) = dec s' @ CHR ''-'' # (dec i' @ CHR ''-'' # dec t)"
    by (simp add: task_name_def)
  from cut_unique [OF dec_no_dash [OF assms(1)] dec_no_dash [OF assms(2)] this]
  have "dec s = dec s'" "dec i @ CHR ''-'' # dec t = dec i' @ CHR ''-'' # dec t" by auto
  then show "s = s' \<and> i = i'" using dec_inj by auto
qed simp

lemma fold_AddInputTask:
  "fold (\<lambda>i. AddInputTask (f i) a) xs t = t\<lparr>tk_InputTasks := (\<lambda>k. if k \<in> f ` set xs then Some a else tk_InputTasks t k)\<rparr>"
  by (induction xs arbitrary: t) (auto simp: AddInputTask_def fun_eq_iff)

lemma fold_AddOutputTarget:
  "fold (\<lambda>i. AddOutputTarget (f i) a) xs t = t\<lparr>tk_OutputTargets := (\<lambda>k. if k \<in> f ` set xs then Some a else tk_OutputTargets t k)\<rparr>"
  by (induction xs arbitrary: t) (auto simp: AddOutputTarget_def fun_eq_iff)

lemma stage_task_fields [simp]:
  "tk_TaskID (stage_task job ts s i) = task_name s i ts"
  "tk_Stage (stage_task job ts s i) = s"
  by (auto simp: stage_task_def NewTask_def Let_def fold_AddInputTask fold_AddOutputTarget AddInputTask_def)

text \<open>The names of the tasks of a stage.\<close>

definition stage_names :: "JobSpec \<Rightarrow> int \<Rightarrow> int \<Rightarrow> string set" where
  "stage_names job ts s = (if 1 \<le> s \<and> s \<le> js_NStages job then (\<lambda>i. task_name s i ts) ` {0..<js_TasksPerStage job} else {})"

lemma stage_task_links:
  assumes "1 \<le> s" and "s \<le> js_NStages job"
  shows "dom (tk_OutputTargets (stage_task job ts s i)) = stage_names job ts (s + 1)"
    and "1 < s \<Longrightarrow> dom (tk_InputTasks (stage_task job ts s i)) = stage_names job ts (s - 1)"
    and "s = 1 \<Longrightarrow> js_SourceAddress job \<noteq> [] \<Longrightarrow>
      tk_InputTasks (stage_task job ts s i) = [''leader'' \<mapsto> js_SourceAddress job]"
proof -
  have set: "set [0..js_TasksPerStage job - 1] = {0..<js_TasksPerStage job}" by auto
  show "dom (tk_OutputTargets (stage_task job ts s i)) = stage_names job ts (s + 1)"
    using assms by (auto simp: stage_task_def NewTask_def Let_def fold_AddInputTask fold_AddOutputTarget
        AddInputTask_def stage_names_def set dom_def)
  show "1 < s \<Longrightarrow> dom (tk_InputTasks (stage_task job ts s i)) = stage_names job ts (s - 1)"
    using assms by (auto simp: stage_task_def NewTask_def Let_def fold_AddInputTask fold_AddOutputTarget
        stage_names_def set dom_def)
  show "s = 1 \<Longrightarrow> js_SourceAddress job \<noteq> [] \<Longrightarrow>
      tk_InputTasks (stage_task job ts s i) = [''leader'' \<mapsto> js_SourceAddress job]"
    by (auto simp: stage_task_def NewTask_def Let_def fold_AddOutputTarget AddInputTask_def)
qed

definition put :: "('a \<Rightarrow> string) \<Rightarrow> ('a \<Rightarrow> 'b) \<Rightarrow> 'a \<Rightarrow> (string \<rightharpoonup> 'b) \<Rightarrow> (string \<rightharpoonup> 'b)" where
  "put f g x m = m(f x \<mapsto> g x)"

lemma put_apply: "put f g x m k = (if k = f x then Some (g x) else m k)"
  by (simp add: put_def)

lemma fold_put_lookup:
  assumes "inj_on f (set xs)"
  shows "fold (put f g) xs m k = Some t \<longleftrightarrow>
    (\<exists>x \<in> set xs. f x = k \<and> g x = t) \<or> ((\<forall>x \<in> set xs. f x \<noteq> k) \<and> m k = Some t)"
  using assms
proof (induction xs arbitrary: m)
  case (Cons x xs)
  have i: "inj_on f (set xs)" using Cons.prems by (auto simp: inj_on_def)
  have "f x' = f x \<Longrightarrow> x' \<in> set xs \<Longrightarrow> x' = x" for x' using Cons.prems by (auto simp: inj_on_def)
  then show ?case
    by (simp only: fold_Cons comp_apply Cons.IH [OF i] list.set(2)) (auto simp: put_apply)
qed simp

definition all_tasks :: "JobSpec \<Rightarrow> (int \<times> int) list" where
  "all_tasks job = concat (map (\<lambda>s. map (\<lambda>i. (s, i)) [0..js_TasksPerStage job - 1]) [1..js_NStages job])"

lemma all_tasks_set:
  "set (all_tasks job) = {(s, i). 1 \<le> s \<and> s \<le> js_NStages job \<and> 0 \<le> i \<and> i < js_TasksPerStage job}"
  by (auto simp: all_tasks_def)

lemma fold_Topology_AddTask:
  "fold (\<lambda>i. Topology_AddTask (f i)) xs topo =
    topo\<lparr>tp_Tasks := fold (put (\<lambda>i. tk_TaskID (f i)) f) xs (tp_Tasks topo)\<rparr>"
  by (induction xs arbitrary: topo) (simp_all add: Topology_AddTask_def put_def)

lemma fold_put_map: "fold (put f g) (map h xs) = fold (put (\<lambda>x. f (h x)) (\<lambda>x. g (h x))) xs"
proof
  fix m show "fold (put f g) (map h xs) m = fold (put (\<lambda>x. f (h x)) (\<lambda>x. g (h x))) xs m"
    by (induction xs arbitrary: m) (simp_all add: put_def)
qed

lemma fold_stages:
  "tp_Tasks (fold (\<lambda>s topo. fold (\<lambda>i. Topology_AddTask (f s i)) js (topo\<lparr>tp_Stages := tp_Stages topo @ [s]\<rparr>)) ss topo) =
    fold (put (\<lambda>x. tk_TaskID (f (fst x) (snd x))) (\<lambda>x. f (fst x) (snd x)))
      (concat (map (\<lambda>s. map (\<lambda>i. (s, i)) js) ss)) (tp_Tasks topo)"
  by (induction ss arbitrary: topo) (simp_all add: fold_Topology_AddTask fold_put_map)

lemma CreateTopology_tasks:
  assumes "CreateTopology members self now job = Inr topo"
  shows "tp_Tasks topo k = Some t \<longleftrightarrow>
    (\<exists>s i. 1 \<le> s \<and> s \<le> js_NStages job \<and> 0 \<le> i \<and> i < js_TasksPerStage job \<and>
       k = task_name s i (Unix now) \<and> t = stage_task job (Unix now) s i)"
proof -
  let ?f = "\<lambda>x. task_name (fst x) (snd x) (Unix now)" and ?g = "\<lambda>x. stage_task job (Unix now) (fst x) (snd x)"
  have inj: "inj_on ?f (set (all_tasks job))"
    by (auto simp: all_tasks_set inj_on_def task_name_inj)
  have "tp_Tasks topo = fold (put ?f ?g) (all_tasks job) Map.empty"
    using assms by (auto simp: CreateTopology_def NewTopology_def fold_stages all_tasks_def split: if_splits)
  then show ?thesis by (auto simp: fold_put_lookup [OF inj] all_tasks_set)
qed

lemma CreateTopology_task_in:
  assumes "CreateTopology members self now job = Inr topo"
    and "1 \<le> s" "s \<le> js_NStages job" "0 \<le> i" "i < js_TasksPerStage job"
  shows "tp_Tasks topo (task_name s i (Unix now)) = Some (stage_task job (Unix now) s i)"
  unfolding CreateTopology_tasks [OF assms(1)] using assms(2-5) by blast

text \<open>
  C29: a created topology is wired symmetrically: it holds exactly the tasks of its stages,
  every task sends to exactly the tasks of the next stage and expects ACKs to go to exactly the tasks of the
  previous one, and a task is an output target of another if and only if that one is an input task of it.
\<close>

theorem topology_is_wired:
  assumes "CreateTopology members self now job = Inr topo"
    and "tp_Tasks topo a = Some ta" and "tp_Tasks topo b = Some tb"
  shows "(b \<in> dom (tk_OutputTargets ta) \<longleftrightarrow> tk_Stage tb = tk_Stage ta + 1) \<and>
    (a \<in> dom (tk_InputTasks tb) \<longleftrightarrow> tk_Stage tb = tk_Stage ta + 1) \<and>
    tk_TaskID ta = a \<and> dom (tk_OutputTargets ta) \<subseteq> dom (tp_Tasks topo)"
proof -
  from assms obtain s i where a: "1 \<le> s" "s \<le> js_NStages job" "0 \<le> i" "i < js_TasksPerStage job"
    "a = task_name s i (Unix now)" "ta = stage_task job (Unix now) s i"
    by (auto simp: CreateTopology_tasks)
  from assms obtain s' i' where b: "1 \<le> s'" "s' \<le> js_NStages job" "0 \<le> i'" "i' < js_TasksPerStage job"
    "b = task_name s' i' (Unix now)" "tb = stage_task job (Unix now) s' i'"
    by (auto simp: CreateTopology_tasks)
  have out: "dom (tk_OutputTargets ta) = stage_names job (Unix now) (s + 1)"
    using stage_task_links(1) [OF a(1,2)] a(6) by simp
  have member: "task_name x y (Unix now) \<in> stage_names job (Unix now) z \<longleftrightarrow> x = z"
    if "1 \<le> x" "x \<le> js_NStages job" "0 \<le> y" "y < js_TasksPerStage job" for x y z
    using that by (auto simp: stage_names_def task_name_inj)
  have "a \<in> dom (tk_InputTasks tb) \<longleftrightarrow> s' = s + 1"
  proof (cases "s' = 1")
    case True
    have "dom (tk_InputTasks tb) \<subseteq> {''leader''}"
      unfolding b(6) True by (auto simp: stage_task_def NewTask_def Let_def fold_AddOutputTarget AddInputTask_def
          split: if_splits)
    then have "a \<notin> dom (tk_InputTasks tb)" using a(5) by (auto simp: task_name_def)
    with True a(1) show ?thesis by simp
  next
    case False
    then have "dom (tk_InputTasks tb) = stage_names job (Unix now) (s' - 1)"
      using stage_task_links(2) [OF b(1,2)] b(1,6) by simp
    then show ?thesis using member [OF a(1-4), of "s' - 1"] a(5) by auto
  qed
  moreover have "dom (tk_OutputTargets ta) \<subseteq> dom (tp_Tasks topo)"
  proof
    fix x
    assume "x \<in> dom (tk_OutputTargets ta)"
    then obtain j where "s + 1 \<le> js_NStages job" "0 \<le> j" "j < js_TasksPerStage job"
      "x = task_name (s + 1) j (Unix now)"
      unfolding out by (auto simp: stage_names_def split: if_splits)
    then have "tp_Tasks topo x = Some (stage_task job (Unix now) (s + 1) j)"
      unfolding CreateTopology_tasks [OF assms(1)] using a(1) by (intro exI conjI refl) auto
    then show "x \<in> dom (tp_Tasks topo)" by blast
  qed
  ultimately show ?thesis using member [OF b(1-4), of "s + 1"] a(5,6) b(5,6) out by auto
qed

definition demoMembers :: MembershipList where
  "demoMembers = [zeroMember\<lparr>m_Address := ''b:80'', m_Status := StatusAlive, m_Hash := 1\<rparr>,
     zeroMember\<lparr>m_Address := ''c:80'', m_Status := StatusAlive, m_Hash := 2\<rparr>]"

definition demoJob :: JobSpec where
  "demoJob = \<lparr>js_NStages = 2, js_TasksPerStage = 2, js_StageOps = [], js_SourceDir = ''d'', js_DestFile = ''o'',
     js_SourceAddress = ''a:82'', js_ExactlyOnce = True, js_Autoscale = False, js_InputRate = 10,
     js_LW = 1, js_HW = 5\<rparr>"

lemma demo_created:
  obtains topo where "CreateTopology demoMembers ''a:80'' 62135596800000000000 demoJob = Inr topo"
  by (simp add: CreateTopology_def demoMembers_def GetAliveMembers_def IsAlive_def)

theorem topology_is_wired_witness:
  "\<exists>topo ta. CreateTopology demoMembers ''a:80'' 62135596800000000000 demoJob = Inr topo \<and>
    tp_Tasks topo ''task-1-0-0'' = Some ta \<and> ''task-2-1-0'' \<in> dom (tk_OutputTargets ta)"
proof -
  obtain topo where c: "CreateTopology demoMembers ''a:80'' 62135596800000000000 demoJob = Inr topo"
    by (rule demo_created)
  have n: "task_name 1 0 0 = ''task-1-0-0''" "task_name 2 1 0 = ''task-2-1-0''" by code_simp+
  have u: "Unix 62135596800000000000 = 0" by (simp add: Unix_def)
  have a: "tp_Tasks topo ''task-1-0-0'' = Some (stage_task demoJob 0 1 0)"
    using CreateTopology_task_in [OF c, of 1 0] unfolding u n by (simp add: demoJob_def)
  have b: "tp_Tasks topo ''task-2-1-0'' = Some (stage_task demoJob 0 2 1)"
    using CreateTopology_task_in [OF c, of 2 1] unfolding u n by (simp add: demoJob_def)
  from topology_is_wired [OF c a b] a c show ?thesis by auto
qed

subsection \<open>Placement\<close>

lemma fold_assign:
  assumes "distinct xs"
  shows "snd (fold (assign_step al) xs (m, k)) = k + length xs \<and>
    dom (fst (fold (assign_step al) xs (m, k))) = dom m \<union> set xs \<and>
    (\<forall>x. x \<notin> set xs \<longrightarrow> fst (fold (assign_step al) xs (m, k)) x = m x) \<and>
    (\<forall>i < length xs. fst (fold (assign_step al) xs (m, k)) (xs ! i) =
      Some (m_Address (al ! ((k + i) mod length al))))"
  using assms
proof (induction xs arbitrary: m k)
  case (Cons x xs)
  let ?m = "m(x \<mapsto> m_Address (al ! (k mod length al)))"
  have step: "fold (assign_step al) (x # xs) (m, k) = fold (assign_step al) xs (?m, Suc k)"
    by (simp add: assign_step_def)
  have d: "distinct xs" "x \<notin> set xs" using Cons.prems by auto
  have IH: "snd (fold (assign_step al) xs (?m, Suc k)) = Suc k + length xs"
    "dom (fst (fold (assign_step al) xs (?m, Suc k))) = dom ?m \<union> set xs"
    "\<And>y. y \<notin> set xs \<Longrightarrow> fst (fold (assign_step al) xs (?m, Suc k)) y = ?m y"
    "\<And>i. i < length xs \<Longrightarrow> fst (fold (assign_step al) xs (?m, Suc k)) (xs ! i) =
      Some (m_Address (al ! ((Suc k + i) mod length al)))"
    using Cons.IH [OF d(1), of ?m "Suc k"] by blast+
  show ?case
  proof (unfold step, intro conjI allI impI)
    show "snd (fold (assign_step al) xs (?m, Suc k)) = k + length (x # xs)" using IH(1) by simp
    show "dom (fst (fold (assign_step al) xs (?m, Suc k))) = dom m \<union> set (x # xs)"
      by (auto simp: IH(2))
    show "fst (fold (assign_step al) xs (?m, Suc k)) y = m y" if "y \<notin> set (x # xs)" for y
      using that by (subst IH(3)) auto
    show "fst (fold (assign_step al) xs (?m, Suc k)) ((x # xs) ! i) =
        Some (m_Address (al ! ((k + i) mod length al)))" if "i < length (x # xs)" for i
    proof (cases i)
      case 0
      then show ?thesis using IH(3) [OF d(2)] by simp
    next
      case (Suc j)
      then show ?thesis using IH(4) [of j] that by simp
    qed
  qed
qed simp

lemma computeTaskAssignments_result:
  assumes "computeTaskAssignments members self order topo = Inr (asg, topo', next)"
    and "distinct order" and "set order = dom (tp_Tasks topo)"
    and "alive = GetAliveMembers self members"
  shows "dom asg = dom (tp_Tasks topo) \<and> next = length order mod length alive \<and>
    (\<forall>i < length order. asg (order ! i) = Some (m_Address (alive ! (i mod length alive)))) \<and>
    (\<forall>k t. tp_Tasks topo' k = Some t \<longrightarrow>
      tk_Address t = addPort2000 (the (asg k)) \<and> tk_NodeID t = the (asg k) \<and>
      (\<forall>k' t'. tp_Tasks topo' k' = Some t' \<longrightarrow>
        (k' \<in> dom (tk_OutputTargets t) \<longrightarrow> tk_OutputTargets t k' = Some (tk_Address t')) \<and>
        (k' \<in> dom (tk_InputTasks t) \<longrightarrow> tk_InputTasks t k' = Some (tk_Address t'))))"
proof -
  let ?run = "fold (assign_step alive) order (Map.empty, 0)"
  let ?t1 = "\<lambda>i. map_option (set_address asg i) (tp_Tasks topo i)"
  have run: "asg = fst ?run" "next = snd ?run mod length alive"
    and topo': "tp_Tasks topo' = (\<lambda>i. map_option (\<lambda>t. t\<lparr>
      tk_InputTasks := fill_addresses asg ?t1 (tk_InputTasks t),
      tk_OutputTargets := fill_addresses asg ?t1 (tk_OutputTargets t)\<rparr>) (?t1 i))"
    using assms(1,4) by (auto simp: computeTaskAssignments_def Let_def case_prod_unfold split: if_splits)
  have asg: "dom asg = dom (tp_Tasks topo)" "snd ?run = length order"
    "\<And>i. i < length order \<Longrightarrow> asg (order ! i) = Some (m_Address (alive ! (i mod length alive)))"
    using fold_assign [OF assms(2), of alive Map.empty 0] assms(3) by (auto simp: run(1))
  have addr: "tk_Address (set_address asg k t) = addPort2000 (the (asg k))"
    "tk_NodeID (set_address asg k t) = the (asg k)" if "tp_Tasks topo k = Some t" for k t
  proof -
    have "k \<in> dom asg" using that asg(1) by (auto simp: domI)
    then show "tk_Address (set_address asg k t) = addPort2000 (the (asg k))"
      "tk_NodeID (set_address asg k t) = the (asg k)"
      by (auto simp: set_address_def)
  qed
  have fill: "y = addPort2000 (the (asg k'))"
    if "tp_Tasks topo k' = Some t'" "fill_addresses asg ?t1 links k' = Some y" for k' t' links y
  proof -
    have "k' \<in> dom asg" using that asg(1) by (auto simp: domI)
    then show ?thesis using that addr(1) [OF that(1)] by (auto simp: fill_addresses_def split: option.splits)
  qed
  show ?thesis
    using asg run(2) addr unfolding topo' by (auto simp: domI dest: fill)
qed

text \<open>
  C28: task placement is round-robin over the alive nodes other than the leader: the
  \<open>i\<close>-th task goes to the \<open>i\<close>-th alive node modulo their number; every placed task listens on its
  node's address with the port raised by 2000, and every link of a task to another placed task
  carries that task's address, so tuples and ACKs are sent where the tasks listen.
\<close>

theorem placement_is_round_robin_and_consistent:
  assumes "computeTaskAssignments members self order topo = Inr (asg, topo', next)"
    and "distinct order" and "set order = dom (tp_Tasks topo)"
    and "alive = GetAliveMembers self members"
  shows "dom asg = dom (tp_Tasks topo) \<and> next = length order mod length alive \<and>
    (\<forall>i < length order. asg (order ! i) = Some (m_Address (alive ! (i mod length alive)))) \<and>
    (\<forall>k t. tp_Tasks topo' k = Some t \<longrightarrow>
      tk_Address t = addPort2000 (the (asg k)) \<and> tk_NodeID t = the (asg k) \<and>
      (\<forall>k' t'. tp_Tasks topo' k' = Some t' \<longrightarrow>
        (k' \<in> dom (tk_OutputTargets t) \<longrightarrow> tk_OutputTargets t k' = Some (tk_Address t')) \<and>
        (k' \<in> dom (tk_InputTasks t) \<longrightarrow> tk_InputTasks t k' = Some (tk_Address t'))))"
  using assms by (rule computeTaskAssignments_result)

theorem placement_is_round_robin_and_consistent_witness:
  "\<exists>asg topo' next. computeTaskAssignments demoMembers ''a:80'' [''t''] (NewTopology ''j''
      \<lparr>tp_Tasks := [''t'' \<mapsto> NewTask ''t'' 1]\<rparr>) = Inr (asg, topo', next) \<and>
    asg ''t'' = Some ''b:80''"
proof -
  let ?topo = "NewTopology ''j''\<lparr>tp_Tasks := [''t'' \<mapsto> NewTask ''t'' 1]\<rparr>"
  have al: "GetAliveMembers ''a:80'' demoMembers = demoMembers"
    by (simp add: GetAliveMembers_def demoMembers_def IsAlive_def)
  have ne: "demoMembers \<noteq> []" by (simp add: demoMembers_def)
  obtain asg topo' nxt where c: "computeTaskAssignments demoMembers ''a:80'' [''t''] ?topo = Inr (asg, topo', nxt)"
    using ne by (simp add: computeTaskAssignments_def al Let_def case_prod_unfold)
  have "asg ([''t''] ! 0) = Some (m_Address (demoMembers ! (0 mod length demoMembers)))"
    using placement_is_round_robin_and_consistent [OF c _ _ al [symmetric]] by simp
  then show ?thesis using c by (auto simp: demoMembers_def)
qed

end
