(* ===== verification/Routing.thy ===== *)
theory Routing imports Topology begin

text \<open>
  Key-based routing of tuples: \<open>hashKey\<close>, \<open>selectDownstreamTask\<close> and \<open>selectTaskByKey\<close> of
  \<open>nodemanager.go\<close>. The locale \<open>key_router\<close> states what the stages rely on, that the choice
  depends on the key and on the set of candidates only, and both functions interpret it.
\<close>

definition hashKey :: "string \<Rightarrow> 32 word" where
  "hashKey key = fnv32a key"

text \<open>\<open>ids\<close> lists the keys of \<open>OutputTargets\<close> in the order Go visits them.\<close>

definition sortStrings :: "string list \<Rightarrow> string list" where
  "sortStrings xs = sort_slice (\<lambda>a b. a < b) xs"

definition selectDownstreamTask :: "string list \<Rightarrow> (string \<rightharpoonup> string) \<Rightarrow> string \<Rightarrow> string \<times> string" where
  "selectDownstreamTask ids outputTargets key =
     (if ids = [] then ([], [])
      else
        let downstreamTaskIDs = sortStrings ids;
            selectedIndex = unat (hashKey key) mod length downstreamTaskIDs;
            selectedTaskID = downstreamTaskIDs ! selectedIndex
        in (selectedTaskID, case outputTargets selectedTaskID of Some a \<Rightarrow> a | None \<Rightarrow> []))"

text \<open>
  \<open>selectTaskByKey\<close>: \<open>leader\<close> is the leader's job, its topology's tasks in the order Go visits
  them, and the reported statuses, when this process has a leader.
\<close>

definition selectTaskByKey ::
    "(JobSpec option \<times> Task list option \<times> (string \<rightharpoonup> TaskStatus)) option \<Rightarrow> string \<Rightarrow> Task list \<Rightarrow> Task option" where
  "selectTaskByKey leader key tasks =
     (let candidates =
        (case leader of
           Some (Some job, Some topologyTasks, taskStatuses) \<Rightarrow>
             (if js_Autoscale job then
                let dynamic = filter (\<lambda>t. tk_Stage t = 1 \<and>
                      (case taskStatuses (tk_TaskID t) of None \<Rightarrow> True | Some st \<Rightarrow> st = TaskRunning)) topologyTasks
                in if dynamic \<noteq> [] then dynamic else tasks
              else tasks)
         | _ \<Rightarrow> tasks)
      in if candidates = [] then None
         else
           let candidates = sort_slice (\<lambda>a b. tk_TaskID a < tk_TaskID b) candidates;
               selectedIndex = unat (hashKey key) mod length candidates
           in Some (candidates ! selectedIndex))"

locale key_router =
  fixes ident :: "'t \<Rightarrow> string"
    and pick :: "'t list \<Rightarrow> string \<Rightarrow> 't option"
  assumes pick_in: "xs \<noteq> [] \<Longrightarrow> \<exists>x \<in> set xs. pick xs key = Some x"
    and pick_mset: "mset ys = mset xs \<Longrightarrow> distinct (map ident xs) \<Longrightarrow> pick ys key = pick xs key"
begin

text \<open>Two senders that know the same candidates, in whatever order, send a key to the same one.\<close>

lemma pick_set:
  assumes "distinct (map ident xs)" and "distinct (map ident ys)" and "set xs = set ys"
  shows "pick xs key = pick ys key"
  using assms by (metis distinct_map pick_mset set_eq_iff_mset_eq_distinct)

lemma pick_mem: "xs \<noteq> [] \<Longrightarrow> pick xs key = Some x \<Longrightarrow> x \<in> set xs"
  using pick_in [of xs key] by auto

end

interpretation ids_sort: slice_sort "\<lambda>x::string. x" sortStrings
  using sorted_sort_slice [of "\<lambda>x::string. x"]
  by unfold_locales (simp_all add: sortStrings_def mset_sort_slice)

interpretation tasks_sort: slice_sort tk_TaskID "sort_slice (\<lambda>a b. tk_TaskID a < tk_TaskID b)"
  by unfold_locales (simp_all add: mset_sort_slice sorted_sort_slice)

lemma length_sortStrings [simp]: "length (sortStrings xs) = length xs"
  by (rule ids_sort.srt_length)

definition pickDownstream :: "string list \<Rightarrow> string \<Rightarrow> string option" where
  "pickDownstream ids key =
     (if ids = [] then None else Some (fst (selectDownstreamTask ids Map.empty key)))"

lemma selectDownstreamTask_pick:
  "selectDownstreamTask ids targets key =
    (case pickDownstream ids key of None \<Rightarrow> ([], [])
     | Some t \<Rightarrow> (t, case targets t of Some a \<Rightarrow> a | None \<Rightarrow> []))"
  by (simp add: pickDownstream_def selectDownstreamTask_def Let_def)

interpretation downstream: key_router "\<lambda>x. x" pickDownstream
proof
  fix xs :: "string list" and key
  assume ne: "xs \<noteq> []"
  then have "sortStrings xs ! (unat (hashKey key) mod length xs) \<in> set (sortStrings xs)"
    by (intro nth_mem) simp
  then show "\<exists>x \<in> set xs. pickDownstream xs key = Some x"
    using ne by (auto simp: pickDownstream_def selectDownstreamTask_def Let_def ids_sort.srt_set)
next
  fix xs ys :: "string list" and key
  assume m: "mset ys = mset xs" and "distinct (map (\<lambda>x. x) xs)"
  then have "sortStrings ys = sortStrings xs" by (intro ids_sort.srt_unique) simp_all
  moreover have "ys = [] \<longleftrightarrow> xs = []" using m by auto
  ultimately show "pickDownstream ys key = pickDownstream xs key"
    by (simp add: pickDownstream_def selectDownstreamTask_def Let_def)
qed

interpretation stage1: key_router tk_TaskID "\<lambda>ts key. selectTaskByKey None key ts"
proof
  fix xs :: "Task list" and key
  let ?s = "sort_slice (\<lambda>a b. tk_TaskID a < tk_TaskID b)"
  assume ne: "xs \<noteq> []"
  then have "?s xs ! (unat (hashKey key) mod length (?s xs)) \<in> set (?s xs)"
    by (intro nth_mem) (simp add: tasks_sort.srt_length)
  then show "\<exists>x \<in> set xs. selectTaskByKey None key xs = Some x"
    using ne by (auto simp: selectTaskByKey_def Let_def tasks_sort.srt_set)
next
  fix xs ys :: "Task list" and key
  let ?s = "sort_slice (\<lambda>a b. tk_TaskID a < tk_TaskID b)"
  assume m: "mset ys = mset xs" and d: "distinct (map tk_TaskID xs)"
  then have "?s ys = ?s xs" by (rule tasks_sort.srt_unique)
  moreover have "ys = [] \<longleftrightarrow> xs = []" using m by auto
  ultimately show "selectTaskByKey None key ys = selectTaskByKey None key xs"
    by (simp add: selectTaskByKey_def Let_def)
qed

text \<open>
  C40: two tasks that have the same downstream tasks send equal keys to the same one of
  them, at the address each knows for it, whatever order their maps are traversed in; so all tuples of a
  key meet in one task of the next stage.
\<close>

theorem same_key_same_task:
  assumes "distinct ids" and "set ids = dom targets" and "distinct ids'" and "set ids' = dom targets'"
    and "dom targets = dom targets'" and "dom targets \<noteq> {}"
  shows "fst (selectDownstreamTask ids targets key) = fst (selectDownstreamTask ids' targets' key) \<and>
    targets (fst (selectDownstreamTask ids targets key)) = Some (snd (selectDownstreamTask ids targets key))"
proof -
  have ne: "ids \<noteq> []" using assms(2,6) by (metis list.set(1))
  have eq: "pickDownstream ids key = pickDownstream ids' key"
    using assms by (intro downstream.pick_set) simp_all
  obtain t where t: "t \<in> set ids" "pickDownstream ids key = Some t"
    using downstream.pick_in [OF ne] by blast
  then obtain a where "targets t = Some a" using assms(2) by blast
  with t eq show ?thesis by (simp add: selectDownstreamTask_pick)
qed

theorem same_key_same_task_witness:
  "fst (selectDownstreamTask [''t1'', ''t2''] [''t1'' \<mapsto> ''a'', ''t2'' \<mapsto> ''b''] ''k'') =
   fst (selectDownstreamTask [''t2'', ''t1''] [''t1'' \<mapsto> ''c'', ''t2'' \<mapsto> ''d''] ''k'')"
  by (rule same_key_same_task [THEN conjunct1]) auto

end
