(* ===== verification/NodeManager.thy ===== *)
theory NodeManager imports ExactlyOnce Routing begin

text \<open>
  \<open>nodemanager.go\<close>, \<open>rainstorm_server.go\<close> and \<open>rainstorm_client.go\<close>: the tasks a node runs, the
  tuples and ACKs it receives and sends, and its buffered output. The node manager's server pointer is
  set for its whole life. Each handler, each line of a task's output and each tick of a background
  loop is one atomic step. A running task is an external process: what was written to its input is the
  list \<open>ti_Stdin\<close>, what it prints is the argument of \<open>read_line\<close>, whether its start, kill or
  input write succeeds is an argument. A message sent over TCP is answered by the receiver: the argument \<open>dlv\<close>
  says whether sending a tuple succeeded, and \<open>ord\<close> in which order Go visits a map of names.
  The \<open>WALFiles\<close> map is never filled, so closing its handles does nothing.
\<close>

type_synonym visit = "(string \<rightharpoonup> string) \<Rightarrow> string list"

record TaskInfo =
  ti_TaskID :: string
  ti_Task :: Task
  ti_PID :: int
  ti_Stdin :: "Tuple list"
  ti_EOM :: "EOM option"

record TaskMetrics =
  tm_TaskID :: string
  tm_TuplesProcessed :: "64 word"
  tm_TuplesSent :: "64 word"
  tm_TuplesReceived :: "64 word"
  tm_Throughput :: rat

record metricsHistory =
  mh_LastProcessed :: "64 word"
  mh_LastReceived :: "64 word"
  mh_LastReported :: time

record NodeManager =
  nm_NodeID :: string
  nm_TaskInfos :: "string \<rightharpoonup> TaskInfo"
  nm_TaskStatus :: "string \<rightharpoonup> TaskStatus"
  nm_Metrics :: "string \<rightharpoonup> TaskMetrics"
  nm_JobSpec :: "JobSpec option"
  nm_inputRate :: int
  nm_leaderAddress :: string
  nm_metricsHistory :: "string \<rightharpoonup> metricsHistory"
  nm_outputBuffer :: "json list"

datatype message = TupleMsg string Tuple | AckMsg string string string

definition metricsCollectionInterval :: duration where
  "metricsCollectionInterval = 2000000000"

subsection \<open>Tasks\<close>

definition newTaskMetrics :: "string \<Rightarrow> TaskMetrics" where
  "newTaskMetrics taskID = \<lparr>tm_TaskID = taskID, tm_TuplesProcessed = 0, tm_TuplesSent = 0,
     tm_TuplesReceived = 0, tm_Throughput = 0\<rparr>"

definition incrementTaskMetrics :: "string \<Rightarrow> bool \<Rightarrow> bool \<Rightarrow> bool \<Rightarrow> NodeManager \<Rightarrow> NodeManager" where
  "incrementTaskMetrics taskID incProcessed incSent incReceived nm =
     (if taskID = [] then nm
      else
        let m = (case nm_Metrics nm taskID of None \<Rightarrow> newTaskMetrics taskID | Some m \<Rightarrow> m);
            m = (if incProcessed then m\<lparr>tm_TuplesProcessed := tm_TuplesProcessed m + 1\<rparr> else m);
            m = (if incSent then m\<lparr>tm_TuplesSent := tm_TuplesSent m + 1\<rparr> else m);
            m = (if incReceived then m\<lparr>tm_TuplesReceived := tm_TuplesReceived m + 1\<rparr> else m)
        in nm\<lparr>nm_Metrics := (nm_Metrics nm)(taskID \<mapsto> m)\<rparr>)"

definition NewNodeManager :: "string \<Rightarrow> NodeManager" where
  "NewNodeManager nodeAddr =
     \<lparr>nm_NodeID = (case SplitHostPort nodeAddr of
          None \<Rightarrow> nodeAddr
        | Some (host, portStr) \<Rightarrow>
            (case Atoi portStr of (port, ok) \<Rightarrow>
               if ok then host @ '':'' @ dec (port + 2000) else nodeAddr)),
      nm_TaskInfos = Map.empty, nm_TaskStatus = Map.empty, nm_Metrics = Map.empty, nm_JobSpec = None,
      nm_inputRate = 0, nm_leaderAddress = [], nm_metricsHistory = Map.empty, nm_outputBuffer = []\<rparr>"

definition stageOpOf :: "JobSpec option \<Rightarrow> int \<Rightarrow> StageOp option" where
  "stageOpOf job stage =
     (case job of
        None \<Rightarrow> None
      | Some j \<Rightarrow>
          let idx = stage - 1
          in if 0 \<le> idx \<and> idx < int (length (js_StageOps j)) then Some (js_StageOps j ! nat idx) else None)"

definition isFinalStage :: "NodeManager \<Rightarrow> Task \<Rightarrow> bool" where
  "isFinalStage nm task =
     (case nm_JobSpec nm of None \<Rightarrow> False | Some j \<Rightarrow> tk_Stage task = js_NStages j)"

text \<open>\<open>proc\<close> is the result of \<open>startCommandProcess\<close>: an error or a PID; \<open>wal\<close> the task's old log, if any.\<close>

definition InitializeTask ::
    "string + int \<Rightarrow> line list option \<Rightarrow> Task \<Rightarrow> JobSpec option \<Rightarrow> int \<Rightarrow> NodeManager \<Rightarrow> NodeManager \<times> go_err option" where
  "InitializeTask proc wal task jobSpec inputRate nm =
     (if tk_Address task \<noteq> nm_NodeID nm then
        (nm, Some (GoError (''task address '' @ tk_Address task @ '' does not match this node's NodeID '' @ nm_NodeID nm)))
      else
        let nm = (case jobSpec of None \<Rightarrow> nm
                  | Some _ \<Rightarrow> nm\<lparr>nm_JobSpec := jobSpec, nm_inputRate := inputRate\<rparr>)
        in if nm_TaskInfos nm (tk_TaskID task) \<noteq> None then
             (nm, Some (GoError (''task '' @ tk_TaskID task @ '' already exists on this node'')))
           else if stageOpOf (nm_JobSpec nm) (tk_Stage task) = None then
             (nm, Some (GoError (''failed to get StageOp for task '' @ tk_TaskID task @ '' (stage '' @ dec (tk_Stage task) @
                '') - JobSpec may not be set or stage out of bounds'')))
           else case proc of
               Inl err \<Rightarrow> (nm, Some (GoError (''failed to start command process for task '' @ tk_TaskID task @ '': '' @ err)))
             | Inr pid \<Rightarrow>
                 let eom = (if tk_ExactlyOnce task \<or> tk_AutoscaleMode task
                            then Some (NewExactlyOnceManager wal False (isFinalStage nm task) True (Some (tk_TaskID task)))
                            else None);
                     taskInfo = \<lparr>ti_TaskID = tk_TaskID task, ti_Task = task, ti_PID = pid, ti_Stdin = [], ti_EOM = eom\<rparr>
                 in (nm\<lparr>nm_TaskInfos := (nm_TaskInfos nm)(tk_TaskID task \<mapsto> taskInfo),
                        nm_TaskStatus := (nm_TaskStatus nm)(tk_TaskID task \<mapsto> TaskRunning)\<rparr>, None))"

text \<open>The loop of \<open>InitializeTasks\<close> over the topology's tasks stops at the first error.\<close>

fun init_loop ::
    "(string \<Rightarrow> string + int) \<Rightarrow> (string \<Rightarrow> line list option) \<Rightarrow> (string \<times> Task) list \<Rightarrow> JobSpec option \<Rightarrow> int
       \<Rightarrow> NodeManager \<Rightarrow> NodeManager \<times> go_err option" where
  "init_loop procs wals [] jobSpec inputRate nm = (nm, None)"
| "init_loop procs wals ((taskID, task) # ts) jobSpec inputRate nm =
     (if tk_Address task = nm_NodeID nm then
        (case InitializeTask (procs taskID) (wals taskID) task jobSpec inputRate nm of
           (nm', None) \<Rightarrow> init_loop procs wals ts jobSpec inputRate nm'
         | (nm', Some e) \<Rightarrow> (nm', Some (GoError (''failed to initialize task '' @ taskID @ '': '' @
             (case e of GoError m \<Rightarrow> m | GoPanic m \<Rightarrow> m)))))
      else init_loop procs wals ts jobSpec inputRate nm)"

definition set_leader_address :: "string \<Rightarrow> bool \<Rightarrow> JobSpec option \<Rightarrow> NodeManager \<Rightarrow> NodeManager" where
  "set_leader_address serverAddr isIntroducer jobSpec nm =
     (if nm_leaderAddress nm \<noteq> [] then nm
      else case jobSpec of
          Some j \<Rightarrow>
            if js_SourceAddress j \<noteq> [] then
              let (host, portStr) = SplitHostPort0 (js_SourceAddress j); (port, _) = Atoi portStr
              in nm\<lparr>nm_leaderAddress := host @ '':'' @ dec (port - 2000)\<rparr>
            else if isIntroducer then nm\<lparr>nm_leaderAddress := serverAddr\<rparr> else nm
        | None \<Rightarrow> if isIntroducer then nm\<lparr>nm_leaderAddress := serverAddr\<rparr> else nm)"

definition entries :: "string list \<Rightarrow> (string \<rightharpoonup> 'v) \<Rightarrow> (string \<times> 'v) list" where
  "entries ids m = List.map_filter (\<lambda>i. map_option (\<lambda>v. (i, v)) (m i)) ids"

definition InitializeTasks ::
    "(string \<Rightarrow> string + int) \<Rightarrow> (string \<Rightarrow> line list option) \<Rightarrow> string \<Rightarrow> bool \<Rightarrow> string list \<Rightarrow> Topology
       \<Rightarrow> JobSpec option \<Rightarrow> int \<Rightarrow> NodeManager \<Rightarrow> NodeManager \<times> go_err option" where
  "InitializeTasks procs wals serverAddr isIntroducer ids topology jobSpec inputRate nm =
     init_loop procs wals (entries ids (tp_Tasks topology)) jobSpec inputRate
       (set_leader_address serverAddr isIntroducer jobSpec nm)"

definition UpdateTopology :: "Topology \<Rightarrow> NodeManager \<Rightarrow> NodeManager" where
  "UpdateTopology topology nm = nm\<lparr>nm_TaskInfos := (\<lambda>taskID.
     case nm_TaskInfos nm taskID of
       None \<Rightarrow> None
     | Some ti \<Rightarrow>
         (case tp_Tasks topology taskID of
            None \<Rightarrow> Some ti
          | Some updatedTask \<Rightarrow>
              if tk_Address updatedTask \<noteq> nm_NodeID nm then Some ti
              else Some (ti\<lparr>ti_Task := (ti_Task ti)\<lparr>tk_InputTasks := tk_InputTasks updatedTask,
                                                 tk_OutputTargets := tk_OutputTargets updatedTask\<rparr>\<rparr>)))\<rparr>"

text \<open>\<open>killed\<close> is the error of killing the process, if any; the manager is stopped before the attempt.\<close>

definition upd_eom :: "string \<Rightarrow> (EOM \<Rightarrow> EOM) \<Rightarrow> NodeManager \<Rightarrow> NodeManager" where
  "upd_eom taskID f nm =
     (case nm_TaskInfos nm taskID of
        None \<Rightarrow> nm
      | Some ti \<Rightarrow> nm\<lparr>nm_TaskInfos := (nm_TaskInfos nm)(taskID \<mapsto> ti\<lparr>ti_EOM := map_option f (ti_EOM ti)\<rparr>)\<rparr>)"

definition KillTaskProcess :: "string option \<Rightarrow> string \<Rightarrow> NodeManager \<Rightarrow> NodeManager \<times> go_err option" where
  "KillTaskProcess killed taskID nm =
     (case nm_TaskInfos nm taskID of
        None \<Rightarrow> (nm, Some (GoError (''task '' @ taskID @ '' not found'')))
      | Some ti \<Rightarrow>
          (case killed of
             Some err \<Rightarrow> (upd_eom taskID EOM_Stop nm,
                          Some (GoError (''failed to kill process for task '' @ taskID @ '' (PID: '' @ dec (ti_PID ti) @ ''): '' @ err)))
           | None \<Rightarrow>
               (nm\<lparr>nm_TaskInfos := (nm_TaskInfos nm)(taskID := None),
                   nm_Metrics := (nm_Metrics nm)(taskID := None),
                   nm_TaskStatus := (nm_TaskStatus nm)(taskID \<mapsto> TaskStopped)\<rparr>, None)))"

subsection \<open>Metrics\<close>

definition update_throughput :: "time \<Rightarrow> metricsHistory option \<Rightarrow> TaskMetrics \<Rightarrow> TaskMetrics" where
  "update_throughput now history m =
     (let history = (case history of
            None \<Rightarrow> \<lparr>mh_LastProcessed = 0, mh_LastReceived = 0, mh_LastReported = 0\<rparr> | Some h \<Rightarrow> h);
          (interval, delta) =
            (if mh_LastReported history = 0 then (metricsCollectionInterval, tm_TuplesReceived m)
             else
               let elapsed = time_Sub now (mh_LastReported history);
                   d = tm_TuplesReceived m - mh_LastReceived history
               in (if elapsed > 0 then elapsed else metricsCollectionInterval,
                   if sint d < 0 then tm_TuplesReceived m else d))
      in m\<lparr>tm_Throughput :=
        (if interval > 0 then of_int (sint delta) / (of_int interval / 1000000000) else 0)\<rparr>)"

definition mark_failed :: "(int \<Rightarrow> bool) \<Rightarrow> NodeManager \<Rightarrow> (string \<rightharpoonup> TaskStatus)" where
  "mark_failed alive nm = (\<lambda>taskID.
     case nm_TaskInfos nm taskID of
       None \<Rightarrow> nm_TaskStatus nm taskID
     | Some ti \<Rightarrow>
         if \<not> alive (ti_PID ti) \<and> (case nm_TaskStatus nm taskID of None \<Rightarrow> True | Some st \<Rightarrow> st = TaskRunning)
         then Some TaskFailed else nm_TaskStatus nm taskID)"

type_synonym report = "string \<times> (string \<rightharpoonup> TaskMetrics) \<times> (string \<rightharpoonup> TaskStatus)"

text \<open>The report carries copies of the metrics and statuses; their order in its slices is that of the maps.\<close>

definition collectAndSendMetrics :: "time \<Rightarrow> (int \<Rightarrow> bool) \<Rightarrow> NodeManager \<Rightarrow> NodeManager \<times> report option" where
  "collectAndSendMetrics now alive nm =
     (if nm_leaderAddress nm = [] then (nm, None)
      else
        let metrics = (\<lambda>i. map_option (update_throughput now (nm_metricsHistory nm i)) (nm_Metrics nm i));
            history = (\<lambda>i. case nm_Metrics nm i of
                None \<Rightarrow> nm_metricsHistory nm i
              | Some m \<Rightarrow> Some \<lparr>mh_LastProcessed = tm_TuplesProcessed m, mh_LastReceived = tm_TuplesReceived m,
                              mh_LastReported = now\<rparr>);
            nm = nm\<lparr>nm_TaskStatus := mark_failed alive nm, nm_Metrics := metrics, nm_metricsHistory := history\<rparr>
        in (nm, Some (nm_NodeID nm, nm_Metrics nm, nm_TaskStatus nm)))"

subsection \<open>Sending\<close>

text \<open>
  \<open>SendTuple\<close> tracks the tuple before it sends it, through the manager pointer as it is; \<open>json_key\<close>
  reads a key of a decoded JSON object.
\<close>

definition SendTuple ::
    "time \<Rightarrow> string \<Rightarrow> Tuple \<Rightarrow> EOM option \<Rightarrow> string \<Rightarrow> (message \<times> EOM) go" where
  "SendTuple now address tuple exactlyOnceMgr originalID =
     (case exactlyOnceMgr of
        None \<Rightarrow> Inl (GoPanic ''nil pointer dereference'')
      | Some eom \<Rightarrow> Inr (TupleMsg address tuple, AddSentTuple now tuple originalID address eom))"

definition json_key :: "string \<Rightarrow> json \<Rightarrow> json option" where
  "json_key k j = (case j of JObj ob \<Rightarrow> map_of (rev ob) k | _ \<Rightarrow> None)"

definition writeTupleToOutputFile :: "Tuple \<Rightarrow> NodeManager \<Rightarrow> NodeManager" where
  "writeTupleToOutputFile tuple nm =
     (case nm_JobSpec nm of
        None \<Rightarrow> nm
      | Some j \<Rightarrow>
          if js_DestFile j = [] then nm
          else nm\<lparr>nm_outputBuffer := nm_outputBuffer nm @
            [JObj [(''Key'', JStr (tp_Key tuple)), (''Value'', JStr (tp_Value tuple))]]\<rparr>)"

text \<open>Messages sent, and the node manager; a panic takes the process down.\<close>

definition forwardTupleToDownstream ::
    "time \<Rightarrow> visit \<Rightarrow> (message \<Rightarrow> bool) \<Rightarrow> string \<Rightarrow> Tuple \<Rightarrow> string \<Rightarrow> NodeManager \<Rightarrow> (message list \<times> NodeManager) go" where
  "forwardTupleToDownstream now ord dlv taskID tuple originalID nm =
     (case nm_TaskInfos nm taskID of
        None \<Rightarrow> Inr ([], nm)
      | Some ti \<Rightarrow>
          let task = ti_Task ti
          in if isFinalStage nm task then Inr ([], writeTupleToOutputFile tuple nm)
             else
               let (selectedTaskID, selectedAddr) =
                     selectDownstreamTask (ord (tk_OutputTargets task)) (tk_OutputTargets task) (tp_Key tuple)
               in if selectedTaskID = [] \<or> selectedAddr = [] then Inr ([], nm)
                  else
                    let forwardTuple = tuple\<lparr>tp_TaskID := selectedTaskID, tp_EOF := None\<rparr>
                    in case SendTuple now selectedAddr forwardTuple (ti_EOM ti) originalID of
                        Inl e \<Rightarrow> Inl e
                      | Inr (msg, eom) \<Rightarrow>
                          let nm = upd_eom taskID (\<lambda>_. eom) nm
                          in Inr ([msg], if dlv msg then incrementTaskMetrics taskID False True False nm else nm))"

subsection \<open>A line of a task's output\<close>

text \<open>The decoded line: the original tuple's ID and the output tuples, or nothing to do.\<close>

fun all_some :: "'a option list \<Rightarrow> 'a list option" where
  "all_some [] = Some []"
| "all_some (None # xs) = None"
| "all_some (Some x # xs) = map_option ((#) x) (all_some xs)"

definition parse_output :: "line \<Rightarrow> (string \<times> Tuple list) option" where
  "parse_output l =
     (case l of
        Line j \<Rightarrow>
          (case (json_key ''OriginalTupleId'' j, json_key ''OutputTuples'' j) of
             (Some (JStr originalID), Some outs) \<Rightarrow>
               if originalID = [] then None
               else (case outs of
                   JNull \<Rightarrow> Some (originalID, [])
                 | JArr js \<Rightarrow> map_option (\<lambda>ts. (originalID, ts)) (all_some (map Tuple_of_json js))
                 | _ \<Rightarrow> None)
           | _ \<Rightarrow> None)
      | _ \<Rightarrow> None)"

fun forward_all ::
    "time \<Rightarrow> visit \<Rightarrow> (message \<Rightarrow> bool) \<Rightarrow> string \<Rightarrow> string \<Rightarrow> Tuple list \<Rightarrow> NodeManager \<Rightarrow> (message list \<times> NodeManager) go" where
  "forward_all now ord dlv taskID originalID [] nm = Inr ([], nm)"
| "forward_all now ord dlv taskID originalID (t # ts) nm =
     (case forwardTupleToDownstream now ord dlv taskID (t\<lparr>tp_SenderID := taskID\<rparr>) originalID nm of
        Inl e \<Rightarrow> Inl e
      | Inr (msgs, nm) \<Rightarrow>
          (case forward_all now ord dlv taskID originalID ts
              (upd_eom taskID (\<lambda>e. snd (IncrementOutputCount originalID e)) nm) of
             Inl e \<Rightarrow> Inl e
           | Inr (msgs', nm) \<Rightarrow> Inr (msgs @ msgs', nm)))"

definition read_line ::
    "time \<Rightarrow> visit \<Rightarrow> (message \<Rightarrow> bool) \<Rightarrow> string \<Rightarrow> line \<Rightarrow> NodeManager \<Rightarrow> (message list \<times> NodeManager) go" where
  "read_line now ord dlv taskID l nm =
     (case parse_output l of
        None \<Rightarrow> Inr ([], nm)
      | Some (originalID, outputTuples) \<Rightarrow>
          let nm = upd_eom taskID
                (\<lambda>e. snd (SetExpectedOutputCount originalID (int (length outputTuples)) e)) nm
          in case forward_all now ord dlv taskID originalID outputTuples nm of
              Inl e \<Rightarrow> Inl e
            | Inr (msgs, nm) \<Rightarrow> Inr (msgs, incrementTaskMetrics taskID True False False nm))"

subsection \<open>Incoming messages\<close>

definition sendACKForTuple :: "string \<Rightarrow> string \<Rightarrow> Task \<Rightarrow> message list" where
  "sendACKForTuple tupleID senderID task =
     (case tk_InputTasks task senderID of
        None \<Rightarrow> []
      | Some senderAddr \<Rightarrow> [AckMsg senderAddr tupleID (tk_TaskID task)])"

text \<open>A process with its node manager and, on the introducer, the leader's manager of sent tuples.\<close>

record RNode =
  rn_nm :: "NodeManager option"
  rn_leader :: "EOM option"

definition handleTupleMessage ::
    "time \<Rightarrow> bool \<Rightarrow> json \<Rightarrow> NodeManager option \<Rightarrow> string go \<times> message list \<times> NodeManager option" where
  "handleTupleMessage now wr payload nodeManager =
     (case Tuple_of_json payload of
        None \<Rightarrow> (Inl (GoError ''failed to unmarshal tuple''), [], nodeManager)
      | Some tuple \<Rightarrow>
          (case nodeManager of
             None \<Rightarrow> (Inl (GoError ''NodeManager is not available''), [], None)
           | Some nm \<Rightarrow>
               (case nm_TaskInfos nm (tp_TaskID tuple) of
                  None \<Rightarrow> (Inl (GoError (''task '' @ tp_TaskID tuple @ '' not found on this node'')), [], Some nm)
                | Some ti \<Rightarrow>
                    if nm_TaskStatus nm (tp_TaskID tuple) \<notin> {None, Some TaskRunning} then
                      (Inl (GoError (''task '' @ tp_TaskID tuple @ '' is not running'')), [], Some nm)
                    else
                      let nm = incrementTaskMetrics (tp_TaskID tuple) False False True nm;
                          fresh = (case ti_EOM ti of None \<Rightarrow> True | Some e \<Rightarrow> fst (AddReceivedTuple now tuple e));
                          nm = upd_eom (tp_TaskID tuple) (\<lambda>e. snd (AddReceivedTuple now tuple e)) nm
                      in if \<not> fresh then
                           (Inr ''Duplicate tuple - ACK sent'',
                            sendACKForTuple (tp_ID tuple) (tp_SenderID tuple) (ti_Task ti), Some nm)
                         else if \<not> wr then (Inl (GoError ''failed to write tuple to task stdin''), [], Some nm)
                         else
                           (Inr ''Tuple routed to task'', [],
                            Some (case nm_TaskInfos nm (tp_TaskID tuple) of
                                None \<Rightarrow> nm
                              | Some ti \<Rightarrow> nm\<lparr>nm_TaskInfos := (nm_TaskInfos nm)(tp_TaskID tuple \<mapsto>
                                  ti\<lparr>ti_Stdin := ti_Stdin ti @ [tuple]\<rparr>)\<rparr>)))))"

text \<open>\<open>ids\<close> lists the tasks of the node in the order Go visits them.\<close>

definition find_sender :: "string list \<Rightarrow> string \<Rightarrow> NodeManager \<Rightarrow> string option" where
  "find_sender ids tupleID nm =
     find (\<lambda>i. case nm_TaskInfos nm i of
         None \<Rightarrow> False
       | Some ti \<Rightarrow> (case ti_EOM ti of None \<Rightarrow> False | Some e \<Rightarrow> GetSentTuple tupleID e \<noteq> None)) ids"

definition handleACKMessage :: "string list \<Rightarrow> (string \<rightharpoonup> string) \<Rightarrow> RNode \<Rightarrow> string go \<times> RNode" where
  "handleACKMessage ids ackData n =
     (case (ackData ''tuple_id'', ackData ''task_id'') of
        (Some tupleID, Some taskID) \<Rightarrow>
          (case rn_nm n of
             None \<Rightarrow> (Inl (GoError ''NodeManager is not available''), n)
           | Some nm \<Rightarrow>
               (case find_sender ids tupleID nm of
                  Some i \<Rightarrow> (Inr ''ACK processed'', n\<lparr>rn_nm := Some (upd_eom i (RemoveSentTuple tupleID) nm)\<rparr>)
                | None \<Rightarrow>
                    (case rn_leader n of
                       Some e \<Rightarrow>
                         if GetSentTuple tupleID e \<noteq> None
                         then (Inr ''ACK processed (from leader)'', n\<lparr>rn_leader := Some (RemoveSentTuple tupleID e)\<rparr>)
                         else (Inl (GoError ''Sender task not found''), n)
                     | None \<Rightarrow> (Inl (GoError ''Sender task not found''), n))))
      | _ \<Rightarrow> (Inl (GoError ''invalid ACK format - missing tuple_id or task_id''), n))"

definition routeRainstormMessage ::
    "time \<Rightarrow> bool \<Rightarrow> string list \<Rightarrow> string \<Rightarrow> json \<Rightarrow> RNode \<Rightarrow> string go \<times> message list \<times> RNode" where
  "routeRainstormMessage now wr ids msgType payload n =
     (if msgType = ''TUPLE'' then
        (case handleTupleMessage now wr payload (rn_nm n) of
           (r, msgs, nm) \<Rightarrow> (r, msgs, n\<lparr>rn_nm := nm\<rparr>))
      else if msgType = ''ACK'' then
        (case payload of
           JObj ob \<Rightarrow>
             if list_all (\<lambda>(_, v). as_str v \<noteq> None) ob then
               (case handleACKMessage ids (\<lambda>k. case map_of (rev ob) k of None \<Rightarrow> None | Some v \<Rightarrow> as_str v) n of
                  (r, n') \<Rightarrow> (r, [], n'))
             else (Inl (GoError ''failed to unmarshal ACK''), [], n)
         | JNull \<Rightarrow> (Inl (GoError ''invalid ACK format - missing tuple_id or task_id''), [], n)
         | _ \<Rightarrow> (Inl (GoError ''failed to unmarshal ACK''), [], n))
      else (Inl (GoError (''unknown message type: '' @ msgType)), [], n))"

subsection \<open>Background loops\<close>

text \<open>A tick of a task's flush loop: what goes to the log, the ACKs sent.\<close>

definition task_flush :: "string \<Rightarrow> NodeManager \<Rightarrow> line list \<times> message list \<times> NodeManager" where
  "task_flush taskID nm =
     (case nm_TaskInfos nm taskID of
        None \<Rightarrow> ([], [], nm)
      | Some ti \<Rightarrow>
          (case ti_EOM ti of
             None \<Rightarrow> ([], [], nm)
           | Some e \<Rightarrow>
               (case ackFlushTick e of (wal, acks, e') \<Rightarrow>
                  (wal, concat (map (\<lambda>(i, s). sendACKForTuple i s (ti_Task ti)) acks), upd_eom taskID (\<lambda>_. e') nm))))"

text \<open>The callback of the retry loop of a task, for one entry that is due.\<close>

definition retry_send :: "time \<Rightarrow> visit \<Rightarrow> string \<Rightarrow> SentTuple \<Rightarrow> NodeManager \<Rightarrow> message list \<times> NodeManager" where
  "retry_send now ord taskID st nm =
     (case (nm_TaskInfos nm taskID, st_Tuple st) of
        (Some ti, Some tuple) \<Rightarrow>
          if st_Destination st = [] then ([], nm)
          else
            let tuple = tuple\<lparr>tp_SenderID := taskID\<rparr>;
                (tuple, destAddr) =
                  (if (case nm_JobSpec nm of None \<Rightarrow> False | Some j \<Rightarrow> js_Autoscale j) then
                     let (selID, selAddr) = selectDownstreamTask (ord (tk_OutputTargets (ti_Task ti)))
                           (tk_OutputTargets (ti_Task ti)) (tp_Key tuple)
                     in if selID \<noteq> [] \<and> selAddr \<noteq> [] then (tuple\<lparr>tp_TaskID := selID\<rparr>, selAddr)
                        else (tuple, st_Destination st)
                   else (tuple, st_Destination st))
            in (case SendTuple now destAddr tuple (ti_EOM ti) (st_OriginalID st) of
                  Inl _ \<Rightarrow> ([], nm)
                | Inr (msg, e) \<Rightarrow> ([msg], upd_eom taskID (\<lambda>_. e) nm))
      | _ \<Rightarrow> ([], nm))"

fun retry_all :: "time \<Rightarrow> visit \<Rightarrow> string \<Rightarrow> (string \<times> SentTuple) list \<Rightarrow> NodeManager \<Rightarrow> message list \<times> NodeManager" where
  "retry_all now ord taskID [] nm = ([], nm)"
| "retry_all now ord taskID (d # due) nm =
     (let (msgs, nm) = retry_send now ord taskID (snd d) nm; (msgs', nm) = retry_all now ord taskID due nm
      in (msgs @ msgs', nm))"

definition task_retry ::
    "time \<Rightarrow> duration \<Rightarrow> visit \<Rightarrow> string list \<Rightarrow> string \<Rightarrow> NodeManager \<Rightarrow> message list \<times> NodeManager" where
  "task_retry now interval ord ids taskID nm =
     (case nm_TaskInfos nm taskID of
        None \<Rightarrow> ([], nm)
      | Some ti \<Rightarrow>
          (case ti_EOM ti of
             None \<Rightarrow> ([], nm)
           | Some e \<Rightarrow>
               (case RetryPendingSends now interval ids e of (due, e') \<Rightarrow>
                  retry_all now ord taskID due (upd_eom taskID (\<lambda>_. e') nm))))"

text \<open>A tick of \<open>startOutputFlushLoop\<close>: the HyDFS file and the lines appended to it, if any.\<close>

definition outputFlushTick :: "NodeManager \<Rightarrow> (string \<times> json list) option \<times> NodeManager" where
  "outputFlushTick nm =
     (case nm_JobSpec nm of
        None \<Rightarrow> (None, nm)
      | Some job \<Rightarrow>
          if js_DestFile job = [] \<or> nm_outputBuffer nm = [] then (None, nm)
          else (Some (''out-'' @ Base (js_DestFile job), nm_outputBuffer nm), nm\<lparr>nm_outputBuffer := []\<rparr>))"

text \<open>
  \<open>MergeWalForTask\<close>: \<open>wal\<close> is the content of the local copy after the download, \<open>None\<close> if there is none,
  \<open>Some None\<close> if it cannot be examined; the result names the HyDFS append it then asks for.
\<close>

definition MergeWalForTask ::
    "line list option option \<Rightarrow> string \<Rightarrow> string \<Rightarrow> NodeManager \<Rightarrow> (string \<times> string) option go \<times> NodeManager" where
  "MergeWalForTask wal oldTaskID keepTaskID nm =
     (if oldTaskID = [] \<or> keepTaskID = [] then (Inl (GoError ''oldTaskID or keepTaskID is empty''), nm)
      else
        let oldWal = ''wal-'' @ oldTaskID @ ''.log''; keepWal = ''wal-'' @ keepTaskID @ ''.log''
        in case wal of
            None \<Rightarrow> (Inr None, nm)
          | Some None \<Rightarrow> (Inl (GoError ''failed to stat WAL file''), nm)
          | Some (Some ls) \<Rightarrow> (Inr (Some (oldWal, keepWal)), upd_eom keepTaskID (mergeStateFromLocalWal ls) nm))"

text \<open>\<open>dir\<close> is the server's local directory; its last element names the VM.\<close>

record TaskProcessInfo =
  pi_TaskID :: string
  pi_PID :: int
  pi_Stage :: int
  pi_OpExe :: string
  pi_VM :: string

definition task_process_info :: "string \<Rightarrow> NodeManager \<Rightarrow> TaskInfo \<Rightarrow> TaskProcessInfo" where
  "task_process_info dir nm ti =
     \<lparr>pi_TaskID = ti_TaskID ti, pi_PID = ti_PID ti, pi_Stage = tk_Stage (ti_Task ti),
      pi_OpExe = (case stageOpOf (nm_JobSpec nm) (tk_Stage (ti_Task ti)) of None \<Rightarrow> [] | Some op \<Rightarrow> so_Exe op),
      pi_VM = (if dir = [] then [] else Base dir)\<rparr>"

definition NM_ListTasks :: "string \<Rightarrow> string list \<Rightarrow> NodeManager \<Rightarrow> TaskProcessInfo list" where
  "NM_ListTasks dir ids nm = map (\<lambda>(_, ti). task_process_info dir nm ti) (entries ids (nm_TaskInfos nm))"

definition NM_StartStreaming :: "string list \<Rightarrow> NodeManager \<Rightarrow> go_err option" where
  "NM_StartStreaming ids nm =
     (case find (\<lambda>i. nm_TaskInfos nm i \<noteq> None \<and> nm_TaskStatus nm i \<notin> {None, Some TaskRunning}) ids of
        None \<Rightarrow> None
      | Some i \<Rightarrow> Some (GoError (''task '' @ i @ '' is not ready'')))"

end
