(* ===== verification/StreamNode.thy ===== *)
theory StreamNode imports NodeManager begin

text \<open>
  What the node manager guarantees: the contract \<open>growing\<close> of the manager operations it applies to its
  tasks, the step relation of a node with its reachable states, at-most-once input to every task,
  and the order in which a task's outputs and its completion reach the log.
\<close>

subsection \<open>Operations that never forget a received tuple\<close>

definition grows :: "EOM \<Rightarrow> EOM \<Rightarrow> bool" where
  "grows e e' \<longleftrightarrow> eom_isSource e' = eom_isSource e \<and> dom (eom_received e) \<subseteq> dom (eom_received e')"

lemma grows_refl [simp]: "grows e e"
  by (simp add: grows_def)

lemma grows_trans: "grows a b \<Longrightarrow> grows b c \<Longrightarrow> grows a c"
  by (auto simp: grows_def)

text \<open>A task with a manager was given no tuple twice, and the manager knows all it was given.\<close>

definition task_inv :: "TaskInfo \<Rightarrow> bool" where
  "task_inv ti \<longleftrightarrow> (case ti_EOM ti of
     None \<Rightarrow> True
   | Some e \<Rightarrow> \<not> eom_isSource e \<and> distinct (map tp_ID (ti_Stdin ti)) \<and>
       tp_ID ` set (ti_Stdin ti) \<subseteq> dom (eom_received e))"

definition nm_inv :: "NodeManager \<Rightarrow> bool" where
  "nm_inv nm \<longleftrightarrow> (\<forall>i ti. nm_TaskInfos nm i = Some ti \<longrightarrow> task_inv ti)"

lemma upd_eom_inv:
  assumes "nm_inv nm" and "\<And>ti e. nm_TaskInfos nm i = Some ti \<Longrightarrow> ti_EOM ti = Some e \<Longrightarrow> grows e (f e)"
  shows "nm_inv (upd_eom i f nm)"
proof (cases "nm_TaskInfos nm i")
  case None
  with assms(1) show ?thesis by (simp add: upd_eom_def)
next
  case (Some ti)
  have "task_inv ti" using assms(1) Some by (simp add: nm_inv_def)
  then have "task_inv (ti\<lparr>ti_EOM := map_option f (ti_EOM ti)\<rparr>)"
  proof (cases "ti_EOM ti")
    case (Some e)
    have "grows e (f e)" using assms(2) \<open>nm_TaskInfos nm i = Some ti\<close> Some by blast
    with Some \<open>task_inv ti\<close> show ?thesis by (simp add: task_inv_def grows_def) blast
  qed (simp add: task_inv_def)
  with assms(1) Some show ?thesis by (simp add: nm_inv_def upd_eom_def)
qed

locale growing =
  fixes op :: "'p \<Rightarrow> EOM \<Rightarrow> EOM"
  assumes op_grows: "grows e (op p e)"
begin

lemma keeps_inv: "nm_inv nm \<Longrightarrow> nm_inv (upd_eom i (op p) nm)"
  by (rule upd_eom_inv, assumption, rule op_grows)

end

interpretation recv: growing "\<lambda>(now, t) e. snd (AddReceivedTuple now t e)"
  by unfold_locales (auto simp: grows_def AddReceivedTuple_def Let_def split: prod.splits)

interpretation expect: growing "\<lambda>(i, n) e. snd (SetExpectedOutputCount i n e)"
  by unfold_locales (auto simp: grows_def SetExpectedOutputCount_def logRecord_def Let_def split: option.splits if_splits)

interpretation incr: growing "\<lambda>i e. snd (IncrementOutputCount i e)"
  by unfold_locales (auto simp: grows_def IncrementOutputCount_def logRecord_def Let_def split: option.splits if_splits)

interpretation send: growing "\<lambda>(now, t, orig, dest). AddSentTuple now t orig dest"
  by unfold_locales (auto simp: grows_def AddSentTuple_def logRecord_def Let_def split: if_splits)

interpretation acked: growing RemoveSentTuple
  by unfold_locales (auto simp: grows_def RemoveSentTuple_def logRecord_def split: option.splits)

interpretation stopped: growing "\<lambda>_. EOM_Stop"
  by unfold_locales (simp add: grows_def EOM_Stop_def)

lemma replay_dom: "dom (fst v) \<subseteq> dom (fst (replay ls v))"
proof (induction ls arbitrary: v)
  case (Cons l ls)
  have "dom (fst v) \<subseteq> dom (fst (replay_line l v))"
    by (auto simp: replay_line_def split: line.split json.split option.split)
  with Cons [of "replay_line l v"] show ?case by (auto simp: replay_def)
qed (simp add: replay_def)

interpretation merged: growing mergeStateFromLocalWal
proof
  fix e ls
  show "grows e (mergeStateFromLocalWal ls e)"
    using replay_dom [of "(eom_received e, eom_sent e)" ls]
    by (simp add: grows_def mergeStateFromLocalWal_def case_prod_unfold Let_def)
qed

interpretation retried: growing "\<lambda>(now, iv, ids) e. snd (RetryPendingSends now iv ids e)"
proof
  fix e and p :: "time \<times> duration \<times> string list"
  obtain now iv ids where p: "p = (now, iv, ids)" by (cases p)
  show "grows e ((\<lambda>(now, iv, ids) e. snd (RetryPendingSends now iv ids e)) p e)"
    using RetryPendingSends_effect [of e now iv ids]
    by (auto simp: p only_sent_changed_def grows_def)
qed

interpretation flushed: growing "\<lambda>_ e. snd (snd (ackFlushTick e))"
  by unfold_locales (simp add: grows_def ackFlushTick_def)

subsection \<open>Every step of a node keeps the invariant\<close>

lemma incrementTaskMetrics_TaskInfos [simp]:
  "nm_TaskInfos (incrementTaskMetrics i a b c nm) = nm_TaskInfos nm"
  "nm_JobSpec (incrementTaskMetrics i a b c nm) = nm_JobSpec nm"
  by (simp_all add: incrementTaskMetrics_def Let_def)

lemma upd_eom_JobSpec [simp]: "nm_JobSpec (upd_eom i f nm) = nm_JobSpec nm"
  by (simp add: upd_eom_def split: option.splits)

lemma writeTuple_TaskInfos [simp]:
  "nm_TaskInfos (writeTupleToOutputFile t nm) = nm_TaskInfos nm"
  "nm_JobSpec (writeTupleToOutputFile t nm) = nm_JobSpec nm"
  by (simp_all add: writeTupleToOutputFile_def split: option.splits)

lemma nm_inv_cong: "nm_TaskInfos a = nm_TaskInfos b \<Longrightarrow> nm_inv a = nm_inv b"
  by (simp add: nm_inv_def)

lemma NewNodeManager_inv: "nm_inv (NewNodeManager addr)"
  by (simp add: nm_inv_def NewNodeManager_def)

lemma InitializeTask_inv:
  assumes "nm_inv nm"
  shows "nm_inv (fst (InitializeTask proc wal task jobSpec rate nm))"
proof -
  let ?nm = "case jobSpec of None \<Rightarrow> nm | Some _ \<Rightarrow> nm\<lparr>nm_JobSpec := jobSpec, nm_inputRate := rate\<rparr>"
  have i: "nm_inv ?nm" using assms by (simp add: nm_inv_def split: option.split)
  have "\<not> eom_isSource (NewExactlyOnceManager wal False f True t)" for f t
    by (simp add: NewExactlyOnceManager_def restoreFromLogs_def mergeStateFromLocalWal_def
        case_prod_unfold Let_def split: option.split)
  with i show ?thesis using assms
    by (auto simp: InitializeTask_def Let_def nm_inv_def task_inv_def split: sum.split option.splits)
qed

lemma init_loop_inv: "nm_inv nm \<Longrightarrow> nm_inv (fst (init_loop procs wals ts job rate nm))"
proof (induction procs wals ts job rate nm rule: init_loop.induct)
  case (2 procs wals taskID task ts job rate nm)
  have "nm_inv (fst (InitializeTask (procs taskID) (wals taskID) task job rate nm))"
    using 2(3) by (rule InitializeTask_inv)
  with 2 show ?case
    by (cases "InitializeTask (procs taskID) (wals taskID) task job rate nm")
      (auto split: option.split)
qed simp

lemma KillTaskProcess_inv: "nm_inv nm \<Longrightarrow> nm_inv (fst (KillTaskProcess k i nm))"
  using stopped.keeps_inv [of nm i]
  by (auto simp: KillTaskProcess_def nm_inv_def split: option.split)

lemma UpdateTopology_inv: "nm_inv nm \<Longrightarrow> nm_inv (UpdateTopology topo nm)"
  by (auto simp: nm_inv_def UpdateTopology_def task_inv_def split: option.splits if_splits)

lemma collect_inv: "nm_inv nm \<Longrightarrow> nm_inv (fst (collectAndSendMetrics now alive nm))"
  by (simp add: collectAndSendMetrics_def nm_inv_def Let_def)

lemma forward_inv:
  assumes "nm_inv nm" and "forwardTupleToDownstream now ord dlv i t orig nm = Inr (msgs, nm')"
  shows "nm_inv nm'"
proof (cases "nm_TaskInfos nm i")
  case (Some ti)
  have "nm_inv (upd_eom i (\<lambda>_. AddSentTuple now x orig d e) nm)" if "ti_EOM ti = Some e" for x d e
    by (rule upd_eom_inv [OF assms(1)]) (use send.op_grows [of e "(now, x, orig, d)"] that Some in auto)
  with assms Some show ?thesis
    by (auto simp: forwardTupleToDownstream_def SendTuple_def Let_def nm_inv_cong [of "incrementTaskMetrics _ _ _ _ _"]
        nm_inv_cong [of "writeTupleToOutputFile _ _"] split: if_splits prod.splits option.splits sum.splits)
qed (use assms in \<open>simp add: forwardTupleToDownstream_def\<close>)

lemma forward_all_inv:
  "nm_inv nm \<Longrightarrow> forward_all now ord dlv i orig ts nm = Inr (msgs, nm') \<Longrightarrow> nm_inv nm'"
proof (induction now ord dlv i orig ts nm arbitrary: msgs nm' rule: forward_all.induct)
  case (2 now ord dlv i orig t ts nm)
  then obtain m1 nm1 m2 where f: "forwardTupleToDownstream now ord dlv i (t\<lparr>tp_SenderID := i\<rparr>) orig nm = Inr (m1, nm1)"
    "forward_all now ord dlv i orig ts (upd_eom i (\<lambda>e. snd (IncrementOutputCount orig e)) nm1) = Inr (m2, nm')"
    by (auto split: sum.splits)
  have "nm_inv (upd_eom i (\<lambda>e. snd (IncrementOutputCount orig e)) nm1)"
    using forward_inv [OF 2(2) f(1)] by (rule incr.keeps_inv)
  then show ?case by (rule 2(1) [OF f(1) refl _ f(2)])
qed simp

lemma read_line_inv:
  assumes "nm_inv nm" and "read_line now ord dlv i l nm = Inr (msgs, nm')"
  shows "nm_inv nm'"
proof (cases "parse_output l")
  case (Some p)
  obtain orig ts where p: "p = (orig, ts)" by (cases p)
  let ?nm = "upd_eom i (\<lambda>e. snd (SetExpectedOutputCount orig (int (length ts)) e)) nm"
  have "nm_inv ?nm" using expect.keeps_inv [OF assms(1), of i "(orig, int (length ts))"] by simp
  moreover obtain m nm1 where "forward_all now ord dlv i orig ts ?nm = Inr (m, nm1)"
    "nm' = incrementTaskMetrics i True False False nm1"
    using assms(2) Some p by (auto simp: read_line_def Let_def split: sum.splits)
  ultimately show ?thesis using forward_all_inv nm_inv_cong [of nm' nm1] by auto
qed (use assms in \<open>simp add: read_line_def\<close>)

lemma handleTuple_inv:
  assumes "nm_inv nm" and "handleTupleMessage now wr payload (Some nm) = (r, msgs, Some nm')"
  shows "nm_inv nm'"
proof (cases "nm' = nm")
  case False
  obtain t ti where t: "Tuple_of_json payload = Some t" "nm_TaskInfos nm (tp_TaskID t) = Some ti"
    using assms(2) False by (auto simp: handleTupleMessage_def split: option.splits)
  let ?nm = "incrementTaskMetrics (tp_TaskID t) False False True nm"
  let ?nm1 = "upd_eom (tp_TaskID t) (\<lambda>e. snd (AddReceivedTuple now t e)) ?nm"
  have "nm_inv ?nm" using assms(1) nm_inv_cong [of ?nm nm] by simp
  then have inv1: "nm_inv ?nm1" using recv.keeps_inv [of ?nm "tp_TaskID t" "(now, t)"] by simp
  let ?ti = "ti\<lparr>ti_EOM := map_option (\<lambda>e. snd (AddReceivedTuple now t e)) (ti_EOM ti)\<rparr>"
  have ti1: "nm_TaskInfos ?nm1 (tp_TaskID t) = Some ?ti" using t(2) by (simp add: upd_eom_def)
  have fresh: "task_inv (?ti\<lparr>ti_Stdin := ti_Stdin ti @ [t]\<rparr>)"
    if "case ti_EOM ti of None \<Rightarrow> True | Some e \<Rightarrow> fst (AddReceivedTuple now t e)"
  proof (cases "ti_EOM ti")
    case (Some e)
    have "task_inv ti" using assms(1) t(2) by (simp add: nm_inv_def)
    with that Some show ?thesis
      by (auto simp: task_inv_def AddReceivedTuple_def Let_def split: if_splits)
  qed (simp add: task_inv_def)
  have "nm' = ?nm1 \<or> (nm' = ?nm1\<lparr>nm_TaskInfos := (nm_TaskInfos ?nm1)(tp_TaskID t \<mapsto> ?ti\<lparr>ti_Stdin := ti_Stdin ti @ [t]\<rparr>)\<rparr> \<and>
      (case ti_EOM ti of None \<Rightarrow> True | Some e \<Rightarrow> fst (AddReceivedTuple now t e)))"
    using assms(2) False t ti1 by (auto simp: handleTupleMessage_def Let_def split: if_splits option.splits)
  with inv1 fresh show ?thesis by (auto simp: nm_inv_def split: if_splits)
qed (use assms in simp)

lemma retry_send_inv: "nm_inv nm \<Longrightarrow> nm_inv (snd (retry_send now ord i st nm))"
proof -
  assume inv: "nm_inv nm"
  have "nm_inv (upd_eom i (\<lambda>_. AddSentTuple now x orig d e) nm)"
    if "nm_TaskInfos nm i = Some ti" "ti_EOM ti = Some e" for x d e orig ti
    by (rule upd_eom_inv [OF inv]) (use send.op_grows [of e "(now, x, orig, d)"] that in auto)
  with inv show ?thesis
    by (auto simp: retry_send_def SendTuple_def Let_def split: option.split prod.split)
qed

lemma retry_all_inv: "nm_inv nm \<Longrightarrow> nm_inv (snd (retry_all now ord i due nm))"
proof (induction now ord i due nm rule: retry_all.induct)
  case (2 now ord i d due nm)
  obtain m nm1 where r: "retry_send now ord i (snd d) nm = (m, nm1)" by fastforce
  have "nm_inv nm1" using retry_send_inv [OF 2(2), of now ord i "snd d"] r by simp
  with 2(1) [OF r [symmetric] refl] r show ?case by (simp add: case_prod_unfold Let_def)
qed simp

lemma task_retry_inv:
  assumes "nm_inv nm"
  shows "nm_inv (snd (task_retry now iv ord ids i nm))"
proof -
  have "nm_inv (upd_eom i (\<lambda>_. snd (RetryPendingSends now iv ids e)) nm)"
    if "nm_TaskInfos nm i = Some ti" "ti_EOM ti = Some e" for ti e
    by (rule upd_eom_inv [OF assms]) (use retried.op_grows [of e "(now, iv, ids)"] that in auto)
  then show ?thesis using assms
    by (simp add: task_retry_def case_prod_unfold retry_all_inv split: option.split)
qed

lemma task_flush_inv: "nm_inv nm \<Longrightarrow> nm_inv (snd (snd (task_flush i nm)))"
proof -
  assume inv: "nm_inv nm"
  have "nm_inv (upd_eom i (\<lambda>_. snd (snd (ackFlushTick e))) nm)"
    if "nm_TaskInfos nm i = Some ti" "ti_EOM ti = Some e" for ti e
    by (rule upd_eom_inv [OF inv]) (use flushed.op_grows that in auto)
  with inv show ?thesis by (simp add: task_flush_def case_prod_unfold split: option.split)
qed

lemma MergeWal_inv: "nm_inv nm \<Longrightarrow> nm_inv (snd (MergeWalForTask wal a b nm))"
  by (auto simp: MergeWalForTask_def Let_def merged.keeps_inv split: option.split)

lemma outputFlush_inv: "nm_inv nm \<Longrightarrow> nm_inv (snd (outputFlushTick nm))"
  by (auto simp: outputFlushTick_def nm_inv_def split: option.split)

subsection \<open>Reachable states\<close>

datatype event = Start | Topo | Kill string | TupleIn | OutLine | AckIn string | FlushWal
  | Retry | Merge string | Report | FlushOutput

inductive nm_step :: "event \<Rightarrow> NodeManager \<Rightarrow> NodeManager \<Rightarrow> bool" where
  start: "nm_step Start nm (fst (InitializeTask proc wal task jobSpec rate nm))"
| topo: "nm_step Topo nm (UpdateTopology topology nm)"
| kill: "nm_step (Kill i) nm (fst (KillTaskProcess killed i nm))"
| tuple_in: "handleTupleMessage now wr payload (Some nm) = (r, msgs, Some nm') \<Longrightarrow> nm_step TupleIn nm nm'"
| out_line: "read_line now ord dlv i l nm = Inr (msgs, nm') \<Longrightarrow> nm_step OutLine nm nm'"
| ack_in: "find_sender ids tupleID nm = Some i \<Longrightarrow> nm_step (AckIn tupleID) nm (upd_eom i (RemoveSentTuple tupleID) nm)"
| flush_wal: "nm_step FlushWal nm (snd (snd (task_flush i nm)))"
| retry: "nm_step Retry nm (snd (task_retry now interval ord ids i nm))"
| merge: "nm_step (Merge keep) nm (snd (MergeWalForTask wal old keep nm))"
| report: "nm_step Report nm (fst (collectAndSendMetrics now alive nm))"
| flush_output: "nm_step FlushOutput nm (snd (outputFlushTick nm))"

inductive_cases nm_stepE: "nm_step ev nm nm'"
inductive_simps nm_step_topo [simp]: "nm_step Topo nm nm'"

inductive nm_reachable :: "NodeManager \<Rightarrow> bool" where
  initial: "nm_reachable (NewNodeManager addr)"
| step: "nm_reachable nm \<Longrightarrow> nm_step ev nm nm' \<Longrightarrow> nm_reachable nm'"

lemma nm_step_inv: "nm_step ev nm nm' \<Longrightarrow> nm_inv nm \<Longrightarrow> nm_inv nm'"
  by (induction rule: nm_step.induct)
    (auto intro: InitializeTask_inv UpdateTopology_inv KillTaskProcess_inv handleTuple_inv read_line_inv
      acked.keeps_inv task_flush_inv task_retry_inv MergeWal_inv collect_inv outputFlush_inv)

text \<open>
  C2: at-most-once input: in every state a node can reach, no task with exactly-once
  tracking was handed two tuples with the same ID, however often senders retried, restarted or raced, and
  everything it was handed is known to its manager.
\<close>

theorem no_tuple_is_processed_twice:
  assumes "nm_reachable nm" and "nm_TaskInfos nm i = Some ti" and "ti_EOM ti = Some e"
  shows "distinct (map tp_ID (ti_Stdin ti)) \<and> tp_ID ` set (ti_Stdin ti) \<subseteq> dom (eom_received e)"
proof -
  have "nm_inv nm"
    using assms(1) by (induction rule: nm_reachable.induct) (auto intro: NewNodeManager_inv nm_step_inv)
  with assms(2) have "task_inv ti" by (simp add: nm_inv_def)
  with assms(3) show ?thesis by (simp add: task_inv_def)
qed

subsection \<open>A node's run on concrete input\<close>

definition streamJob :: JobSpec where
  "streamJob = \<lparr>js_NStages = 2, js_TasksPerStage = 1, js_StageOps = [\<lparr>so_Exe = ''a'', so_Args = []\<rparr>, \<lparr>so_Exe = ''b'', so_Args = []\<rparr>],
     js_SourceDir = [], js_DestFile = ''o'', js_SourceAddress = [], js_ExactlyOnce = True, js_Autoscale = False,
     js_InputRate = 1, js_LW = 0, js_HW = 0\<rparr>"

definition stage1Task :: Task where
  "stage1Task = \<lparr>tk_TaskID = ''t1'', tk_Stage = 1, tk_NodeID = ''n'', tk_Address = ''n'',
     tk_InputTasks = [''leader'' \<mapsto> ''l:1''], tk_OutputTargets = [''t2'' \<mapsto> ''m:1''], tk_ExactlyOnce = True, tk_AutoscaleMode = False\<rparr>"

definition nodeWithTask :: NodeManager where
  "nodeWithTask = fst (InitializeTask (Inr 7) None stage1Task (Some streamJob) 1 (NewNodeManager ''n''))"

definition inTuple :: Tuple where
  "inTuple = zeroTuple\<lparr>tp_ID := ''x'', tp_Key := ''k'', tp_SenderID := ''leader'', tp_TaskID := ''t1''\<rparr>"

definition nodeAfterTuple :: NodeManager where
  "nodeAfterTuple = the (snd (snd (handleTupleMessage 5 True (Tuple_to_json inTuple) (Some nodeWithTask))))"

lemma nodeAfterTuple_step:
  "handleTupleMessage 5 True (Tuple_to_json inTuple) (Some nodeWithTask) =
    (Inr ''Tuple routed to task'', [], Some nodeAfterTuple)"
  "\<exists>ti e. nm_TaskInfos nodeAfterTuple ''t1'' = Some ti \<and> ti_EOM ti = Some e \<and> ti_Stdin ti = [inTuple]"
  by (simp_all add: nodeAfterTuple_def nodeWithTask_def InitializeTask_def NewNodeManager_def stage1Task_def
      streamJob_def stageOpOf_def SplitHostPort_def handleTupleMessage_def inTuple_def zeroTuple_def Let_def
      upd_eom_def incrementTaskMetrics_def AddReceivedTuple_def NewExactlyOnceManager_def restoreFromLogs_def)

theorem no_tuple_is_processed_twice_witness:
  "\<exists>ti. nm_TaskInfos nodeAfterTuple ''t1'' = Some ti \<and> ti_Stdin ti = [inTuple] \<and> distinct (map tp_ID (ti_Stdin ti))"
proof -
  have "nm_reachable nodeWithTask"
    unfolding nodeWithTask_def by (rule step [OF initial start])
  then have "nm_reachable nodeAfterTuple" by (rule step [OF _ tuple_in [OF nodeAfterTuple_step(1)]])
  with nodeAfterTuple_step(2) show ?thesis using no_tuple_is_processed_twice by blast
qed

subsection \<open>No output is lost before its ACK\<close>

text \<open>
  \<open>evolution\<close>: a relation between the states of a manager that every operation a step applies to it
  respects; then the step respects it for every task of the node.
\<close>

definition evolves :: "(EOM \<Rightarrow> EOM \<Rightarrow> bool) \<Rightarrow> NodeManager \<Rightarrow> NodeManager \<Rightarrow> bool" where
  "evolves R nm nm' \<longleftrightarrow> (\<forall>i. rel_option
     (\<lambda>ti ti'. tk_TaskID (ti_Task ti') = tk_TaskID (ti_Task ti) \<and> rel_option R (ti_EOM ti) (ti_EOM ti'))
     (nm_TaskInfos nm i) (nm_TaskInfos nm' i))"

lemma evolvesD:
  assumes "evolves R nm nm'" "nm_TaskInfos nm i = Some ti" "ti_EOM ti = Some e"
  shows "\<exists>ti' e'. nm_TaskInfos nm' i = Some ti' \<and> ti_EOM ti' = Some e' \<and> R e e'"
  using assms(1) [unfolded evolves_def, rule_format, of i] assms(2,3)
  by (cases "nm_TaskInfos nm' i") (auto simp: option_rel_Some1)

text \<open>Backwards: every task afterwards was there before, under the same name.\<close>

lemma evolves_back:
  assumes "evolves R nm nm'" "nm_TaskInfos nm' i = Some ti'"
  obtains ti where "nm_TaskInfos nm i = Some ti" "tk_TaskID (ti_Task ti') = tk_TaskID (ti_Task ti)"
    "rel_option R (ti_EOM ti) (ti_EOM ti')"
  using assms(1) [unfolded evolves_def, rule_format, of i] assms(2)
  by (auto simp: option_rel_Some2)

locale evolution =
  fixes R :: "EOM \<Rightarrow> EOM \<Rightarrow> bool"
  assumes R_refl: "R e e"
    and R_trans: "R a b \<Longrightarrow> R b c \<Longrightarrow> R a c"
    and R_recv: "R e (snd (AddReceivedTuple now t e))"
    and R_expect: "R e (snd (SetExpectedOutputCount i n e))"
    and R_incr: "R e (snd (IncrementOutputCount i e))"
    and R_send: "R e (AddSentTuple now t orig dest e)"
    and R_retry: "R e (snd (RetryPendingSends now iv ids e))"
    and R_flush: "R e (snd (snd (ackFlushTick e)))"
begin

lemma same_tasks: "nm_TaskInfos nm' = nm_TaskInfos nm \<Longrightarrow> evolves R nm nm'"
  using R_refl by (simp add: evolves_def option.rel_refl)

lemma R_option_trans: "rel_option R x y \<Longrightarrow> rel_option R y z \<Longrightarrow> rel_option R x z"
  using R_trans by (cases x; cases y; cases z) auto

lemma evolves_trans: "evolves R a b \<Longrightarrow> evolves R b c \<Longrightarrow> evolves R a c"
proof -
  assume ab: "evolves R a b" and bc: "evolves R b c"
  show ?thesis unfolding evolves_def
  proof
    fix i
    show "rel_option (\<lambda>ti ti'. tk_TaskID (ti_Task ti') = tk_TaskID (ti_Task ti) \<and> rel_option R (ti_EOM ti) (ti_EOM ti'))
        (nm_TaskInfos a i) (nm_TaskInfos c i)"
      using ab [unfolded evolves_def, rule_format, of i] bc [unfolded evolves_def, rule_format, of i]
      by (cases "nm_TaskInfos a i"; cases "nm_TaskInfos b i"; cases "nm_TaskInfos c i") (auto intro: R_option_trans)
  qed
qed

lemma upd: "(\<And>ti e. nm_TaskInfos nm i = Some ti \<Longrightarrow> ti_EOM ti = Some e \<Longrightarrow> R e (f e)) \<Longrightarrow> evolves R nm (upd_eom i f nm)"
  using R_refl by (auto simp: evolves_def upd_eom_def option.rel_refl option.rel_map rel_option_iff split: option.splits)

lemma forward:
  "forwardTupleToDownstream now ord dlv i t orig nm = Inr (msgs, nm') \<Longrightarrow> evolves R nm nm'"
proof (cases "nm_TaskInfos nm i")
  case (Some ti)
  have "evolves R nm (upd_eom i (\<lambda>_. AddSentTuple now x orig d e) nm)" if "ti_EOM ti = Some e" for x d e
    by (rule upd) (use R_send that Some in auto)
  moreover have "evolves R nm (incrementTaskMetrics i False True False nm1)" if "evolves R nm nm1" for nm1
    using that by (rule evolves_trans) (simp add: same_tasks)
  moreover assume "forwardTupleToDownstream now ord dlv i t orig nm = Inr (msgs, nm')"
  ultimately show ?thesis using Some
    by (auto simp: forwardTupleToDownstream_def SendTuple_def Let_def same_tasks
        split: if_splits prod.splits option.splits sum.splits)
qed (simp add: forwardTupleToDownstream_def same_tasks)

lemma forward_all: "forward_all now ord dlv i orig ts nm = Inr (msgs, nm') \<Longrightarrow> evolves R nm nm'"
proof (induction now ord dlv i orig ts nm arbitrary: msgs nm' rule: forward_all.induct)
  case (2 now ord dlv i orig t ts nm)
  then obtain m1 nm1 m2 where f: "forwardTupleToDownstream now ord dlv i (t\<lparr>tp_SenderID := i\<rparr>) orig nm = Inr (m1, nm1)"
    "forward_all now ord dlv i orig ts (upd_eom i (\<lambda>e. snd (IncrementOutputCount orig e)) nm1) = Inr (m2, nm')"
    by (auto split: sum.splits)
  have "evolves R nm1 (upd_eom i (\<lambda>e. snd (IncrementOutputCount orig e)) nm1)" by (rule upd) (rule R_incr)
  from evolves_trans [OF forward [OF f(1)] this] 2(1) [OF f(1) refl f(2)]
  show ?case by (rule evolves_trans)
qed (simp add: same_tasks)

lemma out_line: "read_line now ord dlv i l nm = Inr (msgs, nm') \<Longrightarrow> evolves R nm nm'"
proof (cases "parse_output l")
  case (Some p)
  obtain orig ts where p: "p = (orig, ts)" by (cases p)
  let ?nm = "upd_eom i (\<lambda>e. snd (SetExpectedOutputCount orig (int (length ts)) e)) nm"
  assume "read_line now ord dlv i l nm = Inr (msgs, nm')"
  then obtain m nm1 where f: "forward_all now ord dlv i orig ts ?nm = Inr (m, nm1)"
    "nm' = incrementTaskMetrics i True False False nm1"
    using Some p by (auto simp: read_line_def Let_def split: sum.splits)
  have "evolves R nm ?nm" by (rule upd) (rule R_expect)
  from evolves_trans [OF this forward_all [OF f(1)]] show ?thesis
    unfolding f(2) by (rule evolves_trans) (simp add: same_tasks)
qed (simp add: read_line_def same_tasks)

lemma tuple_in:
  assumes "handleTupleMessage now wr payload (Some nm) = (r, msgs, Some nm')"
  shows "evolves R nm nm'"
proof (cases "nm' = nm")
  case False
  obtain t ti where t: "Tuple_of_json payload = Some t" "nm_TaskInfos nm (tp_TaskID t) = Some ti"
    using assms False by (auto simp: handleTupleMessage_def split: option.splits)
  let ?nm = "incrementTaskMetrics (tp_TaskID t) False False True nm"
  let ?nm1 = "upd_eom (tp_TaskID t) (\<lambda>e. snd (AddReceivedTuple now t e)) ?nm"
  have "evolves R nm ?nm" by (simp add: same_tasks)
  moreover have "evolves R ?nm ?nm1" by (rule upd) (rule R_recv)
  ultimately have e1: "evolves R nm ?nm1" by (rule evolves_trans)
  have "evolves R ?nm1 (?nm1\<lparr>nm_TaskInfos := (nm_TaskInfos ?nm1)(k \<mapsto> u\<lparr>ti_Stdin := x\<rparr>)\<rparr>)"
    if "nm_TaskInfos ?nm1 k = Some u" for k u x
    using that R_refl by (auto simp: evolves_def option.rel_refl)
  then have e2: "evolves R nm (?nm1\<lparr>nm_TaskInfos := (nm_TaskInfos ?nm1)(k \<mapsto> u\<lparr>ti_Stdin := x\<rparr>)\<rparr>)"
    if "nm_TaskInfos ?nm1 k = Some u" for k u x using evolves_trans [OF e1] that by blast
  show ?thesis using assms False t e1 e2 [of "tp_TaskID t"]
    by (simp add: handleTupleMessage_def Let_def split: if_splits option.splits) metis+
qed (simp add: same_tasks)

lemma wal_flushed: "evolves R nm (snd (snd (task_flush i nm)))"
proof -
  have "evolves R nm (upd_eom i (\<lambda>_. snd (snd (ackFlushTick e))) nm)"
    if "nm_TaskInfos nm i = Some ti" "ti_EOM ti = Some e" for ti e
    by (rule upd) (use R_flush that in auto)
  then show ?thesis by (simp add: task_flush_def case_prod_unfold same_tasks split: option.split)
qed

lemma retry_one_send: "evolves R nm (snd (retry_send now ord i st nm))"
proof -
  have "evolves R nm (upd_eom i (\<lambda>_. AddSentTuple now x orig d e) nm)"
    if "nm_TaskInfos nm i = Some ti" "ti_EOM ti = Some e" for x d e orig ti
    by (rule upd) (use R_send that in auto)
  then show ?thesis
    by (auto simp: retry_send_def SendTuple_def Let_def same_tasks split: option.split prod.split)
qed

lemma retry_sends: "evolves R nm (snd (retry_all now ord i due nm))"
proof (induction now ord i due nm rule: retry_all.induct)
  case (2 now ord i d due nm)
  obtain m nm1 where r: "retry_send now ord i (snd d) nm = (m, nm1)" by fastforce
  have "evolves R nm nm1" using retry_one_send [of nm now ord i "snd d"] r by simp
  from evolves_trans [OF this 2(1) [OF r [symmetric] refl]] r show ?case
    by (simp add: case_prod_unfold Let_def)
qed (simp add: same_tasks)

lemma retried: "evolves R nm (snd (task_retry now iv ord ids i nm))"
proof -
  have "evolves R nm (upd_eom i (\<lambda>_. snd (RetryPendingSends now iv ids e)) nm)"
    if "nm_TaskInfos nm i = Some ti" "ti_EOM ti = Some e" for ti e
    by (rule upd) (use R_retry that in auto)
  from evolves_trans [OF this retry_sends] show ?thesis
    by (simp add: task_retry_def case_prod_unfold same_tasks split: option.split)
qed

end

text \<open>An output that is waiting for its ACK keeps waiting, and a manager keeps its role.\<close>

definition keeps :: "string \<Rightarrow> EOM \<Rightarrow> EOM \<Rightarrow> bool" where
  "keeps t e e' \<longleftrightarrow> eom_isFinalStage e' = eom_isFinalStage e \<and> (eom_sent e t \<noteq> None \<longrightarrow> eom_sent e' t \<noteq> None)"

lemma retry_keeps: "keeps t e (snd (RetryPendingSends now iv ids e))"
proof -
  have "keeps t (snd p) (snd (fold (retry_one now iv) ids p))" for p
    by (induction ids arbitrary: p)
      (auto simp: keeps_def retry_one_def Let_def split: option.splits if_splits prod.splits)
  from this [of "([], e)"] show ?thesis by (simp add: RetryPendingSends_def keeps_def)
qed

interpretation pend: evolution "keeps t" for t
  using retry_keeps by unfold_locales
    (auto simp: keeps_def AddReceivedTuple_def SetExpectedOutputCount_def IncrementOutputCount_def
      AddSentTuple_def ackFlushTick_def logRecord_def Let_def split: option.splits if_splits)

interpretation known: evolution grows
  using recv.op_grows [of _ "(now, t)" for now t] expect.op_grows [of _ "(i, n)" for i n] incr.op_grows
    send.op_grows [of _ "(now, t, orig, dest)" for now t orig dest]
    retried.op_grows [of _ "(now, iv, ids)" for now iv ids] flushed.op_grows grows_trans
  by unfold_locales simp_all

text \<open>Runs of a node, with their events.\<close>

inductive nm_run :: "event list \<Rightarrow> NodeManager \<Rightarrow> NodeManager \<Rightarrow> bool" where
  stop: "nm_run [] nm nm"
| next_step: "nm_step ev nm nm1 \<Longrightarrow> nm_run evs nm1 nm' \<Longrightarrow> nm_run (ev # evs) nm nm'"

definition tracked :: "(EOM \<Rightarrow> bool) \<Rightarrow> string \<Rightarrow> NodeManager \<Rightarrow> bool" where
  "tracked P i nm \<longleftrightarrow> (case nm_TaskInfos nm i of
     None \<Rightarrow> False
   | Some ti \<Rightarrow> (case ti_EOM ti of None \<Rightarrow> False | Some e \<Rightarrow> P e))"

lemma tracked_evolves:
  "evolves R nm nm' \<Longrightarrow> (\<And>e e'. R e e' \<Longrightarrow> P e \<Longrightarrow> P e') \<Longrightarrow> tracked P i nm \<Longrightarrow> tracked P i nm'"
  by (fastforce simp: tracked_def dest: evolvesD split: option.splits)

lemma tracked_upd_other: "j \<noteq> i \<Longrightarrow> tracked P i (upd_eom j f nm) = tracked P i nm"
  by (simp add: tracked_def upd_eom_def split: option.split)

lemma tracked_same_tasks: "nm_TaskInfos a = nm_TaskInfos b \<Longrightarrow> tracked P i a = tracked P i b"
  by (simp add: tracked_def)

lemma tracked_start: "tracked P i nm \<Longrightarrow> tracked P i (fst (InitializeTask proc wal task job rate nm))"
  by (auto simp: tracked_def InitializeTask_def Let_def split: option.splits sum.splits)

lemma tracked_topo: "tracked P i nm \<Longrightarrow> tracked P i (UpdateTopology topology nm)"
  by (auto simp: tracked_def UpdateTopology_def split: option.splits)

lemma tracked_kill: "j \<noteq> i \<Longrightarrow> tracked P i nm \<Longrightarrow> tracked P i (fst (KillTaskProcess k j nm))"
  using tracked_upd_other [of j i P EOM_Stop nm]
  by (auto simp: KillTaskProcess_def tracked_def split: option.splits)

lemma tracked_quiet:
  "tracked P i (fst (collectAndSendMetrics now alive nm)) = tracked P i nm"
  "tracked P i (snd (outputFlushTick nm)) = tracked P i nm"
  by (auto simp: collectAndSendMetrics_def outputFlushTick_def Let_def intro!: tracked_same_tasks split: option.splits)

lemma tracked_upd_same:
  "(\<And>e. P e \<Longrightarrow> P (f e)) \<Longrightarrow> tracked P i nm \<Longrightarrow> tracked P i (upd_eom j f nm)"
  by (cases "j = i") (auto simp: tracked_def upd_eom_def split: option.splits)

lemma tracked_merge:
  "(\<forall>e wal. P e \<longrightarrow> P (mergeStateFromLocalWal wal e)) \<or> keep \<noteq> i \<Longrightarrow> tracked P i nm \<Longrightarrow>
    tracked P i (snd (MergeWalForTask wal old keep nm))"
  using tracked_upd_same [of P] tracked_upd_other [of keep i P]
  by (auto simp: MergeWalForTask_def Let_def split: option.splits)

definition waiting :: "string \<Rightarrow> EOM \<Rightarrow> bool" where
  "waiting t e \<longleftrightarrow> GetSentTuple t e \<noteq> None"

lemma waiting_keeps: "keeps t e e' \<Longrightarrow> waiting t e \<Longrightarrow> waiting t e'"
  by (auto simp: waiting_def keeps_def GetSentTuple_def)

lemma waiting_step:
  "nm_step ev nm nm' \<Longrightarrow> ev \<notin> {AckIn t, Kill i, Merge i} \<Longrightarrow> tracked (waiting t) i nm \<Longrightarrow> tracked (waiting t) i nm'"
proof (induction rule: nm_step.induct)
  case (ack_in ids tid nm j)
  then have "waiting t e \<Longrightarrow> waiting t (RemoveSentTuple tid e)" for e
    by (auto simp: waiting_def GetSentTuple_def RemoveSentTuple_def logRecord_def split: option.splits)
  with ack_in show ?case by (intro tracked_upd_same) auto
next
  case merge
  then show ?case by (intro tracked_merge) auto
qed (use waiting_keeps in \<open>auto intro: tracked_start tracked_topo tracked_kill
    tracked_evolves [OF pend.tuple_in] tracked_evolves [OF pend.out_line]
    tracked_evolves [OF pend.wal_flushed] tracked_evolves [OF pend.retried] simp: tracked_quiet\<close>)


definition knows :: "string \<Rightarrow> EOM \<Rightarrow> bool" where
  "knows k e \<longleftrightarrow> \<not> eom_isSource e \<and> eom_received e k \<noteq> None"

lemma knows_grows: "grows a b \<Longrightarrow> knows k a \<Longrightarrow> knows k b"
  by (auto simp: knows_def grows_def dom_def)

lemma knows_step:
  "nm_step ev nm nm' \<Longrightarrow> ev \<noteq> Kill i \<Longrightarrow> tracked (knows k) i nm \<Longrightarrow> tracked (knows k) i nm'"
proof (induction rule: nm_step.induct)
  case (ack_in ids tid nm j)
  then show ?case by (intro tracked_upd_same) (auto intro: knows_grows [OF acked.op_grows])
next
  case merge
  then show ?case by (intro tracked_merge) (auto intro: knows_grows [OF merged.op_grows])
qed (use knows_grows in \<open>auto intro: tracked_start tracked_topo tracked_kill
    tracked_evolves [OF known.tuple_in] tracked_evolves [OF known.out_line]
    tracked_evolves [OF known.wal_flushed] tracked_evolves [OF known.retried] simp: tracked_quiet\<close>)


subsection \<open>What a line of output does to the log\<close>

text \<open>The tuple and log record that one output becomes.\<close>

definition out_tuple :: "visit \<Rightarrow> string \<Rightarrow> Task \<Rightarrow> Tuple \<Rightarrow> Tuple" where
  "out_tuple ord i task t = t\<lparr>tp_SenderID := i,
     tp_TaskID := fst (selectDownstreamTask (ord (tk_OutputTargets task)) (tk_OutputTargets task) (tp_Key t)),
     tp_EOF := None\<rparr>"

definition out_dest :: "visit \<Rightarrow> Task \<Rightarrow> Tuple \<Rightarrow> string" where
  "out_dest ord task t =
     snd (selectDownstreamTask (ord (tk_OutputTargets task)) (tk_OutputTargets task) (tp_Key t))"

definition out_sent :: "time \<Rightarrow> visit \<Rightarrow> string \<Rightarrow> Task \<Rightarrow> string \<Rightarrow> Tuple \<Rightarrow> SentTuple" where
  "out_sent now ord i task orig t = \<lparr>st_Tuple = Some (out_tuple ord i task t), st_SentAt = now,
     st_OriginalID = orig, st_Destination = out_dest ord task t\<rparr>"

text \<open>The downstream choice of a task whose targets all have names and addresses.\<close>

definition linked :: "visit \<Rightarrow> Task \<Rightarrow> bool" where
  "linked ord task \<longleftrightarrow> ord (tk_OutputTargets task) \<noteq> [] \<and>
     (\<forall>j \<in> set (ord (tk_OutputTargets task)). j \<noteq> [] \<and>
        (\<exists>a. tk_OutputTargets task j = Some a \<and> a \<noteq> []))"

lemma linked_choice:
  assumes "linked ord task"
  shows "fst (selectDownstreamTask (ord (tk_OutputTargets task)) (tk_OutputTargets task) k) \<noteq> []"
    and "snd (selectDownstreamTask (ord (tk_OutputTargets task)) (tk_OutputTargets task) k) \<noteq> []"
proof -
  let ?ids = "ord (tk_OutputTargets task)"
  let ?c = "sortStrings ?ids ! (unat (hashKey k) mod length (sortStrings ?ids))"
  have ne: "?ids \<noteq> []" using assms by (simp add: linked_def)
  then have "?c \<in> set (sortStrings ?ids)" by (intro nth_mem) simp
  then have "?c \<in> set ?ids" by (simp add: ids_sort.srt_set)
  then have "?c \<noteq> [] \<and> (\<exists>a. tk_OutputTargets task ?c = Some a \<and> a \<noteq> [])"
    using assms unfolding linked_def by blast
  with ne show "fst (selectDownstreamTask ?ids (tk_OutputTargets task) k) \<noteq> []"
    and "snd (selectDownstreamTask ?ids (tk_OutputTargets task) k) \<noteq> []"
    by (auto simp: selectDownstreamTask_def Let_def)
qed

text \<open>A forwarding task: not of the final stage, linked, with a manager.\<close>

definition forwards :: "visit \<Rightarrow> string \<Rightarrow> Task \<Rightarrow> EOM \<Rightarrow> NodeManager \<Rightarrow> bool" where
  "forwards ord i task e nm \<longleftrightarrow> (\<exists>ti. nm_TaskInfos nm i = Some ti \<and> ti_Task ti = task \<and> ti_EOM ti = Some e) \<and>
     \<not> isFinalStage nm task \<and> \<not> eom_isFinalStage e \<and> linked ord task"

lemma isFinalStage_cong: "nm_JobSpec a = nm_JobSpec b \<Longrightarrow> isFinalStage a task = isFinalStage b task"
  by (simp add: isFinalStage_def)

lemma forwards_upd:
  "forwards ord i task e nm \<Longrightarrow> eom_isFinalStage (f e) = eom_isFinalStage e \<Longrightarrow> forwards ord i task (f e) (upd_eom i f nm)"
  by (auto simp: forwards_def upd_eom_def isFinalStage_def)

lemma forwards_metrics:
  "forwards ord i task e (incrementTaskMetrics j a b c nm) = forwards ord i task e nm"
  by (simp add: forwards_def isFinalStage_def)

lemma forward_step:
  assumes "forwards ord i task e nm"
  shows "\<exists>nm'. forwardTupleToDownstream now ord dlv i (t\<lparr>tp_SenderID := i\<rparr>) orig nm =
      Inr ([TupleMsg (out_dest ord task t) (out_tuple ord i task t)], nm') \<and>
    forwards ord i task (AddSentTuple now (out_tuple ord i task t) orig (out_dest ord task t) e) nm'"
proof -
  let ?x = "out_tuple ord i task t" and ?d = "out_dest ord task t"
  obtain ti where ti: "nm_TaskInfos nm i = Some ti" "ti_Task ti = task" "ti_EOM ti = Some e"
    "\<not> isFinalStage nm task" "linked ord task"
    using assms by (auto simp: forwards_def)
  let ?nm = "upd_eom i (\<lambda>_. AddSentTuple now ?x orig ?d e) nm"
  have f: "forwards ord i task (AddSentTuple now ?x orig ?d e) ?nm"
    using forwards_upd [OF assms, of "\<lambda>_. AddSentTuple now ?x orig ?d e"]
    by (simp add: AddSentTuple_def logRecord_def Let_def)
  have "forwardTupleToDownstream now ord dlv i (t\<lparr>tp_SenderID := i\<rparr>) orig nm =
      Inr ([TupleMsg ?d ?x], if dlv (TupleMsg ?d ?x) then incrementTaskMetrics i False True False ?nm else ?nm)"
    using ti linked_choice [OF ti(5), of "tp_Key t"]
    by (simp add: forwardTupleToDownstream_def SendTuple_def out_tuple_def out_dest_def case_prod_unfold Let_def)
  with f forwards_metrics show ?thesis by auto
qed

lemma forwards_entry: "forwards ord i task e nm \<Longrightarrow> tracked ((=) e) i nm"
  by (auto simp: forwards_def tracked_def)

definition out_lines :: "time \<Rightarrow> visit \<Rightarrow> string \<Rightarrow> Task \<Rightarrow> string \<Rightarrow> Tuple list \<Rightarrow> line list" where
  "out_lines now ord i task orig ts =
     map (\<lambda>t. sent_line (tp_ID t) (out_sent now ord i task orig t)) ts"

definition out_messages :: "visit \<Rightarrow> string \<Rightarrow> Task \<Rightarrow> Tuple list \<Rightarrow> message list" where
  "out_messages ord i task ts = map (\<lambda>t. TupleMsg (out_dest ord task t) (out_tuple ord i task t)) ts"

text \<open>The loop over the outputs, when the outputs still to come are exactly those expected.\<close>

lemma forward_all_completes:
  assumes "forwards ord i task e nm" and "\<not> eom_isSource e" "eom_received e orig = Some rt"
    and "rt_OutputCount rt + int (length ts) = rt_ExpectedOutputs rt" "ts \<noteq> []" "0 \<le> rt_OutputCount rt"
  shows "\<exists>nm' e' rt'. forward_all now ord dlv i orig ts nm = Inr (out_messages ord i task ts, nm') \<and>
    forwards ord i task e' nm' \<and> eom_received e' = (eom_received e)(orig \<mapsto> rt') \<and> rt_Processed rt' \<and>
    eom_pendingAcks e' = eom_pendingAcks e @ [orig] \<and>
    eom_writeBuffer e' = eom_writeBuffer e @ out_lines now ord i task orig ts @ [rec_line orig rt']"
  using assms
proof (induction ts arbitrary: nm e rt)
  case (Cons t ts)
  let ?x = "out_tuple ord i task t" and ?d = "out_dest ord task t"
  let ?e = "AddSentTuple now ?x orig ?d e"
  have final: "\<not> eom_isFinalStage e" using Cons.prems(1) by (simp add: forwards_def)
  have x: "tp_ID ?x = tp_ID t" by (simp add: out_tuple_def)
  have e: "?e = e\<lparr>eom_sent := (eom_sent e)(tp_ID t \<mapsto> out_sent now ord i task orig t),
      eom_writeBuffer := eom_writeBuffer e @ [sent_line (tp_ID t) (out_sent now ord i task orig t)]\<rparr>"
    using final by (simp add: AddSentTuple_def Let_def x out_sent_def eom_facts)
  obtain nm1 where f: "forwardTupleToDownstream now ord dlv i (t\<lparr>tp_SenderID := i\<rparr>) orig nm =
      Inr ([TupleMsg ?d ?x], nm1)" "forwards ord i task ?e nm1"
    using forward_step [OF Cons.prems(1)] by blast
  let ?rt = "rt\<lparr>rt_OutputCount := rt_OutputCount rt + 1\<rparr>"
  let ?e2 = "snd (IncrementOutputCount orig ?e)"
  have f2: "forwards ord i task ?e2 (upd_eom i (\<lambda>e. snd (IncrementOutputCount orig e)) nm1)"
    by (rule forwards_upd [OF f(2)])
      (use Cons.prems in \<open>simp add: e IncrementOutputCount_def logRecord_def Let_def\<close>)
  show ?case
  proof (cases ts)
    case Nil
    let ?rt' = "?rt\<lparr>rt_Processed := True\<rparr>"
    have "?e2 = ?e\<lparr>eom_received := (eom_received e)(orig \<mapsto> ?rt'),
        eom_writeBuffer := eom_writeBuffer ?e @ [rec_line orig ?rt'],
        eom_pendingAcks := eom_pendingAcks e @ [orig]\<rparr>"
      using Cons.prems(2-4,6) Nil by (simp add: e IncrementOutputCount_def Let_def eom_facts)
    then have "eom_received ?e2 = (eom_received e)(orig \<mapsto> ?rt')" "rt_Processed ?rt'"
      "eom_pendingAcks ?e2 = eom_pendingAcks e @ [orig]"
      "eom_writeBuffer ?e2 = eom_writeBuffer e @ out_lines now ord i task orig [t] @ [rec_line orig ?rt']"
      by (simp_all add: e out_lines_def)
    moreover have "forward_all now ord dlv i orig (t # ts) nm =
        Inr (out_messages ord i task (t # ts), upd_eom i (\<lambda>e. snd (IncrementOutputCount orig e)) nm1)"
      using f(1) Nil by (simp add: out_messages_def)
    ultimately show ?thesis using f2 unfolding Nil by blast
  next
    case (Cons u us)
    have e2: "?e2 = ?e\<lparr>eom_received := (eom_received e)(orig \<mapsto> ?rt)\<rparr>"
      using Cons.prems(2-4,6) Cons by (simp add: e IncrementOutputCount_def Let_def)
    have "\<exists>nm' e' rt'. forward_all now ord dlv i orig ts (upd_eom i (\<lambda>e. snd (IncrementOutputCount orig e)) nm1) =
        Inr (out_messages ord i task ts, nm') \<and>
      forwards ord i task e' nm' \<and> eom_received e' = (eom_received ?e2)(orig \<mapsto> rt') \<and> rt_Processed rt' \<and>
      eom_pendingAcks e' = eom_pendingAcks ?e2 @ [orig] \<and>
      eom_writeBuffer e' = eom_writeBuffer ?e2 @ out_lines now ord i task orig ts @ [rec_line orig rt']"
      by (rule Cons.IH [OF f2, of ?rt]) (use Cons.prems(2-4,6) Cons in \<open>simp_all add: e e2 [unfolded e]\<close>)
    then obtain nm' e' rt' where r: "forward_all now ord dlv i orig ts (upd_eom i (\<lambda>e. snd (IncrementOutputCount orig e)) nm1) =
        Inr (out_messages ord i task ts, nm')"
      "forwards ord i task e' nm'" "eom_received e' = (eom_received ?e2)(orig \<mapsto> rt')" "rt_Processed rt'"
      "eom_pendingAcks e' = eom_pendingAcks ?e2 @ [orig]"
      "eom_writeBuffer e' = eom_writeBuffer ?e2 @ out_lines now ord i task orig ts @ [rec_line orig rt']" by blast
    have "forward_all now ord dlv i orig (t # ts) nm = Inr (out_messages ord i task (t # ts), nm')"
      using f(1) r(1) by (simp add: out_messages_def)
    moreover have "eom_received e' = (eom_received e)(orig \<mapsto> rt')" using r(3) by (simp add: e e2 [unfolded e])
    moreover have "eom_writeBuffer e' = eom_writeBuffer e @ out_lines now ord i task orig (t # ts) @ [rec_line orig rt']"
      using r(6) by (simp add: e e2 [unfolded e] out_lines_def)
    moreover have "eom_pendingAcks e' = eom_pendingAcks e @ [orig]" using r(5) by (simp add: e e2 [unfolded e])
    ultimately show ?thesis using r(2,4) by blast
  qed
qed simp

definition output_line :: "string \<Rightarrow> Tuple list \<Rightarrow> line" where
  "output_line orig ts = Line (JObj [(''OriginalTupleId'', JStr orig), (''OutputTuples'', JArr (map Tuple_to_json ts))])"

lemma parse_output_line: "orig \<noteq> [] \<Longrightarrow> parse_output (output_line orig ts) = Some (orig, ts)"
proof -
  have "all_some (map (Tuple_of_json \<circ> Tuple_to_json) ts) = Some ts" by (induction ts) simp_all
  then show "orig \<noteq> [] \<Longrightarrow> parse_output (output_line orig ts) = Some (orig, ts)"
    by (simp add: parse_output_def output_line_def json_key_def)
qed


subsection \<open>The instances\<close>

lemmas node_eval = nodeWithTask_def InitializeTask_def NewNodeManager_def stage1Task_def streamJob_def
  stageOpOf_def SplitHostPort_def handleTupleMessage_def inTuple_def zeroTuple_def Let_def upd_eom_def
  incrementTaskMetrics_def AddReceivedTuple_def NewExactlyOnceManager_def restoreFromLogs_def

lemma nodeAfterTuple_facts:
  "\<exists>e rt. forwards (\<lambda>_. [''t2'']) ''t1'' stage1Task e nodeAfterTuple \<and> \<not> eom_isSource e \<and>
     eom_received e ''x'' = Some rt \<and> rt_OutputCount rt = 0"
  by (simp add: nodeAfterTuple_def node_eval forwards_def linked_def isFinalStage_def)


lemma UpdateTopology_empty: "UpdateTopology (NewTopology j) nm = nm"
proof -
  have "nm_TaskInfos (UpdateTopology (NewTopology j) nm) = nm_TaskInfos nm"
    by (rule ext) (simp add: UpdateTopology_def NewTopology_def split: option.split)
  then show ?thesis by (simp add: UpdateTopology_def)
qed


text \<open>A task restarted with an output that was never acknowledged.\<close>

definition nodeRestored :: NodeManager where
  "nodeRestored = fst (InitializeTask (Inr 7)
     (Some [sent_line ''y'' \<lparr>st_Tuple = Some zeroTuple, st_SentAt = 0, st_OriginalID = ''x'', st_Destination = ''m:1''\<rparr>])
     stage1Task (Some streamJob) 1 (NewNodeManager ''n''))"

lemma nodeRestored_waits: "tracked (waiting ''y'') ''t1'' nodeRestored"
  by (simp add: nodeRestored_def node_eval tracked_def waiting_def GetSentTuple_def isFinalStage_def
      mergeStateFromLocalWal_def replay_def replay_line_def sent_line_def field_def case_prod_unfold)


subsection \<open>Where delivery guarantees end\<close>

text \<open>
  A job without exactly-once tracking and autoscaling has no manager, and the first output of a task
  that is not of the final stage takes the process down.
\<close>

lemma untracked_output_panics:
  assumes "nm_TaskInfos nm i = Some ti" "ti_EOM ti = None" "\<not> isFinalStage nm (ti_Task ti)" "linked ord (ti_Task ti)"
  shows "forwardTupleToDownstream now ord dlv i t orig nm = Inl (GoPanic ''nil pointer dereference'')"
  using assms linked_choice [OF assms(4), of "tp_Key t"]
  by (simp add: forwardTupleToDownstream_def SendTuple_def case_prod_unfold Let_def)

text \<open>A tuple whose write to the task's input failed is recorded all the same: its retry is ACKed, not processed.\<close>

lemma failed_input_write_is_acked:
  assumes "nm_TaskInfos nm (tp_TaskID t) = Some ti" "ti_EOM ti = Some e" "\<not> eom_isSource e"
    and "eom_received e (tp_ID t) = None" "nm_TaskStatus nm (tp_TaskID t) = Some TaskRunning"
    and "handleTupleMessage now False (Tuple_to_json t) (Some nm) = (r, msgs, Some nm')"
  shows "fst (handleTupleMessage now' True (Tuple_to_json t) (Some nm')) = Inr ''Duplicate tuple - ACK sent''"
proof -
  have "nm' = upd_eom (tp_TaskID t) (\<lambda>e. snd (AddReceivedTuple now t e))
      (incrementTaskMetrics (tp_TaskID t) False False True nm)"
    using assms by (auto simp: handleTupleMessage_def Let_def AddReceivedTuple_def split: if_splits)
  moreover have "nm_TaskStatus (incrementTaskMetrics i a b c nm) = nm_TaskStatus nm" for i a b c
    by (simp add: incrementTaskMetrics_def Let_def)
  ultimately show ?thesis using assms(1-5)
    by (simp add: handleTupleMessage_def Let_def AddReceivedTuple_def upd_eom_def)
qed

end
