(* ===== verification/Leader.thy ===== *)
theory Leader imports StreamNode begin

text \<open>
  \<open>leader.go\<close> and \<open>resource_manager.go\<close>: job submission, topology updates, the health monitor,
  the source, and autoscaling, with the RPC handlers of \<open>rpc_server.go\<close> they call on the
  nodes. The world is the leader's state, the node managers of the nodes that answer, by address, and
  the HyDFS appends requested by log merges. The record \<open>lenv\<close> collects what the outside decides:
  the clock, which node is the introducer, whether processes start and are killed, the logs found, and the orders in which Go visits its maps.
  Throughputs are rational numbers. The \<open>Nodes\<close> map of the Go struct is never used.
\<close>

record Leader =
  ld_Topology :: "Topology option"
  ld_JobSpec :: "JobSpec option"
  ld_Metrics :: "string \<rightharpoonup> TaskMetrics"
  ld_Assignments :: "string \<rightharpoonup> string"
  ld_addr :: string
  ld_members :: MembershipList
  ld_TaskStatuses :: "string \<rightharpoonup> TaskStatus"
  ld_EOM :: "EOM option"
  ld_nextScaleNode :: nat

record World =
  w_leader :: Leader
  w_nodes :: "string \<rightharpoonup> NodeManager"
  w_appends :: "(string \<times> string) list"

record lenv =
  le_now :: time
  le_introducer :: "string \<Rightarrow> bool"
  le_procs :: "string \<Rightarrow> string \<Rightarrow> string + int"
  le_wals :: "string \<Rightarrow> line list option"
  le_kill :: "string \<Rightarrow> string \<Rightarrow> string option"
  le_merge :: "string \<Rightarrow> line list option option"
  le_tasks :: "(string \<rightharpoonup> Task) \<Rightarrow> string list"
  le_asg :: "(string \<rightharpoonup> string) \<Rightarrow> string list"
  le_metrics :: "(string \<rightharpoonup> TaskMetrics) \<Rightarrow> string list"
  le_statuses :: "(string \<rightharpoonup> TaskStatus) \<Rightarrow> string list"

type_synonym cmd = "World \<Rightarrow> go_err option \<times> World"

definition NewLeader :: "string \<Rightarrow> MembershipList \<Rightarrow> Leader" where
  "NewLeader addr members =
     \<lparr>ld_Topology = None, ld_JobSpec = None, ld_Metrics = Map.empty, ld_Assignments = Map.empty,
      ld_addr = addr, ld_members = members, ld_TaskStatuses = Map.empty, ld_EOM = None, ld_nextScaleNode = 0\<rparr>"

definition upd_leader :: "(Leader \<Rightarrow> Leader) \<Rightarrow> World \<Rightarrow> World" where
  "upd_leader f w = w\<lparr>w_leader := f (w_leader w)\<rparr>"

text \<open>Sequencing of steps that may fail.\<close>

definition bind_cmd :: "cmd \<Rightarrow> cmd \<Rightarrow> cmd" where
  "bind_cmd a b w = (case a w of (None, w') \<Rightarrow> b w' | (Some e, w') \<Rightarrow> (Some e, w'))"

definition GoErr :: "string \<Rightarrow> go_err option" where
  "GoErr s = Some (GoError s)"

subsection \<open>Calls to the nodes\<close>

text \<open>An RPC to a node: it fails if the node does not answer or reports an error.\<close>

definition call_nm :: "string \<Rightarrow> (NodeManager \<Rightarrow> NodeManager \<times> go_err option) \<Rightarrow> World \<Rightarrow> bool \<times> World" where
  "call_nm addr f w =
     (case w_nodes w addr of
        None \<Rightarrow> (False, w)
      | Some nm \<Rightarrow> (case f nm of (nm', err) \<Rightarrow> (err = None, w\<lparr>w_nodes := (w_nodes w)(addr \<mapsto> nm')\<rparr>)))"

definition svc_KillTask :: "string option \<Rightarrow> string \<Rightarrow> NodeManager \<Rightarrow> NodeManager \<times> go_err option" where
  "svc_KillTask killed taskID nm =
     (if taskID = [] then (nm, GoErr ''TaskID is empty'') else KillTaskProcess killed taskID nm)"

definition svc_AddTask ::
    "string + int \<Rightarrow> line list option \<Rightarrow> Task \<Rightarrow> JobSpec option \<Rightarrow> NodeManager \<Rightarrow> NodeManager \<times> go_err option" where
  "svc_AddTask proc wal task jobSpec nm =
     InitializeTask proc wal task jobSpec (case jobSpec of None \<Rightarrow> 0 | Some j \<Rightarrow> js_InputRate j) nm"

definition svc_InitializeTasks :: "lenv \<Rightarrow> string \<Rightarrow> Topology \<Rightarrow> JobSpec option \<Rightarrow> NodeManager \<Rightarrow> NodeManager \<times> go_err option" where
  "svc_InitializeTasks e addr topology jobSpec nm =
     InitializeTasks (le_procs e addr) (le_wals e) addr (le_introducer e addr) (le_tasks e (tp_Tasks topology)) topology jobSpec
       (case jobSpec of None \<Rightarrow> 0 | Some j \<Rightarrow> js_InputRate j) nm"

definition svc_UpdateTopology :: "Topology \<Rightarrow> NodeManager \<Rightarrow> NodeManager \<times> go_err option" where
  "svc_UpdateTopology topology nm = (UpdateTopology topology nm, None)"

text \<open>\<open>MergeWal\<close> also asks for the append of the old log to the surviving one.\<close>

definition call_MergeWal :: "lenv \<Rightarrow> string \<Rightarrow> string \<Rightarrow> string \<Rightarrow> World \<Rightarrow> bool \<times> World" where
  "call_MergeWal e addr oldTaskID keepTaskID w =
     (case w_nodes w addr of
        None \<Rightarrow> (False, w)
      | Some nm \<Rightarrow>
          (case MergeWalForTask (le_merge e oldTaskID) oldTaskID keepTaskID nm of
             (Inl _, nm') \<Rightarrow> (False, w\<lparr>w_nodes := (w_nodes w)(addr \<mapsto> nm')\<rparr>)
           | (Inr app, nm') \<Rightarrow> (True, w\<lparr>w_nodes := (w_nodes w)(addr \<mapsto> nm'),
               w_appends := w_appends w @ (case app of None \<Rightarrow> [] | Some p \<Rightarrow> [p])\<rparr>)))"

subsection \<open>Job submission\<close>

definition killExistingJobTasks :: "lenv \<Rightarrow> World \<Rightarrow> World" where
  "killExistingJobTasks e w =
     (let asg = ld_Assignments (w_leader w)
      in if ld_Topology (w_leader w) = None then w
         else fold (\<lambda>(taskID, nodeAddr) w. snd (call_nm nodeAddr (svc_KillTask (le_kill e nodeAddr taskID) taskID) w))
           (entries (le_asg e asg) asg) w)"

text \<open>The nodes with tasks, each once, in some order, and one call to each: all are tried, and any failure is reported.\<close>

definition node_set :: "lenv \<Rightarrow> (string \<rightharpoonup> string) \<Rightarrow> string list" where
  "node_set e asg = remdups (map snd (entries (le_asg e asg) asg))"

definition call_all :: "string \<Rightarrow> (string \<Rightarrow> World \<Rightarrow> bool \<times> World) \<Rightarrow> string list \<Rightarrow> cmd" where
  "call_all what call addrs w =
     (case fold (\<lambda>a (failed, w). case call a w of (ok, w') \<Rightarrow> (if ok then failed else failed + 1, w')) addrs (0::nat, w) of
        (failed, w') \<Rightarrow> (if failed > 0 then GoErr (''failed to '' @ what @ '' on '' @ dec (int failed) @ '' nodes'') else None, w'))"

definition Leader_InitializeTasks :: "lenv \<Rightarrow> cmd" where
  "Leader_InitializeTasks e w =
     (let l = w_leader w
      in case ld_Topology l of
          None \<Rightarrow> (GoErr ''no topology to send'', w)
        | Some topology \<Rightarrow>
            let addrs = node_set e (ld_Assignments l)
            in if addrs = [] then (GoErr ''no task assignments available'', w)
               else call_all ''initialize tasks''
                 (\<lambda>a. call_nm a (svc_InitializeTasks e a topology (ld_JobSpec l))) addrs w)"

definition SendTopologyUpdate :: "lenv \<Rightarrow> cmd" where
  "SendTopologyUpdate e w =
     (let l = w_leader w
      in case ld_Topology l of
          None \<Rightarrow> (GoErr ''no topology to send'', w)
        | Some topology \<Rightarrow>
            call_all ''update topology'' (\<lambda>a. call_nm a (svc_UpdateTopology topology))
              (node_set e (ld_Assignments l)) w)"

text \<open>\<open>StartStreaming\<close> up to the start of the source goroutine.\<close>

definition StartStreaming :: cmd where
  "StartStreaming w =
     (let l = w_leader w
      in if ld_EOM l \<noteq> None then (None, w)
         else case ld_JobSpec l of
             None \<Rightarrow> (Some (GoPanic ''nil pointer dereference''), w)
           | Some job \<Rightarrow>
               (None, if js_ExactlyOnce job \<or> js_Autoscale job
                      then upd_leader (\<lambda>l. l\<lparr>ld_EOM := Some (NewExactlyOnceManager None True False False None)\<rparr>) w
                      else w))"

definition submit_topology :: "lenv \<Rightarrow> JobSpec \<Rightarrow> cmd" where
  "submit_topology e job w =
     (case CreateTopology (ld_members (w_leader w)) (ld_addr (w_leader w)) (le_now e) job of
        Inl err \<Rightarrow> (GoErr (''failed to create topology: '' @ (case err of GoError m \<Rightarrow> m | GoPanic m \<Rightarrow> m)), w)
      | Inr topology \<Rightarrow> (None, upd_leader (\<lambda>l. l\<lparr>ld_Topology := Some topology\<rparr>) w))"

definition submit_assign :: "lenv \<Rightarrow> cmd" where
  "submit_assign e w =
     (case ld_Topology (w_leader w) of
        None \<Rightarrow> (Some (GoPanic ''nil pointer dereference''), w)
      | Some topology \<Rightarrow>
          (case computeTaskAssignments (ld_members (w_leader w)) (ld_addr (w_leader w))
                  (le_tasks e (tp_Tasks topology)) topology of
             Inl err \<Rightarrow> (GoErr (''failed to compute task assignments: '' @ (case err of GoError m \<Rightarrow> m | GoPanic m \<Rightarrow> m)), w)
           | Inr (assignments, topology, next) \<Rightarrow>
               (None, upd_leader (\<lambda>l. l\<lparr>ld_Topology := Some topology, ld_Assignments := assignments,
                                      ld_nextScaleNode := next\<rparr>) w)))"

definition SubmitJob :: "lenv \<Rightarrow> JobSpec \<Rightarrow> cmd" where
  "SubmitJob e job w =
     bind_cmd (submit_topology e job)
       (bind_cmd (submit_assign e) (bind_cmd (Leader_InitializeTasks e) StartStreaming))
       (upd_leader (\<lambda>l. l\<lparr>ld_JobSpec := Some job\<rparr>) (killExistingJobTasks e w))"

subsection \<open>Reports and restarts\<close>

definition UpdateMetrics :: "report \<Rightarrow> Leader \<Rightarrow> Leader" where
  "UpdateMetrics rep l =
     (case rep of (nodeID, metrics, statuses) \<Rightarrow>
        l\<lparr>ld_Metrics := ld_Metrics l ++ metrics, ld_TaskStatuses := ld_TaskStatuses l ++ statuses\<rparr>)"

definition AddTaskToNode :: "lenv \<Rightarrow> Task \<Rightarrow> string \<Rightarrow> cmd" where
  "AddTaskToNode e task nodeAddress w =
     (case ld_JobSpec (w_leader w) of
        None \<Rightarrow> (GoErr ''no job spec available'', w)
      | Some job \<Rightarrow>
          (case call_nm nodeAddress (svc_AddTask (le_procs e nodeAddress (tk_TaskID task))
                  (le_wals e (tk_TaskID task)) task (Some job)) w of
             (ok, w') \<Rightarrow> (if ok then None
               else GoErr (''failed to add task '' @ tk_TaskID task @ '' to node '' @ nodeAddress), w')))"

definition KillTaskOnNode :: "lenv \<Rightarrow> string \<Rightarrow> string \<Rightarrow> cmd" where
  "KillTaskOnNode e taskID nodeAddress w =
     (if taskID = [] then (GoErr ''taskID is empty'', w)
      else if nodeAddress = [] then (GoErr ''nodeAddress is empty'', w)
      else case call_nm nodeAddress (svc_KillTask (le_kill e nodeAddress taskID) taskID) w of
          (ok, w') \<Rightarrow> (if ok then None
            else GoErr (''failed to kill task '' @ taskID @ '' on node '' @ nodeAddress), w'))"

definition to_restart :: "lenv \<Rightarrow> Leader \<Rightarrow> (Task \<times> string) list" where
  "to_restart e l =
     (case (ld_JobSpec l, ld_Topology l) of
        (Some _, Some topology) \<Rightarrow>
          List.map_filter (\<lambda>(taskID, status).
              if status = TaskRunning then None
              else case (tp_Tasks topology taskID, ld_Assignments l taskID) of
                  (Some task, Some nodeAddr) \<Rightarrow> if nodeAddr = [] then None else Some (task, nodeAddr)
                | _ \<Rightarrow> None)
            (entries (le_statuses e (ld_TaskStatuses l)) (ld_TaskStatuses l))
      | _ \<Rightarrow> [])"

definition healthMonitorTick :: "lenv \<Rightarrow> World \<Rightarrow> World" where
  "healthMonitorTick e w =
     fold (\<lambda>(task, nodeAddr) w. snd (AddTaskToNode e task nodeAddr w)) (to_restart e (w_leader w)) w"

end
