(* ===== verification/Autoscale.thy ===== *)
theory Autoscale imports Leader begin

text \<open>
  \<open>resource_manager.go\<close>: the scaling decision, adding and removing a task, and of
  \<open>leader.go\<close> the source that reads lines and emits tuples. The loops over the topology's tasks that
  add or remove links treat each task independently and are pointwise functions of the task map.
\<close>

subsection \<open>Decisions\<close>

definition all_tasks_of :: "lenv \<Rightarrow> Topology \<Rightarrow> Task list" where
  "all_tasks_of e topology = map snd (entries (le_tasks e (tp_Tasks topology)) (tp_Tasks topology))"

text \<open>The stages with a rate and their rates: every reported task that is still in the topology counts.\<close>

definition aggregateStageThroughput :: "lenv \<Rightarrow> Leader \<Rightarrow> int \<Rightarrow> rat option" where
  "aggregateStageThroughput e l stage =
     (case ld_Topology l of
        None \<Rightarrow> None
      | Some topology \<Rightarrow>
          let reported = List.map_filter (\<lambda>(taskID, m). case tp_Tasks topology taskID of
                  None \<Rightarrow> None | Some task \<Rightarrow> if tk_Stage task = stage then Some (tm_Throughput m) else None)
                (entries (le_metrics e (ld_Metrics l)) (ld_Metrics l))
          in if reported = [] then None else Some (sum_list reported))"

definition rated_stages :: "lenv \<Rightarrow> Leader \<Rightarrow> int list" where
  "rated_stages e l =
     (case ld_Topology l of
        None \<Rightarrow> []
      | Some topology \<Rightarrow> remdups (List.map_filter (\<lambda>(taskID, _). map_option tk_Stage (tp_Tasks topology taskID))
          (entries (le_metrics e (ld_Metrics l)) (ld_Metrics l))))"

definition stage_tasks :: "lenv \<Rightarrow> Topology \<Rightarrow> int \<Rightarrow> Task list" where
  "stage_tasks e topology stage = filter (\<lambda>t. tk_Stage t = stage) (all_tasks_of e topology)"

subsection \<open>Adding a task\<close>

text \<open>The new task with its links, and the links the others get to it.\<close>

definition scaled_task :: "JobSpec \<Rightarrow> (string \<rightharpoonup> Task) \<Rightarrow> string \<Rightarrow> int \<Rightarrow> string \<Rightarrow> Task" where
  "scaled_task job tasks taskID stage nodeAddr =
     (NewTask taskID stage)\<lparr>tk_ExactlyOnce := js_ExactlyOnce job, tk_AutoscaleMode := js_Autoscale job,
       tk_NodeID := nodeAddr, tk_Address := addPort2000 nodeAddr,
       tk_InputTasks :=
         (if stage = 1 then (if js_SourceAddress job \<noteq> [] then [''leader'' \<mapsto> js_SourceAddress job] else Map.empty)
          else (\<lambda>i. case tasks i of
              None \<Rightarrow> None | Some t \<Rightarrow> if tk_Stage t = stage - 1 then Some (tk_Address t) else None)),
       tk_OutputTargets :=
         (if stage < js_NStages job then (\<lambda>i. case tasks i of
              None \<Rightarrow> None | Some t \<Rightarrow> if tk_Stage t = stage + 1 then Some (tk_Address t) else None)
          else Map.empty)\<rparr>"

definition link_new :: "JobSpec \<Rightarrow> Task \<Rightarrow> Task \<Rightarrow> Task" where
  "link_new job new t =
     (let stage = tk_Stage new;
          t = (if stage \<noteq> 1 \<and> tk_Stage t = stage - 1 then AddOutputTarget (tk_TaskID new) (tk_Address new) t else t)
      in if stage < js_NStages job \<and> tk_Stage t = stage + 1
         then AddInputTask (tk_TaskID new) (tk_Address new) t else t)"

definition add_task :: "JobSpec \<Rightarrow> Task \<Rightarrow> (string \<rightharpoonup> Task) \<Rightarrow> (string \<rightharpoonup> Task)" where
  "add_task job new tasks = (\<lambda>i. map_option (link_new job new) (tasks i))(tk_TaskID new \<mapsto> new)"

definition scaleUpStage :: "lenv \<Rightarrow> int \<Rightarrow> cmd" where
  "scaleUpStage e stage w =
     (let l = w_leader w
      in case (ld_Topology l, ld_JobSpec l) of
          (Some topology, Some job) \<Rightarrow>
            if stage < 1 \<or> stage > js_NStages job then (GoErr (''invalid stage '' @ dec stage), w)
            else
              let taskID = task_name stage (int (length (stage_tasks e topology stage))) (Unix (le_now e));
                  aliveMembers = GetAliveMembers (ld_addr l) (ld_members l)
              in if aliveMembers = [] then (GoErr ''no alive members available for scaling'', w)
                 else
                   let idx = ld_nextScaleNode l mod length aliveMembers;
                       nodeAddr = m_Address (aliveMembers ! idx);
                       newTask = scaled_task job (tp_Tasks topology) taskID stage nodeAddr;
                       topology = topology\<lparr>tp_Tasks := add_task job newTask (tp_Tasks topology)\<rparr>;
                       w = upd_leader (\<lambda>l. l\<lparr>ld_Topology := Some topology,
                             ld_Assignments := (ld_Assignments l)(taskID \<mapsto> nodeAddr),
                             ld_nextScaleNode := (idx + 1) mod length aliveMembers\<rparr>) w
                   in bind_cmd (AddTaskToNode e newTask nodeAddr) (SendTopologyUpdate e) w
        | _ \<Rightarrow> (GoErr ''no topology or job spec available for scaling'', w))"

subsection \<open>Removing a task\<close>

definition unlink :: "JobSpec \<Rightarrow> string \<Rightarrow> int \<Rightarrow> Task \<Rightarrow> Task" where
  "unlink job taskID stage t =
     (let t = (if stage > 1 \<and> tk_Stage t = stage - 1
               then t\<lparr>tk_OutputTargets := (tk_OutputTargets t)(taskID := None)\<rparr> else t)
      in if stage < js_NStages job \<and> tk_Stage t = stage + 1
         then t\<lparr>tk_InputTasks := (tk_InputTasks t)(taskID := None)\<rparr> else t)"

definition remove_task :: "JobSpec \<Rightarrow> string \<Rightarrow> int \<Rightarrow> (string \<rightharpoonup> Task) \<Rightarrow> (string \<rightharpoonup> Task)" where
  "remove_task job taskID stage tasks = (\<lambda>i. map_option (unlink job taskID stage) (tasks i))(taskID := None)"

definition merge_into_keeper :: "lenv \<Rightarrow> string \<Rightarrow> string \<Rightarrow> World \<Rightarrow> World" where
  "merge_into_keeper e taskID keepTaskID w =
     (case ld_Assignments (w_leader w) keepTaskID of
        None \<Rightarrow> w
      | Some keepNodeAddr \<Rightarrow> if keepNodeAddr = [] then w else snd (call_MergeWal e keepNodeAddr taskID keepTaskID w))"

definition scaleDownStage :: "lenv \<Rightarrow> int \<Rightarrow> cmd" where
  "scaleDownStage e stage w =
     (let l = w_leader w
      in case (ld_Topology l, ld_JobSpec l) of
          (Some topology, Some job) \<Rightarrow>
            if stage < 1 \<or> stage > js_NStages job then (GoErr (''invalid stage '' @ dec stage), w)
            else
              let stageTasks = stage_tasks e topology stage
              in if length stageTasks \<le> 1 then (None, w)
                 else
                   let taskID = tk_TaskID (last stageTasks)
                   in case find (\<lambda>t. tk_TaskID t \<noteq> taskID) stageTasks of
                       None \<Rightarrow> (GoErr ''no suitable survivor task found'', w)
                     | Some keep \<Rightarrow>
                         (case ld_Assignments l taskID of
                            None \<Rightarrow> (GoErr (''no assignment found for task '' @ taskID), w)
                          | Some nodeAddr \<Rightarrow>
                              let topology = topology\<lparr>tp_Tasks := remove_task job taskID stage (tp_Tasks topology)\<rparr>;
                                  w = upd_leader (\<lambda>l. l\<lparr>ld_Topology := Some topology,
                                        ld_Assignments := (ld_Assignments l)(taskID := None),
                                        ld_Metrics := (ld_Metrics l)(taskID := None)\<rparr>) w
                              in bind_cmd (KillTaskOnNode e taskID nodeAddr)
                                   (\<lambda>w. SendTopologyUpdate e (merge_into_keeper e taskID (tk_TaskID keep) w)) w)
        | _ \<Rightarrow> (GoErr ''no topology or job spec available for scaling'', w))"

subsection \<open>The autoscaling tick\<close>

definition scale_stage :: "lenv \<Rightarrow> JobSpec \<Rightarrow> (int \<Rightarrow> rat option) \<Rightarrow> (int \<Rightarrow> nat) \<Rightarrow> int \<Rightarrow> World \<Rightarrow> World" where
  "scale_stage e job rate count_of stage w =
     (case rate stage of
        None \<Rightarrow> w
      | Some r \<Rightarrow>
          if count_of stage = 0 then w
          else
            let avg = r / of_nat (count_of stage)
            in if stage < 1 \<or> stage > js_NStages job then w
               else if avg < of_int (js_LW job) then snd (scaleDownStage e stage w)
               else if avg > of_int (js_HW job) then snd (scaleUpStage e stage w)
               else w)"

definition Autoscale :: "lenv \<Rightarrow> World \<Rightarrow> World" where
  "Autoscale e w =
     (let l = w_leader w
      in case (ld_JobSpec l, ld_Topology l) of
          (Some job, Some topology) \<Rightarrow>
            if \<not> js_Autoscale job then w
            else fold (scale_stage e job (aggregateStageThroughput e l) (\<lambda>s. length (stage_tasks e topology s)))
              (rated_stages e l) w
        | _ \<Rightarrow> w)"

subsection \<open>The source\<close>

text \<open>
  One line of a source file: the tuple, where it goes, and the leader's manager. The argument
  \<open>view\<close> is what \<open>selectTaskByKey\<close> reads of the leader when the line is routed.
\<close>

type_synonym leader_view = "(JobSpec option \<times> Task list option \<times> (string \<rightharpoonup> TaskStatus)) option"

definition source_tuple :: "time \<Rightarrow> string \<Rightarrow> nat \<Rightarrow> string \<Rightarrow> Tuple" where
  "source_tuple now fileName lineNumber row =
     \<lparr>tp_ID = ''leader-'' @ fileName @ ''-'' @ dec (int lineNumber),
      tp_Key = fileName @ '':'' @ dec (int lineNumber), tp_Value = row, tp_Timestamp = now,
      tp_SenderID = ''leader'', tp_TaskID = [], tp_EOF = None\<rparr>"

fun emit_lines ::
    "(nat \<Rightarrow> time) \<Rightarrow> (nat \<Rightarrow> leader_view) \<Rightarrow> Task list \<Rightarrow> string \<Rightarrow> nat \<Rightarrow> string list \<Rightarrow> EOM option
       \<Rightarrow> (message list \<times> EOM option) go" where
  "emit_lines now view stage1Tasks fileName k [] eom = Inr ([], eom)"
| "emit_lines now view stage1Tasks fileName k (row # rows) eom =
     (let lineNumber = k + 1; tuple = source_tuple (now lineNumber) fileName lineNumber row
      in case selectTaskByKey (view lineNumber) (tp_Key tuple) stage1Tasks of
          None \<Rightarrow> emit_lines now view stage1Tasks fileName lineNumber rows eom
        | Some selectedTask \<Rightarrow>
            let tuple = tuple\<lparr>tp_TaskID := tk_TaskID selectedTask\<rparr>
            in case SendTuple (now lineNumber) (tk_Address selectedTask) tuple eom (tp_ID tuple) of
                Inl err \<Rightarrow> Inl err
              | Inr (msg, eom') \<Rightarrow>
                  (case emit_lines now view stage1Tasks fileName lineNumber rows (Some eom') of
                     Inl err \<Rightarrow> Inl err
                   | Inr (msgs, eom'') \<Rightarrow> Inr (msg # msgs, eom'')))"

text \<open>\<open>contents\<close> is \<open>None\<close> if the file cannot be opened; a ticker with a period that is not positive panics.\<close>

definition readFileAndEmitTuples ::
    "(nat \<Rightarrow> time) \<Rightarrow> (nat \<Rightarrow> leader_view) \<Rightarrow> string list option \<Rightarrow> string \<Rightarrow> duration \<Rightarrow> Task list \<Rightarrow> EOM option
       \<Rightarrow> (message list \<times> EOM option) go" where
  "readFileAndEmitTuples now view contents fileName delay stage1Tasks eom =
     (case contents of
        None \<Rightarrow> Inr ([], eom)
      | Some rows \<Rightarrow>
          if delay \<le> 0 then Inl (GoPanic ''non-positive interval for NewTicker'')
          else emit_lines now view stage1Tasks fileName 0 rows eom)"

definition source_delay :: "JobSpec \<Rightarrow> duration" where
  "source_delay job = (if js_InputRate job > 0 then 1000000000 div js_InputRate job else 0)"

datatype source = SrcMissing | SrcFile "string list option" | SrcDir "(string \<times> bool \<times> string list option) list"

fun emit_files ::
    "(nat \<Rightarrow> time) \<Rightarrow> (nat \<Rightarrow> leader_view) \<Rightarrow> (string \<times> bool \<times> string list option) list \<Rightarrow> duration \<Rightarrow> Task list
       \<Rightarrow> EOM option \<Rightarrow> (message list \<times> EOM option) go" where
  "emit_files now view [] delay stage1Tasks eom = Inr ([], eom)"
| "emit_files now view ((name, isDir, contents) # fs) delay stage1Tasks eom =
     (if isDir then emit_files now view fs delay stage1Tasks eom
      else case readFileAndEmitTuples now view contents name delay stage1Tasks eom of
          Inl err \<Rightarrow> Inl err
        | Inr (msgs, eom') \<Rightarrow>
            (case emit_files now view fs delay stage1Tasks eom' of
               Inl err \<Rightarrow> Inl err
             | Inr (msgs', eom'') \<Rightarrow> Inr (msgs @ msgs', eom'')))"

definition startSourceTask ::
    "(nat \<Rightarrow> time) \<Rightarrow> (nat \<Rightarrow> leader_view) \<Rightarrow> source \<Rightarrow> JobSpec \<Rightarrow> Task list \<Rightarrow> EOM option \<Rightarrow> (message list \<times> EOM option) go" where
  "startSourceTask now view src job tasks eom =
     (let stage1Tasks = filter (\<lambda>t. tk_Stage t = 1) tasks
      in if js_SourceDir job = [] \<or> src = SrcMissing \<or> stage1Tasks = [] then Inr ([], eom)
         else case src of
             SrcMissing \<Rightarrow> Inr ([], eom)
           | SrcFile contents \<Rightarrow>
               readFileAndEmitTuples now view contents (Base (js_SourceDir job)) (source_delay job) stage1Tasks eom
           | SrcDir files \<Rightarrow> emit_files now view files (source_delay job) stage1Tasks eom)"

end
