(* ===== verification/Scaling.thy ===== *)
theory Scaling imports Autoscale begin

text \<open>
  The topology stays wired when it is scaled up and down: every task is linked to exactly the tasks of the
  neighbour stages, at the addresses they listen on, and no stage loses its last task.
\<close>

subsection \<open>Wired topologies\<close>

definition links :: "(string \<rightharpoonup> Task) \<Rightarrow> int \<Rightarrow> (string \<rightharpoonup> string)" where
  "links tasks stage = (\<lambda>i. case tasks i of
     None \<Rightarrow> None | Some t \<Rightarrow> if tk_Stage t = stage then Some (tk_Address t) else None)"

definition leader_link :: "JobSpec \<Rightarrow> (string \<rightharpoonup> string)" where
  "leader_link job = (if js_SourceAddress job \<noteq> [] then [''leader'' \<mapsto> js_SourceAddress job] else Map.empty)"

text \<open>Every task is linked, with the addresses they listen on, to exactly the tasks of the next and of the previous stage.\<close>

definition wired_task :: "JobSpec \<Rightarrow> (string \<rightharpoonup> Task) \<Rightarrow> string \<Rightarrow> Task \<Rightarrow> bool" where
  "wired_task job tasks i t \<longleftrightarrow> tk_TaskID t = i \<and> 1 \<le> tk_Stage t \<and> tk_Stage t \<le> js_NStages job \<and>
     tk_OutputTargets t = links tasks (tk_Stage t + 1) \<and>
     tk_InputTasks t = (if tk_Stage t = 1 then leader_link job else links tasks (tk_Stage t - 1))"

definition wired :: "JobSpec \<Rightarrow> (string \<rightharpoonup> Task) \<Rightarrow> bool" where
  "wired job tasks \<longleftrightarrow> (\<forall>i t. tasks i = Some t \<longrightarrow> wired_task job tasks i t)"

lemma wiredD: "wired job tasks \<Longrightarrow> tasks i = Some t \<Longrightarrow> wired_task job tasks i t"
  by (simp add: wired_def)

lemma links_cong:
  "(\<And>i. map_option (\<lambda>t. (tk_Stage t, tk_Address t)) (a i) = map_option (\<lambda>t. (tk_Stage t, tk_Address t)) (b i)) \<Longrightarrow>
    links a s = links b s"
  unfolding links_def
proof (rule ext)
  fix i assume "\<And>i. map_option (\<lambda>t. (tk_Stage t, tk_Address t)) (a i) = map_option (\<lambda>t. (tk_Stage t, tk_Address t)) (b i)"
  from this [of i] show "(case a i of None \<Rightarrow> None | Some t \<Rightarrow> if tk_Stage t = s then Some (tk_Address t) else None) =
      (case b i of None \<Rightarrow> None | Some t \<Rightarrow> if tk_Stage t = s then Some (tk_Address t) else None)"
    by (cases "a i"; cases "b i") auto
qed

lemma links_upd: "links (m(k \<mapsto> t)) s = (links m s)(k := if tk_Stage t = s then Some (tk_Address t) else None)"
  by (auto simp: links_def)

lemma links_del: "links (m(k := None)) s = (links m s)(k := None)"
  by (auto simp: links_def)

lemma links_map:
  assumes "\<And>t. tk_Stage (f t) = tk_Stage t" "\<And>t. tk_Address (f t) = tk_Address t"
  shows "links (\<lambda>i. map_option f (m i)) s = links m s"
  by (rule links_cong) (simp add: option.map_comp comp_def assms)

lemma links_above: "wired job tasks \<Longrightarrow> js_NStages job < s \<Longrightarrow> links tasks s = Map.empty"
  unfolding wired_def wired_task_def by (rule ext) (fastforce simp add: links_def split: option.split)

lemma link_new_fields [simp]:
  "tk_TaskID (link_new job new t) = tk_TaskID t" "tk_Stage (link_new job new t) = tk_Stage t"
  "tk_Address (link_new job new t) = tk_Address t"
  by (auto simp: link_new_def Let_def AddOutputTarget_def AddInputTask_def)

lemma link_new_links:
  "tk_OutputTargets (link_new job new t) = (if tk_Stage new \<noteq> 1 \<and> tk_Stage t = tk_Stage new - 1
     then (tk_OutputTargets t)(tk_TaskID new \<mapsto> tk_Address new) else tk_OutputTargets t)"
  "tk_InputTasks (link_new job new t) = (if tk_Stage new < js_NStages job \<and> tk_Stage t = tk_Stage new + 1
     then (tk_InputTasks t)(tk_TaskID new \<mapsto> tk_Address new) else tk_InputTasks t)"
  by (auto simp: link_new_def Let_def AddOutputTarget_def AddInputTask_def)

lemma scaled_task_fields [simp]:
  "tk_TaskID (scaled_task job tasks i s a) = i" "tk_Stage (scaled_task job tasks i s a) = s"
  "tk_Address (scaled_task job tasks i s a) = addPort2000 a"
  by (simp_all add: scaled_task_def NewTask_def)

lemma scaled_task_links:
  "tk_OutputTargets (scaled_task job tasks i s a) = (if s < js_NStages job then links tasks (s + 1) else Map.empty)"
  "tk_InputTasks (scaled_task job tasks i s a) = (if s = 1 then leader_link job else links tasks (s - 1))"
  by (simp_all add: scaled_task_def links_def leader_link_def)

lemma add_task_wired:
  assumes "wired job tasks" and "tasks k = None" and "1 \<le> s" "s \<le> js_NStages job"
  shows "wired job (add_task job (scaled_task job tasks k s a) tasks)"
  unfolding wired_def
proof (intro allI impI)
  let ?new = "scaled_task job tasks k s a" let ?ts = "add_task job ?new tasks"
  have links: "links ?ts z = (links tasks z)(k := if s = z then Some (addPort2000 a) else None)" for z
    unfolding add_task_def by (simp add: links_upd links_map)
  have none: "links tasks z k = None" for z using assms(2) by (simp add: links_def)
  have top: "js_NStages job \<le> s \<Longrightarrow> links tasks (s + 1) = Map.empty"
    using links_above [OF assms(1)] by simp
  fix i t assume t: "?ts i = Some t"
  show "wired_task job ?ts i t"
  proof (cases "i = k")
    case True
    then have "t = ?new" using t by (simp add: add_task_def)
    with True show ?thesis using assms(3,4) none top
      by (auto simp: wired_task_def links scaled_task_links fun_eq_iff)
  next
    case False
    then obtain u where u: "tasks i = Some u" "t = link_new job ?new u"
      using t by (auto simp: add_task_def)
    note w = wiredD [OF assms(1) u(1), unfolded wired_task_def]
    show ?thesis
      using w u(2) assms(3,4) none
      by (auto simp: wired_task_def links link_new_links fun_eq_iff)
  qed
qed

lemma unlink_fields [simp]:
  "tk_TaskID (unlink job k s t) = tk_TaskID t" "tk_Stage (unlink job k s t) = tk_Stage t"
  "tk_Address (unlink job k s t) = tk_Address t"
  by (auto simp: unlink_def Let_def)

lemma unlink_links:
  "tk_OutputTargets (unlink job k s t) = (if s > 1 \<and> tk_Stage t = s - 1
     then (tk_OutputTargets t)(k := None) else tk_OutputTargets t)"
  "tk_InputTasks (unlink job k s t) = (if s < js_NStages job \<and> tk_Stage t = s + 1
     then (tk_InputTasks t)(k := None) else tk_InputTasks t)"
  by (auto simp: unlink_def Let_def)

lemma remove_task_wired:
  assumes "wired job tasks" and "tasks k = Some r" and "tk_Stage r = s"
  shows "wired job (remove_task job k s tasks)"
  unfolding wired_def
proof (intro allI impI)
  let ?ts = "remove_task job k s tasks"
  have links: "links ?ts z = (links tasks z)(k := None)" for z
    unfolding remove_task_def by (simp add: links_del links_map)
  have other: "links tasks z k = None" if "z \<noteq> s" for z using assms(2,3) that by (simp add: links_def)
  have s: "1 \<le> s" "s \<le> js_NStages job" using wiredD [OF assms(1,2)] assms(3) by (auto simp: wired_task_def)
  fix i t assume t: "?ts i = Some t"
  then obtain u where u: "tasks i = Some u" "t = unlink job k s u"
    by (auto simp: remove_task_def split: if_splits)
  note w = wiredD [OF assms(1) u(1), unfolded wired_task_def]
  have idem: "(links tasks z)(k := None) = links tasks z" if "z \<noteq> s" for z
    using other [OF that] by (rule fun_upd_idem)
  have "tk_OutputTargets t = links ?ts (tk_Stage t + 1)"
  proof (cases "tk_Stage u = s - 1")
    case True
    with w u(2) show ?thesis by (simp add: links unlink_links)
  next
    case False
    then have "tk_Stage u + 1 \<noteq> s" by simp
    from idem [OF this] False w u(2) show ?thesis by (simp add: links unlink_links)
  qed
  moreover have "tk_InputTasks t = (if tk_Stage t = 1 then leader_link job else links ?ts (tk_Stage t - 1))"
  proof (cases "tk_Stage u = s + 1")
    case True
    with w u(2) s show ?thesis by (simp add: links unlink_links)
  next
    case False
    then have "tk_Stage u - 1 \<noteq> s" by simp
    from idem [OF this] False w u(2) show ?thesis by (simp add: links unlink_links)
  qed
  ultimately show "wired_task job ?ts i t" using w u(2) by (simp add: wired_task_def)
qed

subsection \<open>Calls do not change the leader\<close>

lemma call_nm_leader [simp]: "w_leader (snd (call_nm a f w)) = w_leader w"
  by (simp add: call_nm_def case_prod_unfold split: option.split)

lemma call_MergeWal_leader [simp]: "w_leader (snd (call_MergeWal e a i j w)) = w_leader w"
  by (simp add: call_MergeWal_def case_prod_unfold split: option.split sum.split prod.split)

lemma call_all_leader:
  assumes "\<And>a w. w_leader (snd (call a w)) = w_leader w"
  shows "w_leader (snd (call_all what call addrs w)) = w_leader w"
proof -
  have "w_leader (snd (fold (\<lambda>a (failed, w). case call a w of (ok, w') \<Rightarrow> (if ok then failed else failed + 1, w'))
      addrs (n, w))) = w_leader w" for n
    using assms by (induction addrs arbitrary: n w) (auto simp: case_prod_unfold)
  from this [of 0] show ?thesis by (simp add: call_all_def case_prod_unfold)
qed

lemma SendTopologyUpdate_leader [simp]: "w_leader (snd (SendTopologyUpdate e w)) = w_leader w"
  by (simp add: SendTopologyUpdate_def Let_def call_all_leader split: option.split)

lemma AddTaskToNode_leader [simp]: "w_leader (snd (AddTaskToNode e t a w)) = w_leader w"
  by (simp add: AddTaskToNode_def case_prod_unfold split: option.split)

lemma KillTaskOnNode_leader [simp]: "w_leader (snd (KillTaskOnNode e i a w)) = w_leader w"
  by (simp add: KillTaskOnNode_def case_prod_unfold)

lemma merge_into_keeper_leader [simp]: "w_leader (merge_into_keeper e i j w) = w_leader w"
  by (simp add: merge_into_keeper_def split: option.split)

lemma bind_cmd_leader:
  "(\<And>w. w_leader (snd (a w)) = w_leader w) \<Longrightarrow> (\<And>w. w_leader (snd (b w)) = w_leader w) \<Longrightarrow>
    w_leader (snd (bind_cmd a b w)) = w_leader w"
  by (auto simp: bind_cmd_def split: option.splits prod.splits) (metis snd_conv)+

subsection \<open>Scaling keeps the topology usable\<close>

definition staffed :: "(string \<rightharpoonup> Task) \<Rightarrow> int \<Rightarrow> bool" where
  "staffed tasks s \<longleftrightarrow> (\<exists>i t. tasks i = Some t \<and> tk_Stage t = s)"

definition good_topology :: "JobSpec \<Rightarrow> Leader \<Rightarrow> Topology \<Rightarrow> bool" where
  "good_topology job l topo \<longleftrightarrow> ld_Topology l = Some topo \<and> ld_JobSpec l = Some job \<and> wired job (tp_Tasks topo)"

lemma entries_set: "(i, v) \<in> set (entries ids m) \<longleftrightarrow> i \<in> set ids \<and> m i = Some v"
  by (auto simp: entries_def List.map_filter_def image_iff split: option.splits)

lemma entries_keys: "map fst (entries ids m) = filter (\<lambda>i. m i \<noteq> None) ids"
  by (induction ids) (auto simp: entries_def List.map_filter_def)

lemma stage_tasks_in:
  "wired job (tp_Tasks topo) \<Longrightarrow> t \<in> set (stage_tasks e topo s) \<Longrightarrow>
    tp_Tasks topo (tk_TaskID t) = Some t \<and> tk_Stage t = s"
  by (auto simp: stage_tasks_def all_tasks_of_def entries_set dest: wiredD simp: wired_task_def)

lemma scaleUp_topology:
  assumes "good_topology job (w_leader w) topo"
    and "tp_Tasks topo (task_name s (int (length (stage_tasks e topo s))) (Unix (le_now e))) = None"
  shows "\<exists>topo'. good_topology job (w_leader (snd (scaleUpStage e s w))) topo' \<and>
    (\<forall>z. staffed (tp_Tasks topo) z \<longrightarrow> staffed (tp_Tasks topo') z)"
proof -
  let ?l = "w_leader w" let ?k = "task_name s (int (length (stage_tasks e topo s))) (Unix (le_now e))"
  let ?al = "GetAliveMembers (ld_addr ?l) (ld_members ?l)"
  show ?thesis
  proof (cases "s < 1 \<or> s > js_NStages job \<or> ?al = []")
    case True
    then have "snd (scaleUpStage e s w) = w"
      using assms(1) by (auto simp: scaleUpStage_def good_topology_def Let_def)
    then show ?thesis using assms(1) by auto
  next
    case False
    let ?a = "m_Address (?al ! (ld_nextScaleNode ?l mod length ?al))"
    let ?new = "scaled_task job (tp_Tasks topo) ?k s ?a"
    let ?topo = "topo\<lparr>tp_Tasks := add_task job ?new (tp_Tasks topo)\<rparr>"
    have "w_leader (snd (scaleUpStage e s w)) = ?l\<lparr>ld_Topology := Some ?topo,
        ld_Assignments := (ld_Assignments ?l)(?k \<mapsto> ?a),
        ld_nextScaleNode := (ld_nextScaleNode ?l mod length ?al + 1) mod length ?al\<rparr>"
      using False assms(1) by (simp add: scaleUpStage_def good_topology_def Let_def bind_cmd_leader upd_leader_def)
    moreover have "wired job (add_task job ?new (tp_Tasks topo))"
      using assms False by (intro add_task_wired) (auto simp: good_topology_def)
    moreover have "staffed (add_task job ?new (tp_Tasks topo)) z" if st: "staffed (tp_Tasks topo) z" for z
    proof -
      obtain i t where i: "tp_Tasks topo i = Some t" "tk_Stage t = z" using st by (auto simp: staffed_def)
      then have "add_task job ?new (tp_Tasks topo) i = Some (link_new job ?new t)"
        using assms(2) by (auto simp: add_task_def)
      with i(2) show ?thesis unfolding staffed_def by fastforce
    qed
    ultimately show ?thesis using assms(1) by (intro exI [of _ ?topo]) (simp add: good_topology_def)
  qed
qed

lemma remove_task_staffed:
  assumes "tasks k = Some r" "tasks j = Some t" "j \<noteq> k" "tk_Stage t = tk_Stage r" "staffed tasks z"
  shows "staffed (remove_task job k s tasks) z"
proof -
  have keep: "remove_task job k s tasks i = Some (unlink job k s u)" if "tasks i = Some u" "i \<noteq> k" for i u
    using that by (simp add: remove_task_def)
  obtain i u where u: "tasks i = Some u" "tk_Stage u = z" using assms(5) by (auto simp: staffed_def)
  show ?thesis
  proof (cases "i = k")
    case True
    then have "tk_Stage t = z" using u assms(1,4) by simp
    then show ?thesis using keep [OF assms(2,3)] unfolding staffed_def by fastforce
  next
    case False
    then show ?thesis using keep [OF u(1)] u(2) unfolding staffed_def by fastforce
  qed
qed

lemma scaleDown_topology:
  assumes "good_topology job (w_leader w) topo"
  shows "\<exists>topo'. good_topology job (w_leader (snd (scaleDownStage e s w))) topo' \<and>
    (\<forall>z. staffed (tp_Tasks topo) z \<longrightarrow> staffed (tp_Tasks topo') z)"
proof -
  let ?l = "w_leader w" let ?ts = "stage_tasks e topo s" let ?k = "tk_TaskID (last ?ts)"
  let ?f = "find (\<lambda>t. tk_TaskID t \<noteq> ?k) ?ts"
  note g = assms [unfolded good_topology_def]
  show ?thesis
  proof (cases "s < 1 \<or> s > js_NStages job \<or> length ?ts \<le> 1 \<or> ?f = None \<or> ld_Assignments ?l ?k = None")
    case True
    then have "snd (scaleDownStage e s w) = w"
      using g by (auto simp: scaleDownStage_def Let_def split: option.split)
    then show ?thesis using assms by auto
  next
    case False
    then obtain keep a where k: "?f = Some keep" "ld_Assignments ?l ?k = Some a" by auto
    let ?topo = "topo\<lparr>tp_Tasks := remove_task job ?k s (tp_Tasks topo)\<rparr>"
    have L: "w_leader (snd (scaleDownStage e s w)) = ?l\<lparr>ld_Topology := Some ?topo,
        ld_Assignments := (ld_Assignments ?l)(?k := None), ld_Metrics := (ld_Metrics ?l)(?k := None)\<rparr>"
      using False k g by (simp add: scaleDownStage_def Let_def bind_cmd_leader upd_leader_def)
    have "last ?ts \<in> set ?ts" using False by (intro last_in_set) auto
    then have r: "tp_Tasks topo ?k = Some (last ?ts)" "tk_Stage (last ?ts) = s" using stage_tasks_in g by blast+
    have "keep \<in> set ?ts" "tk_TaskID keep \<noteq> ?k" using k(1) by (auto simp: find_Some_iff)
    then have q: "tp_Tasks topo (tk_TaskID keep) = Some keep" "tk_Stage keep = s" "tk_TaskID keep \<noteq> ?k"
      using stage_tasks_in g by blast+
    have "wired job (remove_task job ?k s (tp_Tasks topo))"
      using g r by (intro remove_task_wired) auto
    moreover have "staffed (remove_task job ?k s (tp_Tasks topo)) z" if "staffed (tp_Tasks topo) z" for z
      using remove_task_staffed [OF r(1) q(1,3) _ that] q(2) r(2) by simp
    ultimately show ?thesis using L g by (intro exI [of _ ?topo]) (simp add: good_topology_def)
  qed
qed

text \<open>
  C15: autoscaling keeps the job runnable: adding or removing a task leaves a topology in
  which every task is linked, with the right addresses, to exactly the tasks of its neighbour stages, and
  no stage that had a task is left without one.
\<close>

theorem scaling_keeps_topology_wired:
  assumes "good_topology job (w_leader w) topo"
    and "tp_Tasks topo (task_name s (int (length (stage_tasks e topo s))) (Unix (le_now e))) = None"
    and "w' = snd (scaleUpStage e s w) \<or> w' = snd (scaleDownStage e s w)"
  shows "\<exists>topo'. good_topology job (w_leader w') topo' \<and>
    (\<forall>z. staffed (tp_Tasks topo) z \<longrightarrow> staffed (tp_Tasks topo') z)"
  using assms(3) scaleUp_topology [OF assms(1,2)] scaleDown_topology [OF assms(1)] by blast

text \<open>A job of one stage with two tasks on two nodes.\<close>

definition scaleJob :: JobSpec where
  "scaleJob = \<lparr>js_NStages = 1, js_TasksPerStage = 2, js_StageOps = [\<lparr>so_Exe = ''a'', so_Args = []\<rparr>],
     js_SourceDir = ''d'', js_DestFile = ''o'', js_SourceAddress = [], js_ExactlyOnce = True, js_Autoscale = True,
     js_InputRate = 1, js_LW = 1, js_HW = 9\<rparr>"

definition scaleTask :: "string \<Rightarrow> string \<Rightarrow> Task" where
  "scaleTask i addr = (NewTask i 1)\<lparr>tk_NodeID := addr, tk_Address := addr, tk_ExactlyOnce := True, tk_AutoscaleMode := True\<rparr>"

definition scaleTopo :: Topology where
  "scaleTopo = \<lparr>tp_JobID = ''j'', tp_Tasks = [''a'' \<mapsto> scaleTask ''a'' ''n'', ''b'' \<mapsto> scaleTask ''b'' ''m''], tp_Stages = [1]\<rparr>"

definition scaleEnv :: lenv where
  "scaleEnv = \<lparr>le_now = 0, le_introducer = (\<lambda>_. False), le_procs = (\<lambda>_ _. Inr 7), le_wals = (\<lambda>_. None),
     le_kill = (\<lambda>_ _. None),
     le_merge = (\<lambda>_. Some (Some [sent_line ''y'' \<lparr>st_Tuple = Some zeroTuple, st_SentAt = 0, st_OriginalID = ''x'', st_Destination = ''c''\<rparr>])),
     le_tasks = (\<lambda>_. [''a'', ''b'']), le_asg = (\<lambda>_. [''a'', ''b'']), le_metrics = (\<lambda>_. []), le_statuses = (\<lambda>_. [])\<rparr>"

definition scaleNode :: "string \<Rightarrow> string \<Rightarrow> NodeManager" where
  "scaleNode i addr = fst (InitializeTask (Inr 7) None (scaleTask i addr) (Some scaleJob) 1 (NewNodeManager addr))"

definition scaleWorld :: World where
  "scaleWorld = \<lparr>w_leader = (NewLeader ''l'' [])\<lparr>ld_Topology := Some scaleTopo, ld_JobSpec := Some scaleJob,
       ld_Assignments := [''a'' \<mapsto> ''n'', ''b'' \<mapsto> ''m'']\<rparr>,
     w_nodes = [''n'' \<mapsto> scaleNode ''a'' ''n'', ''m'' \<mapsto> scaleNode ''b'' ''m''], w_appends = []\<rparr>"

lemma scaleWorld_good: "good_topology scaleJob (w_leader scaleWorld) scaleTopo"
  by (auto simp: good_topology_def scaleWorld_def scaleTopo_def wired_def wired_task_def links_def leader_link_def
      scaleTask_def NewTask_def scaleJob_def fun_eq_iff)

lemma scaleWorld_stage: "stage_tasks scaleEnv scaleTopo 1 = [scaleTask ''a'' ''n'', scaleTask ''b'' ''m'']"
  by (simp add: stage_tasks_def all_tasks_of_def entries_def List.map_filter_def scaleEnv_def scaleTopo_def
      scaleTask_def NewTask_def)

theorem scaling_keeps_topology_wired_witness:
  "\<exists>topo'. good_topology scaleJob (w_leader (snd (scaleDownStage scaleEnv 1 scaleWorld))) topo' \<and> staffed (tp_Tasks topo') 1"
proof -
  have "tp_Tasks scaleTopo (task_name 1 (int (length (stage_tasks scaleEnv scaleTopo 1))) (Unix (le_now scaleEnv))) = None"
    by (simp add: scaleTopo_def task_name_def)
  from scaling_keeps_topology_wired [OF scaleWorld_good this disjI2 [OF refl]]
  obtain topo' where "good_topology scaleJob (w_leader (snd (scaleDownStage scaleEnv 1 scaleWorld))) topo'"
    "\<And>z. staffed (tp_Tasks scaleTopo) z \<Longrightarrow> staffed (tp_Tasks topo') z" by blast
  moreover have "staffed (tp_Tasks scaleTopo) 1"
    unfolding staffed_def by (rule exI [of _ "''a''"]) (simp add: scaleTopo_def scaleTask_def NewTask_def)
  ultimately show ?thesis by blast
qed

end
