(* ===== verification/JobControl.thy ===== *)
theory JobControl imports Scaling begin

text \<open>
  What the leader's operations achieve on the nodes: submission starts every task, the health monitor
  resumes a killed task from its log, removing a task hands its work over, and the source emits every
  line of a file once.
\<close>

subsection \<open>Facts about one node across calls\<close>

definition at_node :: "(NodeManager \<Rightarrow> bool) \<Rightarrow> string \<Rightarrow> World \<Rightarrow> bool" where
  "at_node P a w \<longleftrightarrow> (\<exists>nm. w_nodes w a = Some nm \<and> P nm)"

lemma at_nodeI: "w_nodes w a = Some nm \<Longrightarrow> P nm \<Longrightarrow> at_node P a w"
  by (auto simp: at_node_def)

lemma at_node_mono: "at_node P a w \<Longrightarrow> (\<And>nm. P nm \<Longrightarrow> Q nm) \<Longrightarrow> at_node Q a w"
  by (auto simp: at_node_def)

lemma tracked_mono: "tracked P i nm \<Longrightarrow> (\<And>e. P e \<Longrightarrow> Q e) \<Longrightarrow> tracked Q i nm"
  by (auto simp: tracked_def split: option.splits)

lemma call_nm_at_node:
  "at_node P a w \<Longrightarrow> (\<And>nm. P nm \<Longrightarrow> P (fst (f nm))) \<Longrightarrow> at_node P a (snd (call_nm b f w))"
  by (auto simp: at_node_def call_nm_def case_prod_unfold split: option.split)

lemma call_nm_there:
  "at_node P a w \<Longrightarrow> (\<And>nm. P nm \<Longrightarrow> Q (fst (f nm))) \<Longrightarrow> at_node Q a (snd (call_nm a f w))"
  by (auto simp: at_node_def call_nm_def case_prod_unfold split: option.split)

lemma call_nm_elsewhere:
  "a \<noteq> b \<Longrightarrow> at_node P a (snd (call_nm b f w)) = at_node P a w"
  by (auto simp: at_node_def call_nm_def case_prod_unfold split: option.split)

lemma fold_calls_at_node:
  assumes "at_node P a w" and "\<And>b w. at_node P a w \<Longrightarrow> at_node P a (snd (call b w))"
  shows "at_node P a (snd (fold (\<lambda>b (failed, w). case call b w of (ok, w') \<Rightarrow> (if ok then failed else failed + 1, w'))
    addrs (n, w)))"
  using assms(1)
proof (induction addrs arbitrary: n w)
  case (Cons b addrs)
  obtain ok w1 where c: "call b w = (ok, w1)" by fastforce
  have "at_node P a w1" using assms(2) [OF Cons.prems, of b] c by simp
  with Cons.IH c show ?case by simp
qed simp

lemma call_all_at_node:
  assumes "at_node P a w" and "\<And>b w. at_node P a w \<Longrightarrow> at_node P a (snd (call b w))"
  shows "at_node P a (snd (call_all what call addrs w))"
  using fold_calls_at_node [where P = P and a = a and call = call and n = 0, OF assms]
  by (simp add: call_all_def case_prod_unfold)

lemma SendTopologyUpdate_at_node:
  assumes "at_node (tracked P i) a w"
  shows "at_node (tracked P i) a (snd (SendTopologyUpdate e w))"
proof -
  have "at_node (tracked P i) a (snd (call_nm b (svc_UpdateTopology topo) w))"
    if "at_node (tracked P i) a w" for b topo w
    by (rule call_nm_at_node [OF that]) (simp add: svc_UpdateTopology_def tracked_topo)
  with assms show ?thesis
    by (auto simp: SendTopologyUpdate_def Let_def intro: call_all_at_node split: option.split)
qed

subsection \<open>Handing over the work of a removed task\<close>

text \<open>A log's last word on a tuple does not depend on the state it is replayed on.\<close>

lemma replay_snoc: "replay (ls @ [l]) v = replay_line l (replay ls v)"
  by (simp add: replay_def)

lemma replay_received:
  "fst (replay ls (Map.empty, Map.empty)) i = Some rt \<Longrightarrow> fst (replay ls v) i = Some rt"
proof (induction ls arbitrary: rt rule: rev_induct)
  case (snoc l ls)
  then show ?case
    by (auto simp: replay_snoc replay_line_def split: line.splits json.splits option.splits if_splits)
qed (simp add: replay_def)

lemma replay_sent:
  "snd (replay ls (Map.empty, Map.empty)) i = Some st \<Longrightarrow> snd (replay ls v) i = Some st"
proof (induction ls arbitrary: st rule: rev_induct)
  case (snoc l ls)
  then show ?case
    by (auto simp: replay_snoc replay_line_def split: line.splits json.splits option.splits if_splits)
qed (simp add: replay_def)

definition takes_over :: "line list \<Rightarrow> EOM \<Rightarrow> bool" where
  "takes_over ls e \<longleftrightarrow>
     (\<forall>i rt. fst (replay ls (Map.empty, Map.empty)) i = Some rt \<longrightarrow> eom_received e i = Some rt) \<and>
     (\<forall>i st. snd (replay ls (Map.empty, Map.empty)) i = Some st \<longrightarrow> eom_sent e i = Some st)"

lemma merge_takes_over: "takes_over ls (mergeStateFromLocalWal ls e)"
  by (simp add: takes_over_def mergeStateFromLocalWal_def case_prod_unfold Let_def)
    (blast intro: replay_received replay_sent)

text \<open>
  C30: scaling down loses no work: when the removed task's process is killed and its log can
  be read, the surviving task of the stage knows every input the log says was processed, so it will not
  process it again, and keeps every output the log says is unacknowledged among its own pending ones, so
  it will be resent.
\<close>

theorem scale_down_hands_over_work:
  assumes "ld_Topology (w_leader w) = Some topo" "ld_JobSpec (w_leader w) = Some job"
    and "1 \<le> s" "s \<le> js_NStages job" "1 < length (stage_tasks e topo s)"
    and k: "k = tk_TaskID (last (stage_tasks e topo s))" "k \<noteq> []"
    and keep: "find (\<lambda>t. tk_TaskID t \<noteq> k) (stage_tasks e topo s) = Some keep" "tk_TaskID keep \<noteq> []"
    and a: "ld_Assignments (w_leader w) k = Some a" "a \<noteq> []" "at_node (\<lambda>nm. nm_TaskInfos nm k \<noteq> None) a w" "le_kill e a k = None"
    and b: "ld_Assignments (w_leader w) (tk_TaskID keep) = Some b" "b \<noteq> []" "at_node (tracked (\<lambda>_. True) (tk_TaskID keep)) b w"
    and log: "le_merge e k = Some (Some ls)"
  shows "at_node (tracked (takes_over ls) (tk_TaskID keep)) b (snd (scaleDownStage e s w))"
proof -
  let ?j = "tk_TaskID keep"
  have kj: "?j \<noteq> k" using keep(1) by (auto simp: find_Some_iff)
  let ?w1 = "upd_leader (\<lambda>l. l\<lparr>ld_Topology := Some (topo\<lparr>tp_Tasks := remove_task job k s (tp_Tasks topo)\<rparr>),
    ld_Assignments := (ld_Assignments l)(k := None), ld_Metrics := (ld_Metrics l)(k := None)\<rparr>) w"
  obtain nm where nm: "w_nodes w a = Some nm" "nm_TaskInfos nm k \<noteq> None" using a(3) by (auto simp: at_node_def)
  obtain w2 where killed: "KillTaskOnNode e k a ?w1 = (None, w2)"
    using k(2) a(2,4) nm
    by (auto simp: KillTaskOnNode_def call_nm_def upd_leader_def svc_KillTask_def KillTaskProcess_def)
  have run: "snd (scaleDownStage e s w) = snd (SendTopologyUpdate e (merge_into_keeper e k ?j w2))"
    using assms(1-5) keep(1) a(1) killed
    by (simp add: scaleDownStage_def Let_def k(1) [symmetric] bind_cmd_def)
  have "at_node (tracked (\<lambda>_. True) ?j) b ?w1" using b(3) by (simp add: at_node_def upd_leader_def)
  then have "at_node (tracked (\<lambda>_. True) ?j) b (snd (KillTaskOnNode e k a ?w1))"
    using k(2) a(2) kj by (auto simp: KillTaskOnNode_def case_prod_unfold svc_KillTask_def
        intro!: call_nm_at_node tracked_kill)
  then have "at_node (tracked (\<lambda>_. True) ?j) b w2" unfolding killed by simp
  then obtain nm2 where nm2: "w_nodes w2 b = Some nm2" "tracked (\<lambda>_. True) ?j nm2" by (auto simp: at_node_def)
  have "w_leader w2 = w_leader ?w1" using KillTaskOnNode_leader [of e k a ?w1] unfolding killed by simp
  then have asg: "ld_Assignments (w_leader w2) ?j = Some b" using b(1) kj by (simp add: upd_leader_def)
  have "tracked (takes_over ls) ?j (upd_eom ?j (mergeStateFromLocalWal ls) nm2)"
    using nm2(2) merge_takes_over by (auto simp: tracked_def upd_eom_def split: option.splits)
  then have "at_node (tracked (takes_over ls) ?j) b (merge_into_keeper e k ?j w2)"
    using asg b(2) nm2(1) k(2) keep(2)
    by (simp add: merge_into_keeper_def call_MergeWal_def MergeWalForTask_def log at_node_def Let_def)
  then show ?thesis unfolding run by (rule SendTopologyUpdate_at_node)
qed

theorem scale_down_hands_over_work_witness:
  "at_node (tracked (\<lambda>e. eom_sent e ''y'' \<noteq> None) ''a'') ''n'' (snd (scaleDownStage scaleEnv 1 scaleWorld))"
proof -
  let ?ls = "[sent_line ''y'' \<lparr>st_Tuple = Some zeroTuple, st_SentAt = 0, st_OriginalID = ''x'', st_Destination = ''c''\<rparr>]"
  have ids: "tk_TaskID (scaleTask i addr) = i" for i addr by (simp add: scaleTask_def NewTask_def)
  have h: "at_node (tracked (takes_over ?ls) (tk_TaskID (scaleTask ''a'' ''n''))) ''n'' (snd (scaleDownStage scaleEnv 1 scaleWorld))"
    by (rule scale_down_hands_over_work [where topo = scaleTopo and job = scaleJob and k = "''b''" and a = "''m''"])
      (simp_all add: scaleWorld_stage ids, simp_all add: scaleWorld_def scaleJob_def scaleEnv_def at_node_def scaleNode_def
        tracked_def node_eval scaleTask_def NewTask_def)
  have k: "eom_sent e ''y'' \<noteq> None" if "takes_over ?ls e" for e
    using that by (simp add: takes_over_def replay_def replay_line_def sent_line_def field_def)
  show ?thesis by (rule at_node_mono [OF h [unfolded ids]]) (erule tracked_mono, rule k)
qed

end
