(* ===== verification/Submission.thy ===== *)
theory Submission imports JobControl begin

text \<open>
  What a submitted job gets: every assigned task runs on its node, a killed task resumes from its log,
  a crashed one is never restarted, and the source emits every line of its file once.
\<close>

subsection \<open>Starting one task\<close>

lemma InitializeTask_existing:
  assumes "nm_TaskInfos nm (tk_TaskID task) \<noteq> None"
  shows "snd (InitializeTask proc wal task job rate nm) \<noteq> None"
    and "nm_TaskInfos (fst (InitializeTask proc wal task job rate nm)) = nm_TaskInfos nm"
    and "nm_TaskStatus (fst (InitializeTask proc wal task job rate nm)) = nm_TaskStatus nm"
  using assms by (auto simp: InitializeTask_def Let_def split: option.splits)

lemma InitializeTask_other:
  assumes "tk_TaskID task \<noteq> i"
  shows "nm_TaskInfos (fst (InitializeTask proc wal task job rate nm)) i = nm_TaskInfos nm i"
    and "nm_TaskStatus (fst (InitializeTask proc wal task job rate nm)) i = nm_TaskStatus nm i"
  using assms by (auto simp: InitializeTask_def Let_def split: option.splits sum.splits)

lemma InitializeTask_node [simp]:
  "nm_NodeID (fst (InitializeTask proc wal task job rate nm)) = nm_NodeID nm"
  by (auto simp: InitializeTask_def Let_def split: option.splits sum.splits)

text \<open>A task that runs with a manager restored from its log.\<close>

definition resumed :: "JobSpec \<Rightarrow> Task \<Rightarrow> line list option \<Rightarrow> NodeManager \<Rightarrow> bool" where
  "resumed job task wal nm \<longleftrightarrow>
     nm_TaskStatus nm (tk_TaskID task) = Some TaskRunning \<and>
     (\<exists>ti. nm_TaskInfos nm (tk_TaskID task) = Some ti \<and> ti_Task ti = task \<and>
       ti_EOM ti = Some (NewExactlyOnceManager wal False (tk_Stage task = js_NStages job) True (Some (tk_TaskID task))))"

definition startable :: "Task \<Rightarrow> NodeManager \<Rightarrow> bool" where
  "startable task nm \<longleftrightarrow> nm_TaskInfos nm (tk_TaskID task) = None \<and> nm_NodeID nm = tk_Address task"

lemma InitializeTask_resumes:
  assumes "startable task nm" "1 \<le> tk_Stage task" "tk_Stage task \<le> int (length (js_StageOps job))" "tk_ExactlyOnce task"
  shows "resumed job task wal (fst (InitializeTask (Inr pid) wal task (Some job) rate nm))"
  using assms by (simp add: startable_def resumed_def InitializeTask_def Let_def stageOpOf_def isFinalStage_def)

lemma InitializeTask_resumed_stays:
  assumes "resumed job task wal nm"
  shows "resumed job task wal (fst (InitializeTask proc wal' t job' rate nm))"
proof (cases "tk_TaskID t = tk_TaskID task")
  case True
  then show ?thesis
    using assms InitializeTask_existing(2,3) [of nm t proc wal' job' rate] by (auto simp: resumed_def)
next
  case False
  show ?thesis
    using assms InitializeTask_other [OF False, of proc wal' job' rate nm] by (auto simp: resumed_def)
qed

lemma InitializeTask_startable_stays:
  assumes "startable task nm" "tk_TaskID t \<noteq> tk_TaskID task"
  shows "startable task (fst (InitializeTask proc wal t job rate nm))"
  using assms InitializeTask_other(1) [OF assms(2)] by (simp add: startable_def)

subsection \<open>The health monitor\<close>

lemma fold_reaches:
  assumes "x \<in> set xs" and "Q w"
    and "\<And>y w. y \<in> set xs \<Longrightarrow> y \<noteq> x \<Longrightarrow> Q w \<Longrightarrow> Q (f y w)"
    and "\<And>w. Q w \<Longrightarrow> P (f x w)" and "\<And>y w. P w \<Longrightarrow> P (f y w)"
  shows "P (fold f xs w)"
  using assms(1-3)
proof (induction xs arbitrary: w)
  case (Cons y xs)
  have stable: "P w \<Longrightarrow> P (fold f xs w)" for w
    by (induction xs arbitrary: w) (auto intro: assms(5))
  show ?case
  proof (cases "y = x")
    case True
    then show ?thesis using stable [OF assms(4) [OF Cons.prems(2)]] by simp
  next
    case False
    then have "x \<in> set xs" using Cons.prems(1) by simp
    moreover have "Q (f y w)" using False Cons.prems by simp
    ultimately show ?thesis using Cons.IH [of "f y w"] Cons.prems(3) by simp
  qed
qed simp

lemma AddTaskToNode_at_node:
  assumes "at_node P a w" and "\<And>nm proc wal job rate. P nm \<Longrightarrow> P (fst (InitializeTask proc wal t job rate nm))"
  shows "at_node P a (snd (AddTaskToNode e t b w))"
  using assms
  by (auto simp: AddTaskToNode_def case_prod_unfold svc_AddTask_def intro: call_nm_at_node split: option.split)

lemma AddTaskToNode_starts:
  assumes "at_node P a w" "ld_JobSpec (w_leader w) = Some job"
    and "\<And>nm. P nm \<Longrightarrow> Q (fst (InitializeTask (le_procs e a (tk_TaskID t)) (le_wals e (tk_TaskID t)) t (Some job) (js_InputRate job) nm))"
  shows "at_node Q a (snd (AddTaskToNode e t a w))"
  using assms by (auto simp: AddTaskToNode_def case_prod_unfold svc_AddTask_def intro: call_nm_there)

lemma to_restart_set:
  assumes "good_topology job l topo"
  shows "(t, a) \<in> set (to_restart e l) \<longleftrightarrow>
    (\<exists>i st. i \<in> set (le_statuses e (ld_TaskStatuses l)) \<and> ld_TaskStatuses l i = Some st \<and> st \<noteq> TaskRunning \<and>
      tp_Tasks topo i = Some t \<and> ld_Assignments l i = Some a \<and> a \<noteq> [])"
  using assms by (fastforce simp: good_topology_def to_restart_def List.map_filter_def entries_set image_iff
      split: option.splits if_splits)

lemma healthMonitorTick_resumes:
  assumes g: "good_topology job (w_leader w) topo" and "(task, a) \<in> set (to_restart e (w_leader w))"
    and "at_node (startable task) a w" "le_procs e a (tk_TaskID task) = Inr pid"
    and "tk_ExactlyOnce task" "js_NStages job \<le> int (length (js_StageOps job))"
  shows "at_node (resumed job task (le_wals e (tk_TaskID task))) a (healthMonitorTick e w)"
proof -
  have wired: "tk_TaskID t = i \<and> 1 \<le> tk_Stage t \<and> tk_Stage t \<le> js_NStages job" if "tp_Tasks topo i = Some t" for i t
    using g that by (auto simp: good_topology_def wired_def wired_task_def)
  have stage: "1 \<le> tk_Stage task" "tk_Stage task \<le> int (length (js_StageOps job))"
    using assms(2,6) wired by (fastforce simp: to_restart_set [OF g])+
  have other: "tk_TaskID t \<noteq> tk_TaskID task" if "(t, b) \<in> set (to_restart e (w_leader w))" "(t, b) \<noteq> (task, a)" for t b
    using that assms(2) wired by (auto simp: to_restart_set [OF g])
  have start: "at_node (resumed job task (le_wals e (tk_TaskID task))) a (snd (AddTaskToNode e task a w'))"
    if "at_node (startable task) a w'" "ld_JobSpec (w_leader w') = Some job" for w'
    by (rule AddTaskToNode_starts [OF that]) (simp add: assms(4) InitializeTask_resumes stage assms(5))
  let ?f = "\<lambda>(t, b) w. snd (AddTaskToNode e t b w)"
  let ?Q = "\<lambda>w'. at_node (startable task) a w' \<and> ld_JobSpec (w_leader w') = Some job"
  let ?P = "at_node (resumed job task (le_wals e (tk_TaskID task))) a"
  have "?P (fold ?f (to_restart e (w_leader w)) w)"
  proof (rule fold_reaches [where Q = ?Q, OF assms(2)])
    show "?Q w" using assms(3) g by (simp add: good_topology_def)
    show "?Q (?f y w')" if "y \<in> set (to_restart e (w_leader w))" "y \<noteq> (task, a)" "?Q w'" for y w'
      using that other [of "fst y" "snd y"]
      by (auto simp: case_prod_unfold intro!: AddTaskToNode_at_node InitializeTask_startable_stays)
    show "?P (?f (task, a) w')" if "?Q w'" for w' using that start by simp
    show "?P (?f y w')" if "?P w'" for y w'
      using that by (auto simp: case_prod_unfold intro!: AddTaskToNode_at_node InitializeTask_resumed_stays)
  qed
  then show ?thesis by (simp add: healthMonitorTick_def)
qed

text \<open>A node after its task was killed and its next report reached the leader.\<close>

definition kill_and_report :: "time \<Rightarrow> (int \<Rightarrow> bool) \<Rightarrow> string \<Rightarrow> string \<Rightarrow> World \<Rightarrow> World" where
  "kill_and_report now alive i a w =
     (case w_nodes w a of
        None \<Rightarrow> w
      | Some nm \<Rightarrow>
          (case collectAndSendMetrics now alive (fst (KillTaskProcess None i nm)) of
             (nm', rep) \<Rightarrow> upd_leader (case rep of None \<Rightarrow> id | Some r \<Rightarrow> UpdateMetrics r)
               (w\<lparr>w_nodes := (w_nodes w)(a \<mapsto> nm')\<rparr>)))"

lemma kill_and_report_effect:
  assumes "w_nodes w a = Some nm" "nm_TaskInfos nm i = Some ti" "nm_leaderAddress nm \<noteq> []"
  shows "at_node (\<lambda>n. nm_TaskInfos n i = None \<and> nm_NodeID n = nm_NodeID nm) a (kill_and_report now alive i a w)"
    and "ld_TaskStatuses (w_leader (kill_and_report now alive i a w)) i = Some TaskStopped"
    and "ld_Topology (w_leader (kill_and_report now alive i a w)) = ld_Topology (w_leader w)"
    and "ld_JobSpec (w_leader (kill_and_report now alive i a w)) = ld_JobSpec (w_leader w)"
    and "ld_Assignments (w_leader (kill_and_report now alive i a w)) = ld_Assignments (w_leader w)"
  using assms
  by (simp_all add: kill_and_report_def at_node_def KillTaskProcess_def collectAndSendMetrics_def Let_def
      upd_leader_def UpdateMetrics_def mark_failed_def map_add_def)

text \<open>
  C7: a killed exactly-once task comes back with its state: once its node has reported that
  the task was stopped, the leader's next health check starts it again on the node it was assigned to, running,
  with a manager restored from the task's log.
\<close>

theorem killed_task_resumes:
  assumes "good_topology job (w_leader w) topo" "tp_Tasks topo i = Some task" "tk_ExactlyOnce task"
    and "js_NStages job \<le> int (length (js_StageOps job))"
    and "ld_Assignments (w_leader w) i = Some a" "a \<noteq> []"
    and "w_nodes w a = Some nm" "nm_TaskInfos nm i = Some ti" "nm_leaderAddress nm \<noteq> []" "nm_NodeID nm = tk_Address task"
    and "le_procs e a i = Inr pid" and w': "w' = kill_and_report now alive i a w"
    and "i \<in> set (le_statuses e (ld_TaskStatuses (w_leader w')))"
  shows "at_node (resumed job task (le_wals e i)) a (healthMonitorTick e w')"
proof -
  note eff = kill_and_report_effect [OF assms(7-9), where now = now and alive = alive, folded w']
  have g: "good_topology job (w_leader w') topo" using assms(1) eff by (simp add: good_topology_def)
  have id: "tk_TaskID task = i" using assms(1,2) by (auto simp: good_topology_def wired_def wired_task_def)
  have "(task, a) \<in> set (to_restart e (w_leader w'))"
    unfolding to_restart_set [OF g] using assms(2,5,6,13) eff by (intro exI [of _ i] exI [of _ TaskStopped]) auto
  moreover have "at_node (startable task) a w'"
    by (rule at_node_mono [OF eff(1)]) (simp add: startable_def id assms(10))
  ultimately show ?thesis
    using healthMonitorTick_resumes [OF g, of task a e pid] assms(3,4,11) id by blast
qed

text \<open>
  A task whose process crashed, by contrast, is still in its node's table: every attempt to start it again is refused.
\<close>

lemma crashed_task_never_restarted:
  assumes "nm_TaskInfos nm (tk_TaskID task) = Some ti" "nm_TaskStatus nm (tk_TaskID task) = Some TaskFailed"
  shows "snd (InitializeTask proc wal task job rate nm) \<noteq> None \<and>
    nm_TaskStatus (fst (InitializeTask proc wal task job rate nm)) (tk_TaskID task) = Some TaskFailed"
  using assms InitializeTask_existing [of nm task proc wal job rate] by simp

subsection \<open>Submission\<close>

definition runs :: "string \<Rightarrow> NodeManager \<Rightarrow> bool" where
  "runs i nm \<longleftrightarrow> nm_TaskInfos nm i \<noteq> None \<and> nm_TaskStatus nm i = Some TaskRunning"

lemma InitializeTask_runs:
  "snd (InitializeTask proc wal t job rate nm) = None \<Longrightarrow> runs (tk_TaskID t) (fst (InitializeTask proc wal t job rate nm))"
  by (auto simp: InitializeTask_def runs_def Let_def split: if_splits option.splits sum.splits)

lemma runs_stays: "runs i nm \<Longrightarrow> runs i (fst (InitializeTask proc wal t job rate nm))"
  using InitializeTask_other [of t i proc wal job rate nm] InitializeTask_existing(2,3) [of nm t proc wal job rate]
  by (cases "tk_TaskID t = i") (auto simp: runs_def)

lemma init_loop_runs:
  assumes "init_loop procs wals ts job rate nm = (nm', None)"
  shows "(runs k nm \<longrightarrow> runs k nm') \<and> (\<forall>(i, t) \<in> set ts. tk_Address t = nm_NodeID nm \<longrightarrow> runs (tk_TaskID t) nm')"
  using assms
proof (induction ts arbitrary: nm k)
  case (Cons x ts)
  obtain i t where x: "x = (i, t)" by (cases x)
  show ?case
  proof (cases "tk_Address t = nm_NodeID nm")
    case True
    obtain nm1 where i: "InitializeTask (procs i) (wals i) t job rate nm = (nm1, None)"
      "init_loop procs wals ts job rate nm1 = (nm', None)"
      using Cons.prems True by (auto simp: x split: prod.splits option.splits)
    have n1: "nm1 = fst (InitializeTask (procs i) (wals i) t job rate nm)" using i(1) by simp
    have "runs (tk_TaskID t) nm1" unfolding n1 by (rule InitializeTask_runs) (simp add: i(1))
    moreover have "runs k nm \<Longrightarrow> runs k nm1" unfolding n1 by (rule runs_stays)
    ultimately show ?thesis
      using Cons.IH [OF i(2), of k] Cons.IH [OF i(2), of "tk_TaskID t"] n1 by (auto simp: x)
  next
    case False
    then show ?thesis using Cons.IH [of nm k] Cons.prems by (auto simp: x)
  qed
qed simp

text \<open>When every call of a round succeeds, each has its effect, and calls to other nodes do not disturb it.\<close>

lemma fold_calls_failed:
  "n \<le> fst (fold (\<lambda>a (failed, w). case call a w of (ok, w') \<Rightarrow> (if ok then failed else failed + 1, w')) addrs (n :: nat, w))"
proof (induction addrs arbitrary: n w)
  case (Cons b addrs)
  from Cons [of n] Cons [of "Suc n"] show ?case
    by (cases "call b w") (auto intro: order_trans [OF le_add2] Suc_leD)
qed simp

lemma fold_calls_success:
  assumes "fst (fold (\<lambda>a (failed, w). case call a w of (ok, w') \<Rightarrow> (if ok then failed else failed + 1, w')) addrs (0 :: nat, w)) = 0"
    and "a \<in> set addrs" "distinct addrs" "P w"
    and other: "\<And>b w. b \<noteq> a \<Longrightarrow> P w \<Longrightarrow> P (snd (call b w))" "\<And>b w. b \<noteq> a \<Longrightarrow> Q w \<Longrightarrow> Q (snd (call b w))"
    and hit: "\<And>w. P w \<Longrightarrow> fst (call a w) \<Longrightarrow> Q (snd (call a w))"
  shows "Q (snd (fold (\<lambda>a (failed, w). case call a w of (ok, w') \<Rightarrow> (if ok then failed else failed + 1, w')) addrs (0 :: nat, w)))"
  using assms(1-4)
proof (induction addrs arbitrary: w)
  case (Cons b addrs)
  let ?F = "\<lambda>a (failed :: nat, w). case call a w of (ok, w') \<Rightarrow> (if ok then failed else failed + 1, w')"
  obtain ok w1 where c: "call b w = (ok, w1)" by fastforce
  have ok: ok
    using Cons.prems(1) fold_calls_failed [of 1 call addrs w1] by (cases ok) (auto simp: c)
  have rest: "fst (fold ?F addrs (0, w1)) = 0" using Cons.prems(1) c ok by simp
  have away: "Q (snd (fold ?F xs (n, v)))" if "a \<notin> set xs" "Q v" for xs n v
    using that
  proof (induction xs arbitrary: n v)
    case (Cons b xs)
    then have "Q (snd (call b v))" by (intro other(2)) auto
    with Cons show ?case by (cases "call b v") simp
  qed simp
  show ?case
  proof (cases "b = a")
    case True
    then have "Q w1" using hit [OF Cons.prems(4)] c ok by simp
    moreover have "a \<notin> set addrs" using Cons.prems(3) True by simp
    ultimately show ?thesis using away c ok by simp
  next
    case False
    then have "P w1" using other(1) [OF _ Cons.prems(4), of b] c by simp
    then show ?thesis using Cons.IH [OF rest] Cons.prems(2,3) False c ok by simp
  qed
qed simp

text \<open>Every node's manager listens on its node's address with the port raised by 2000.\<close>

definition addressed :: "World \<Rightarrow> bool" where
  "addressed w \<longleftrightarrow> (\<forall>a nm. w_nodes w a = Some nm \<longrightarrow> nm_NodeID nm = addPort2000 a)"

lemma call_nm_addressed:
  "addressed w \<Longrightarrow> (\<And>nm. nm_NodeID (fst (f nm)) = nm_NodeID nm) \<Longrightarrow> addressed (snd (call_nm b f w))"
  by (auto simp: addressed_def call_nm_def case_prod_unfold split: option.splits if_splits)

lemma init_loop_node: "nm_NodeID (fst (init_loop procs wals ts job rate nm)) = nm_NodeID nm"
proof (induction ts arbitrary: nm)
  case (Cons x ts)
  then show ?case
    using InitializeTask_node by (cases x) (auto split: prod.splits option.splits; metis fst_conv InitializeTask_node)
qed simp

lemma set_leader_address_node [simp]:
  "nm_NodeID (set_leader_address s b job nm) = nm_NodeID nm"
  "nm_TaskInfos (set_leader_address s b job nm) = nm_TaskInfos nm"
  "nm_TaskStatus (set_leader_address s b job nm) = nm_TaskStatus nm"
  by (auto simp: set_leader_address_def Let_def case_prod_unfold split: option.split)

lemma svc_InitializeTasks_node [simp]:
  "nm_NodeID (fst (svc_InitializeTasks e a topo job nm)) = nm_NodeID nm"
  by (simp add: svc_InitializeTasks_def InitializeTasks_def init_loop_node)

lemma KillTaskProcess_node [simp]: "nm_NodeID (fst (KillTaskProcess k i nm)) = nm_NodeID nm"
  by (auto simp: KillTaskProcess_def upd_eom_def split: option.splits)

lemma killExistingJobTasks_keeps:
  assumes "addressed w"
  shows "addressed (killExistingJobTasks e w) \<and> w_leader (killExistingJobTasks e w) = w_leader w"
proof -
  have "addressed (fold (\<lambda>(i, a) w. snd (call_nm a (svc_KillTask (le_kill e a i) i) w)) xs v) \<and>
      w_leader (fold (\<lambda>(i, a) w. snd (call_nm a (svc_KillTask (le_kill e a i) i) w)) xs v) = w_leader v"
    if "addressed v" for xs v
    using that
  proof (induction xs arbitrary: v)
    case (Cons x xs)
    have "addressed (snd (call_nm (snd x) (svc_KillTask (le_kill e (snd x) (fst x)) (fst x)) v))"
      by (rule call_nm_addressed [OF Cons.prems]) (simp add: svc_KillTask_def)
    from Cons.IH [OF this] show ?case by (simp add: case_prod_unfold)
  qed simp
  then show ?thesis using assms by (simp add: killExistingJobTasks_def Let_def)
qed

lemma call_InitializeTasks_runs:
  assumes "fst (call_nm a (svc_InitializeTasks e a topo job) w)" "addressed w"
    and "tp_Tasks topo i = Some t" "i \<in> set (le_tasks e (tp_Tasks topo))" "tk_Address t = addPort2000 a"
  shows "at_node (runs (tk_TaskID t)) a (snd (call_nm a (svc_InitializeTasks e a topo job) w))"
proof -
  obtain nm where nm: "w_nodes w a = Some nm" "snd (svc_InitializeTasks e a topo job nm) = None"
    using assms(1) by (auto simp: call_nm_def case_prod_unfold split: option.splits)
  let ?nm = "set_leader_address a (le_introducer e a) job nm"
  have init: "init_loop (le_procs e a) (le_wals e) (entries (le_tasks e (tp_Tasks topo)) (tp_Tasks topo)) job
      (case job of None \<Rightarrow> 0 | Some j \<Rightarrow> js_InputRate j) ?nm = (fst (svc_InitializeTasks e a topo job nm), None)"
    using nm(2) by (simp add: svc_InitializeTasks_def InitializeTasks_def prod_eq_iff)
  have "(i, t) \<in> set (entries (le_tasks e (tp_Tasks topo)) (tp_Tasks topo))" using assms(3,4) by (simp add: entries_set)
  moreover have "tk_Address t = nm_NodeID ?nm" using assms(2,5) nm(1) by (auto simp: addressed_def)
  ultimately have "runs (tk_TaskID t) (fst (svc_InitializeTasks e a topo job nm))"
    using init_loop_runs [OF init] by fastforce
  with nm(1) show ?thesis by (simp add: at_node_def call_nm_def case_prod_unfold)
qed

lemma Leader_InitializeTasks_runs:
  assumes "fst (Leader_InitializeTasks e w) = None" "addressed w" "ld_Topology (w_leader w) = Some topo"
    and "tp_Tasks topo i = Some t" "i \<in> set (le_tasks e (tp_Tasks topo))" "tk_Address t = addPort2000 a"
    and "ld_Assignments (w_leader w) i = Some a" "i \<in> set (le_asg e (ld_Assignments (w_leader w)))"
  shows "at_node (runs (tk_TaskID t)) a (snd (Leader_InitializeTasks e w))"
proof -
  let ?l = "w_leader w" let ?addrs = "node_set e (ld_Assignments ?l)"
  let ?call = "\<lambda>a. call_nm a (svc_InitializeTasks e a topo (ld_JobSpec ?l))"
  let ?run = "fold (\<lambda>a (failed, w). case ?call a w of (ok, w') \<Rightarrow> (if ok then failed else failed + 1, w')) ?addrs (0 :: nat, w)"
  have "(i, a) \<in> set (entries (le_asg e (ld_Assignments ?l)) (ld_Assignments ?l))" using assms(7,8) by (simp add: entries_set)
  then have a: "a \<in> set ?addrs" unfolding node_set_def set_remdups set_map by (metis image_eqI snd_conv)
  then have "?addrs \<noteq> []" by auto
  then have L: "Leader_InitializeTasks e w = call_all ''initialize tasks'' ?call ?addrs w"
    using assms(3) by (simp add: Leader_InitializeTasks_def Let_def)
  then have ok: "fst ?run = 0" and run: "snd (Leader_InitializeTasks e w) = snd ?run"
    using assms(1) by (auto simp: call_all_def case_prod_unfold GoErr_def split: if_splits)
  show ?thesis unfolding run
  proof (rule fold_calls_success [where P = addressed, OF ok a _ assms(2)])
    show "distinct ?addrs" by (simp add: node_set_def)
    show "addressed (snd (?call b v))" if "addressed v" for b v using that by (rule call_nm_addressed) simp
    show "at_node (runs (tk_TaskID t)) a (snd (?call b v))" if "b \<noteq> a" "at_node (runs (tk_TaskID t)) a v" for b v
      using that by (simp add: call_nm_elsewhere)
    show "at_node (runs (tk_TaskID t)) a (snd (?call a v))" if "addressed v" "fst (?call a v)" for v
      using call_InitializeTasks_runs [OF that(2,1) assms(4-6)] .
  qed
qed

text \<open>The order in which a map is visited lists its keys.\<close>

definition visits :: "((string \<rightharpoonup> 'v) \<Rightarrow> string list) \<Rightarrow> bool" where
  "visits f \<longleftrightarrow> (\<forall>m. finite (dom m) \<longrightarrow> distinct (f m) \<and> set (f m) = dom m)"

lemma visitsD: "visits f \<Longrightarrow> finite (dom m) \<Longrightarrow> distinct (f m) \<and> set (f m) = dom m"
  by (simp add: visits_def)

lemma CreateTopology_finite:
  assumes "CreateTopology members self now job = Inr topo"
  shows "finite (dom (tp_Tasks topo))"
proof -
  have "dom (tp_Tasks topo) \<subseteq> (\<lambda>(s, i). task_name s i (Unix now)) ` ({1..js_NStages job} \<times> {0..<js_TasksPerStage job})"
    by (force simp: dom_def CreateTopology_tasks [OF assms])
  then show ?thesis by (rule finite_subset) simp
qed

lemma bind_cmd_None:
  "bind_cmd a b w = (None, w') \<longleftrightarrow> (\<exists>w1. a w = (None, w1) \<and> b w1 = (None, w'))"
  by (auto simp: bind_cmd_def split: prod.splits option.splits)

lemma StartStreaming_keeps:
  "w_nodes (snd (StartStreaming w)) = w_nodes w"
  "ld_Assignments (w_leader (snd (StartStreaming w))) = ld_Assignments (w_leader w)"
  by (simp_all add: StartStreaming_def Let_def upd_leader_def split: option.split)

lemma Leader_InitializeTasks_leader [simp]: "w_leader (snd (Leader_InitializeTasks e w)) = w_leader w"
  by (simp add: Leader_InitializeTasks_def Let_def call_all_leader split: option.split)

text \<open>
  C16: a job whose submission succeeds is up: every task of every stage is assigned to a
  node and runs there.
\<close>

theorem submit_starts_every_task:
  assumes "SubmitJob e job w = (None, w')" "addressed w" "visits (le_tasks e)" "visits (le_asg e)"
    and "1 \<le> s" "s \<le> js_NStages job" "0 \<le> i" "i < js_TasksPerStage job"
    and k: "k = task_name s i (Unix (le_now e))"
  shows "\<exists>a. ld_Assignments (w_leader w') k = Some a \<and> at_node (runs k) a w'"
proof -
  let ?w0 = "upd_leader (\<lambda>l. l\<lparr>ld_JobSpec := Some job\<rparr>) (killExistingJobTasks e w)"
  have a0: "addressed ?w0" using killExistingJobTasks_keeps [OF assms(2)] by (simp add: addressed_def upd_leader_def)
  obtain w1 w2 w3 where run: "submit_topology e job ?w0 = (None, w1)" "submit_assign e w1 = (None, w2)"
    "Leader_InitializeTasks e w2 = (None, w3)" "StartStreaming w3 = (None, w')"
    using assms(1) by (auto simp: SubmitJob_def bind_cmd_None)
  let ?m = "ld_members (w_leader ?w0)" and ?self = "ld_addr (w_leader ?w0)"
  obtain topo where topo: "CreateTopology ?m ?self (le_now e) job = Inr topo"
    and w1: "w1 = upd_leader (\<lambda>l. l\<lparr>ld_Topology := Some topo\<rparr>) ?w0"
    using run(1) by (auto simp: submit_topology_def GoErr_def split: sum.splits)
  obtain asg topo' nxt where asg: "computeTaskAssignments ?m ?self (le_tasks e (tp_Tasks topo)) topo = Inr (asg, topo', nxt)"
    and w2: "w2 = upd_leader (\<lambda>l. l\<lparr>ld_Topology := Some topo', ld_Assignments := asg, ld_nextScaleNode := nxt\<rparr>) w1"
    using run(2) by (auto simp: submit_assign_def w1 upd_leader_def GoErr_def split: sum.splits)
  have a2: "addressed w2" using a0 by (simp add: addressed_def w1 w2 upd_leader_def)
  have fin: "finite (dom (tp_Tasks topo))" by (rule CreateTopology_finite [OF topo])
  note v = visitsD [OF assms(3) fin]
  note res = computeTaskAssignments_result [OF asg _ _ refl]
  have dom: "dom asg = dom (tp_Tasks topo)" using res v by blast
  have dom': "dom (tp_Tasks topo') = dom (tp_Tasks topo)"
    using asg by (auto simp: computeTaskAssignments_def Let_def case_prod_unfold dom_def split: if_splits)
  have "tp_Tasks topo k = Some (stage_task job (Unix (le_now e)) s i)"
    unfolding k by (rule CreateTopology_task_in [OF topo assms(5-8)])
  then have "k \<in> dom asg" "k \<in> dom (tp_Tasks topo')" using dom dom' by auto
  then obtain a t where a: "asg k = Some a" and t: "tp_Tasks topo' k = Some t" by blast
  have addr: "tk_Address t = addPort2000 a" using res v t a by fastforce
  have id: "tk_TaskID t = k"
  proof -
    obtain u where u: "tp_Tasks topo k = Some u" "tk_TaskID t = tk_TaskID u"
      using asg t by (auto simp: computeTaskAssignments_def Let_def case_prod_unfold set_address_def
          split: if_splits option.splits)
    then show ?thesis using CreateTopology_tasks [OF topo, of k u] by auto
  qed
  have "at_node (runs (tk_TaskID t)) a (snd (Leader_InitializeTasks e w2))"
  proof (rule Leader_InitializeTasks_runs [OF _ a2 _ t _ addr])
    show "fst (Leader_InitializeTasks e w2) = None" by (simp add: run(3))
    show "ld_Topology (w_leader w2) = Some topo'" by (simp add: w2 upd_leader_def)
    show "k \<in> set (le_tasks e (tp_Tasks topo'))" using visitsD [OF assms(3)] fin dom' t by (auto simp: domI)
    show asg2: "ld_Assignments (w_leader w2) k = Some a" by (simp add: w2 upd_leader_def a)
    show "k \<in> set (le_asg e (ld_Assignments (w_leader w2)))"
      using visitsD [OF assms(4)] fin dom a by (auto simp: w2 upd_leader_def domI)
  qed
  then have "at_node (runs k) a w3" by (simp add: run(3) id)
  then have "at_node (runs k) a w'" using StartStreaming_keeps(1) [of w3] run(4) by (simp add: at_node_def)
  moreover have "w_leader w3 = w_leader w2" using Leader_InitializeTasks_leader [of e w2] run(3) by simp
  then have "ld_Assignments (w_leader w') k = Some a"
    using StartStreaming_keeps(2) [of w3] run(4) a by (simp add: w2 upd_leader_def)
  ultimately show ?thesis by blast
qed

subsection \<open>The source\<close>

lemma selectTaskByKey_total:
  assumes "ts \<noteq> []" "\<forall>t \<in> set ts. tk_Stage t = 1"
  shows "\<exists>t. selectTaskByKey v key ts = Some t \<and> tk_Stage t = 1"
proof -
  let ?s = "sort_slice (\<lambda>a b. tk_TaskID a < tk_TaskID b)"
  have pick: "tk_Stage (?s cs ! (unat (hashKey key) mod length (?s cs))) = 1"
    if "cs \<noteq> []" "\<forall>t \<in> set cs. tk_Stage t = 1" for cs :: "Task list"
  proof -
    have "?s cs ! (unat (hashKey key) mod length (?s cs)) \<in> set (?s cs)"
      using that(1) by (intro nth_mem) (simp add: tasks_sort.srt_length)
    then show ?thesis using that(2) by (simp add: tasks_sort.srt_set)
  qed
  define cs where "cs =
    (case v of
       Some (Some job, Some topologyTasks, taskStatuses) \<Rightarrow>
         (if js_Autoscale job then
            let dynamic = filter (\<lambda>t. tk_Stage t = 1 \<and>
                  (case taskStatuses (tk_TaskID t) of None \<Rightarrow> True | Some st \<Rightarrow> st = TaskRunning)) topologyTasks
            in if dynamic \<noteq> [] then dynamic else ts
          else ts)
     | _ \<Rightarrow> ts)"
  have "cs \<noteq> [] \<and> (\<forall>t \<in> set cs. tk_Stage t = 1)"
    using assms by (auto simp: cs_def Let_def split: option.splits prod.splits)
  moreover have "selectTaskByKey v key ts = (if cs = [] then None
      else Some (?s cs ! (unat (hashKey key) mod length (?s cs))))"
    by (simp only: selectTaskByKey_def cs_def Let_def)
  ultimately show ?thesis using pick by simp
qed

text \<open>The message for a line: the tuple named and keyed by file and line number, routed to some task of stage 1.\<close>

definition emitted :: "time \<Rightarrow> string \<Rightarrow> nat \<Rightarrow> string \<Rightarrow> message \<Rightarrow> bool" where
  "emitted now name k row msg \<longleftrightarrow>
     (\<exists>t :: Task. tk_Stage t = 1 \<and> msg = TupleMsg (tk_Address t) ((source_tuple now name k row)\<lparr>tp_TaskID := tk_TaskID t\<rparr>))"

definition line_id :: "string \<Rightarrow> nat \<Rightarrow> string" where
  "line_id name k = ''leader-'' @ name @ ''-'' @ dec (int k)"

lemma source_tuple_id [simp]: "tp_ID (source_tuple now name k row) = line_id name k"
  by (simp add: source_tuple_def line_id_def)

lemma line_id_inj: "line_id name k = line_id name k' \<longleftrightarrow> k = k'"
  using dec_inj [of "int k" "int k'"] by (auto simp: line_id_def)

lemma emit_lines_emits:
  assumes "ts \<noteq> []" "\<forall>t \<in> set ts. tk_Stage t = 1" "\<not> eom_isFinalStage e"
  shows "\<exists>msgs e'. emit_lines now view ts name k rows (Some e) = Inr (msgs, Some e') \<and> length msgs = length rows \<and>
    \<not> eom_isFinalStage e' \<and> (\<forall>j. eom_sent e j \<noteq> None \<longrightarrow> eom_sent e' j \<noteq> None) \<and>
    (\<forall>j < length rows. emitted (now (k + j + 1)) name (k + j + 1) (rows ! j) (msgs ! j) \<and>
      eom_sent e' (line_id name (k + j + 1)) \<noteq> None)"
  using assms(3)
proof (induction rows arbitrary: k e)
  case (Cons row rows)
  let ?tup = "source_tuple (now (k + 1)) name (k + 1) row"
  obtain t where t: "selectTaskByKey (view (k + 1)) (tp_Key ?tup) ts = Some t" "tk_Stage t = 1"
    using selectTaskByKey_total [OF assms(1,2)] by blast
  define e1 where "e1 = AddSentTuple (now (k + 1)) (?tup\<lparr>tp_TaskID := tk_TaskID t\<rparr>) (tp_ID ?tup) (tk_Address t) e"
  have e1: "\<not> eom_isFinalStage e1" "eom_sent e1 (line_id name (k + 1)) \<noteq> None"
    "\<And>j. eom_sent e j \<noteq> None \<Longrightarrow> eom_sent e1 j \<noteq> None"
    using Cons.prems by (auto simp: e1_def AddSentTuple_def Let_def eom_facts)
  from Cons.IH [OF e1(1), of "k + 1"] obtain msgs e' where IH:
    "emit_lines now view ts name (k + 1) rows (Some e1) = Inr (msgs, Some e')" "length msgs = length rows"
    "\<not> eom_isFinalStage e'" "\<And>j. eom_sent e1 j \<noteq> None \<Longrightarrow> eom_sent e' j \<noteq> None"
    "\<And>j. j < length rows \<Longrightarrow> emitted (now (k + 1 + j + 1)) name (k + 1 + j + 1) (rows ! j) (msgs ! j) \<and>
      eom_sent e' (line_id name (k + 1 + j + 1)) \<noteq> None" by blast
  let ?msg = "TupleMsg (tk_Address t) (?tup\<lparr>tp_TaskID := tk_TaskID t\<rparr>)"
  have "emit_lines now view ts name k (row # rows) (Some e) = Inr (?msg # msgs, Some e')"
    using IH(1) t(1) by (simp add: Let_def SendTuple_def e1_def)
  moreover have "emitted (now (k + j + 1)) name (k + j + 1) ((row # rows) ! j) ((?msg # msgs) ! j) \<and>
      eom_sent e' (line_id name (k + j + 1)) \<noteq> None" if "j < length (row # rows)" for j
  proof (cases j)
    case 0
    then show ?thesis using t(2) e1(2) IH(4) by (auto simp: emitted_def)
  next
    case (Suc n)
    then show ?thesis using IH(5) [of n] that by simp
  qed
  ultimately show ?case using IH(2-4) e1(3) by fastforce
qed simp


text \<open>Without a rate the ticker's period is zero and the source takes the leader down.\<close>

lemma source_without_rate_panics:
  assumes "js_SourceDir job \<noteq> []" "js_InputRate job \<le> 0" "\<exists>t \<in> set tasks. tk_Stage t = 1"
  shows "startSourceTask now view (SrcFile (Some rows)) job tasks eom = Inl (GoPanic ''non-positive interval for NewTicker'')"
  using assms by (auto simp: startSourceTask_def Let_def readFileAndEmitTuples_def source_delay_def filter_empty_conv)

subsection \<open>The instances\<close>

definition killedWorld :: World where
  "killedWorld = kill_and_report 5 (\<lambda>_. True) ''a'' ''n''
     (scaleWorld\<lparr>w_nodes := [''n'' \<mapsto> (scaleNode ''a'' ''n'')\<lparr>nm_leaderAddress := ''l''\<rparr>]\<rparr>)"

theorem killed_task_resumes_witness:
  "at_node (resumed scaleJob (scaleTask ''a'' ''n'') (Some [])) ''n''
     (healthMonitorTick (scaleEnv\<lparr>le_statuses := (\<lambda>_. [''a'']), le_wals := (\<lambda>_. Some [])\<rparr>) killedWorld)"
proof -
  let ?w = "scaleWorld\<lparr>w_nodes := [''n'' \<mapsto> (scaleNode ''a'' ''n'')\<lparr>nm_leaderAddress := ''l''\<rparr>]\<rparr>"
  let ?e = "scaleEnv\<lparr>le_statuses := (\<lambda>_. [''a'']), le_wals := (\<lambda>_. Some [])\<rparr>"
  have n: "\<exists>ti. nm_TaskInfos (scaleNode ''a'' ''n'') ''a'' = Some ti" "nm_NodeID (scaleNode ''a'' ''n'') = ''n''"
    by (simp_all add: scaleNode_def node_eval scaleTask_def NewTask_def scaleJob_def)
  then obtain ti where ti: "nm_TaskInfos (scaleNode ''a'' ''n'') ''a'' = Some ti" by blast
  have "at_node (resumed scaleJob (scaleTask ''a'' ''n'') (le_wals ?e ''a'')) ''n'' (healthMonitorTick ?e killedWorld)"
    by (rule killed_task_resumes [where topo = scaleTopo and w = ?w and i = "''a''" and pid = 7 and
          nm = "(scaleNode ''a'' ''n'')\<lparr>nm_leaderAddress := ''l''\<rparr>",
          OF _ _ _ _ _ _ _ _ _ _ _ killedWorld_def])
      (use scaleWorld_good ti n(2) in
        \<open>simp_all add: good_topology_def scaleTopo_def scaleTask_def scaleJob_def scaleWorld_def scaleEnv_def NewTask_def\<close>)
  then show ?thesis by simp
qed

definition submitJob :: JobSpec where
  "submitJob = scaleJob\<lparr>js_TasksPerStage := 1\<rparr>"

definition submitEnv :: lenv where
  "submitEnv = scaleEnv\<lparr>le_now := 62135596800000000000, le_tasks := (\<lambda>m. sorted_list_of_set (dom m)),
     le_asg := (\<lambda>m. sorted_list_of_set (dom m))\<rparr>"

definition submitWorld :: World where
  "submitWorld = \<lparr>w_leader = NewLeader ''l:80'' [zeroMember\<lparr>m_Address := ''b:80'', m_Status := StatusAlive\<rparr>],
     w_nodes = [''b:80'' \<mapsto> NewNodeManager ''b:80''], w_appends = []\<rparr>"

lemma visits_sorted: "visits (\<lambda>m. sorted_list_of_set (dom m))"
  by (simp add: visits_def)

lemma submit_addresses:
  "addPort2000 ''b:80'' = ''b:2080''" "nm_NodeID (NewNodeManager ''b:80'') = ''b:2080''"
  by (code_simp+)

definition submitTask :: Task where
  "submitTask = (NewTask (task_name 1 0 0) 1)\<lparr>tk_ExactlyOnce := True, tk_AutoscaleMode := True\<rparr>"

definition submitTopo :: Topology where
  "submitTopo = \<lparr>tp_JobID = ''job-'' @ dec 0, tp_Tasks = [task_name 1 0 0 \<mapsto> submitTask], tp_Stages = [1]\<rparr>"

definition submitPlaced :: Topology where
  "submitPlaced = submitTopo\<lparr>tp_Tasks := [task_name 1 0 0 \<mapsto> submitTask\<lparr>tk_NodeID := ''b:80'', tk_Address := ''b:2080''\<rparr>]\<rparr>"

lemma submit_create:
  "CreateTopology (ld_members (w_leader submitWorld)) (ld_addr (w_leader submitWorld)) (le_now submitEnv) submitJob = Inr submitTopo"
  by (simp add: CreateTopology_def submitWorld_def NewLeader_def GetAliveMembers_def IsAlive_def submitEnv_def Unix_def
      submitJob_def scaleJob_def NewTopology_def Topology_AddTask_def submitTopo_def submitTask_def stage_task_def NewTask_def)

lemma submit_place:
  "computeTaskAssignments (ld_members (w_leader submitWorld)) (ld_addr (w_leader submitWorld)) [task_name 1 0 0] submitTopo =
    Inr ([task_name 1 0 0 \<mapsto> ''b:80''], submitPlaced, 0)"
  by (simp add: computeTaskAssignments_def submitWorld_def NewLeader_def GetAliveMembers_def IsAlive_def Let_def
      assign_step_def submitTopo_def submitPlaced_def submitTask_def set_address_def submit_addresses NewTask_def
      fill_addresses_def fun_eq_iff)

lemma submitWorld_addressed: "addressed submitWorld"
  by (simp add: addressed_def submitWorld_def submit_addresses)

lemma submit_init:
  assumes "w_nodes w = w_nodes submitWorld" "ld_Topology (w_leader w) = Some submitPlaced"
    "ld_Assignments (w_leader w) = [task_name 1 0 0 \<mapsto> ''b:80'']" "ld_JobSpec (w_leader w) = Some submitJob"
  shows "\<exists>w'. Leader_InitializeTasks submitEnv w = (None, w') \<and> w_leader w' = w_leader w"
proof -
  let ?nm = "NewNodeManager ''b:80''" and ?k = "task_name 1 0 0"
  have nm: "nm_TaskInfos ?nm = Map.empty" by (simp add: NewNodeManager_def)
  have "entries (le_asg submitEnv [?k \<mapsto> ''b:80'']) [?k \<mapsto> ''b:80''] = [(?k, ''b:80'')]"
    by (simp add: entries_def submitEnv_def List.map_filter_def)
  then have addrs: "node_set submitEnv (ld_Assignments (w_leader w)) = [''b:80'']"
    by (simp add: node_set_def assms(3))
  have ent: "entries (le_tasks submitEnv (tp_Tasks submitPlaced)) (tp_Tasks submitPlaced) =
      [(?k, submitTask\<lparr>tk_NodeID := ''b:80'', tk_Address := ''b:2080''\<rparr>)]"
    by (simp add: entries_def submitEnv_def submitPlaced_def List.map_filter_def)
  have "\<exists>nm'. svc_InitializeTasks submitEnv ''b:80'' submitPlaced (Some submitJob) ?nm = (nm', None)"
    unfolding svc_InitializeTasks_def InitializeTasks_def ent
    by (simp add: submit_addresses InitializeTask_def nm Let_def stageOpOf_def
        submitTask_def NewTask_def submitJob_def scaleJob_def submitEnv_def scaleEnv_def)
  then have call: "\<exists>w'. call_nm ''b:80'' (svc_InitializeTasks submitEnv ''b:80'' submitPlaced (Some submitJob)) w = (True, w')"
    by (auto simp: call_nm_def assms(1) submitWorld_def)
  then obtain w' where "Leader_InitializeTasks submitEnv w = (None, w')"
    by (auto simp: Leader_InitializeTasks_def Let_def assms(2,4) addrs call_all_def)
  then show ?thesis using Leader_InitializeTasks_leader [of submitEnv w] by auto
qed

lemma submitWorld_submits: "\<exists>w'. SubmitJob submitEnv submitJob submitWorld = (None, w')"
proof -
  have k: "killExistingJobTasks submitEnv submitWorld = submitWorld"
    by (simp add: killExistingJobTasks_def submitWorld_def NewLeader_def)
  let ?w0 = "upd_leader (\<lambda>l. l\<lparr>ld_JobSpec := Some submitJob\<rparr>) submitWorld"
  let ?w1 = "upd_leader (\<lambda>l. l\<lparr>ld_Topology := Some submitTopo\<rparr>) ?w0"
  let ?w2 = "upd_leader (\<lambda>l. l\<lparr>ld_Topology := Some submitPlaced, ld_Assignments := [task_name 1 0 0 \<mapsto> ''b:80''], ld_nextScaleNode := 0\<rparr>) ?w1"
  have 1: "submit_topology submitEnv submitJob ?w0 = (None, ?w1)"
    using submit_create by (simp add: submit_topology_def upd_leader_def)
  have "le_tasks submitEnv (tp_Tasks submitTopo) = [task_name 1 0 0]" by (simp add: submitEnv_def submitTopo_def)
  then have 2: "submit_assign submitEnv ?w1 = (None, ?w2)"
    using submit_place by (simp add: submit_assign_def upd_leader_def)
  obtain w3 where 3: "Leader_InitializeTasks submitEnv ?w2 = (None, w3)" "w_leader w3 = w_leader ?w2"
    using submit_init [of ?w2] by (auto simp: upd_leader_def)
  have "\<exists>w4. StartStreaming w3 = (None, w4)"
    by (simp add: StartStreaming_def 3(2) Let_def upd_leader_def)
  then show ?thesis unfolding SubmitJob_def k bind_cmd_None using 1 2 3(1) by blast
qed

theorem submit_starts_every_task_witness:
  "\<exists>w' a. SubmitJob submitEnv submitJob submitWorld = (None, w') \<and> at_node (runs (task_name 1 0 0)) a w'"
proof -
  obtain w' where w': "SubmitJob submitEnv submitJob submitWorld = (None, w')" using submitWorld_submits by blast
  have "visits (le_tasks submitEnv)" "visits (le_asg submitEnv)" using visits_sorted by (simp_all add: submitEnv_def)
  from submit_starts_every_task [OF w' submitWorld_addressed this, of 1 0] w' show ?thesis
    by (auto simp: submitJob_def scaleJob_def submitEnv_def Unix_def)
qed


end
