(* ===== verification/Metadata.thy ===== *)
theory Metadata imports KeyedTable begin

text \<open>
  \<open>metadata.go\<close>: what a node records about the HyDFS files it stores. The file map is a
  partial function; of the per-file locks only their presence matters to the results, so
  \<open>md_locks\<close> is the set of names that have one (a nil lock map is the empty set). Each
  operation runs under its locks and is atomic. Go iterates over a map in an unspecified
  order: an operation that lists the files takes the listing as an argument, and
  \<open>is_listing\<close> says what Go guarantees of it.
\<close>

record AppendInfo =
  ap_FileName :: string
  ap_AppendID :: string
  ap_ClientID :: string
  ap_ClientTimestamp :: string
  ap_AppendHash :: string
  ap_Size :: int

record FileMetadata =
  fm_FileName :: string
  fm_FileContentHash :: string
  fm_FileNameHash :: int
  fm_CreationTime :: string
  fm_Appends :: "AppendInfo list"

definition zeroFileMetadata :: FileMetadata where
  "zeroFileMetadata = \<lparr>fm_FileName = [], fm_FileContentHash = [], fm_FileNameHash = 0,
     fm_CreationTime = [], fm_Appends = []\<rparr>"

record Metadata =
  md_Files :: "string \<rightharpoonup> FileMetadata"
  md_locks :: "string set"

definition emptyMetadata :: Metadata where
  "emptyMetadata = \<lparr>md_Files = Map.empty, md_locks = {}\<rparr>"

definition insertAppend :: "FileMetadata \<Rightarrow> AppendInfo \<Rightarrow> FileMetadata" where
  "insertAppend fileMeta newAppend =
     (case find_index (\<lambda>a. ap_ClientID a = ap_ClientID newAppend \<and>
                           ap_ClientTimestamp a > ap_ClientTimestamp newAppend) (fm_Appends fileMeta) of
        Some i \<Rightarrow> fileMeta\<lparr>fm_Appends :=
          take i (fm_Appends fileMeta) @ [newAppend] @ drop i (fm_Appends fileMeta)\<rparr>
      | None \<Rightarrow> fileMeta\<lparr>fm_Appends := fm_Appends fileMeta @ [newAppend]\<rparr>)"

definition AddFile :: "Metadata \<Rightarrow> FileMetadata \<Rightarrow> Metadata" where
  "AddFile m meta =
     \<lparr>md_Files = (md_Files m)(fm_FileName meta \<mapsto> meta),
      md_locks = insert (fm_FileName meta) (md_locks m)\<rparr>"

definition GetFile :: "Metadata \<Rightarrow> string \<Rightarrow> FileMetadata option" where
  "GetFile m filename = md_Files m filename"

definition AppendToFile :: "Metadata \<Rightarrow> string \<Rightarrow> AppendInfo \<Rightarrow> (go_err + Metadata)" where
  "AppendToFile m filename appendInfo =
     (if filename \<notin> md_locks m then Inl (GoError ''file does not exist'')
      else
        let fileMeta = (case md_Files m filename of Some f \<Rightarrow> f | None \<Rightarrow> zeroFileMetadata)
        in if list_ex (\<lambda>a. ap_AppendID a = ap_AppendID appendInfo) (fm_Appends fileMeta) then Inr m
           else Inr (m\<lparr>md_Files := (md_Files m)(filename \<mapsto> insertAppend fileMeta appendInfo)\<rparr>))"

definition DeleteFile :: "Metadata \<Rightarrow> string \<Rightarrow> bool \<times> Metadata" where
  "DeleteFile m filename =
     (if md_Files m filename = None then (False, m)
      else (True, \<lparr>md_Files = (md_Files m)(filename := None),
                   md_locks = md_locks m - {filename}\<rparr>))"

definition is_listing :: "Metadata \<Rightarrow> string list \<Rightarrow> bool" where
  "is_listing m names \<longleftrightarrow> distinct names \<and> set names = dom (md_Files m)"

subsection \<open>JSON form\<close>

text \<open>
  \<open>MarshalJSON\<close> and \<open>UnmarshalJSON\<close> replace the big integer by its decimal text;
  \<open>BigSetString\<close> is \<open>big.Int.SetString\<close> in base 10. The JSON text of the remaining fields is
  \<open>encoding/json\<close>'s affair, so the auxiliary struct is the unit of the round trip.
\<close>

record FileMetadataJSON =
  js_FileName :: string
  js_FileContentHash :: string
  js_FileNameHash :: string
  js_CreationTime :: string
  js_Appends :: "AppendInfo list"

definition BigSetString :: "string \<Rightarrow> int option" where
  "BigSetString s =
     (let neg = (case s of c # _ \<Rightarrow> c = CHR ''-'' | [] \<Rightarrow> False);
          body = (case s of c # cs \<Rightarrow> if c = CHR ''-'' \<or> c = CHR ''+'' then cs else s | [] \<Rightarrow> [])
      in if body = [] \<or> \<not> list_all is_digit body then None
         else Some (if neg then - int (digits_val 0 body) else int (digits_val 0 body)))"

lemma BigSetString_dec: "BigSetString (dec i) = Some i"
proof (cases "i < 0")
  case True
  then show ?thesis
    by (simp add: BigSetString_def dec_def Let_def digits_val_dec_nat list_all_dec_nat dec_nat_not_Nil)
next
  case False
  obtain c cs where c: "dec_nat (nat i) = c # cs" "is_digit c" by (rule dec_nat_hd)
  have "digits_val 0 (c # cs) = nat i" "list_all is_digit (c # cs)"
    using digits_val_dec_nat [of "nat i"] list_all_dec_nat [of "nat i"] c(1) by simp_all
  moreover have "c \<noteq> CHR ''-''" "c \<noteq> CHR ''+''" using is_digit_not [OF c(2)] by auto
  ultimately show ?thesis
    using False c(1) by (simp add: BigSetString_def dec_def Let_def)
qed

definition FileMetadata_MarshalJSON :: "FileMetadata \<Rightarrow> FileMetadataJSON" where
  "FileMetadata_MarshalJSON fm =
     \<lparr>js_FileName = fm_FileName fm, js_FileContentHash = fm_FileContentHash fm,
      js_FileNameHash = dec (fm_FileNameHash fm), js_CreationTime = fm_CreationTime fm,
      js_Appends = fm_Appends fm\<rparr>"

definition FileMetadata_UnmarshalJSON :: "FileMetadataJSON \<Rightarrow> FileMetadata go" where
  "FileMetadata_UnmarshalJSON aux =
     (case BigSetString (js_FileNameHash aux) of
        None \<Rightarrow> Inl (GoError ''invalid file_name_hash format'')
      | Some h \<Rightarrow> Inr \<lparr>fm_FileName = js_FileName aux, fm_FileContentHash = js_FileContentHash aux,
          fm_FileNameHash = h, fm_CreationTime = js_CreationTime aux, fm_Appends = js_Appends aux\<rparr>)"

text \<open>
  Encoding the metadata of a file and decoding it again gives back the same metadata,
  with the name hash intact whatever its size or sign.
\<close>

theorem FileMetadata_JSON_roundtrip:
  "FileMetadata_UnmarshalJSON (FileMetadata_MarshalJSON fm) = Inr fm"
  by (simp add: FileMetadata_UnmarshalJSON_def FileMetadata_MarshalJSON_def BigSetString_dec)

subsection \<open>The table interface\<close>

text \<open>Every stored file has its lock, and is stored under its own name.\<close>

definition md_inv :: "Metadata \<Rightarrow> bool" where
  "md_inv m \<longleftrightarrow> md_locks m = dom (md_Files m) \<and>
     (\<forall>n f. md_Files m n = Some f \<longrightarrow> fm_FileName f = n)"

lemma md_inv_empty [simp]: "md_inv emptyMetadata"
  by (simp add: md_inv_def emptyMetadata_def)

lemma AddFile_inv: "md_inv m \<Longrightarrow> md_inv (AddFile m meta)"
  by (auto simp: md_inv_def AddFile_def)

lemma DeleteFile_inv: "md_inv m \<Longrightarrow> md_inv (snd (DeleteFile m n))"
  by (auto simp: md_inv_def DeleteFile_def split: if_splits)

lemma fm_FileName_insertAppend [simp]: "fm_FileName (insertAppend fm a) = fm_FileName fm"
  by (simp add: insertAppend_def split: option.splits)

lemma AppendToFile_inv: "md_inv m \<Longrightarrow> AppendToFile m n a = Inr m' \<Longrightarrow> md_inv m'"
  by (auto simp: md_inv_def AppendToFile_def Let_def dom_def split: if_splits option.splits)

lemma GetFile_AddFile: "GetFile (AddFile m meta) = (GetFile m)(fm_FileName meta \<mapsto> meta)"
  by (auto simp: GetFile_def AddFile_def)

lemma GetFile_DeleteFile: "GetFile (snd (DeleteFile m n)) = (GetFile m)(n := None)"
  by (auto simp: GetFile_def DeleteFile_def)

interpretation files: keyed_table_del fm_FileName md_inv GetFile AddFile "\<lambda>m n. snd (DeleteFile m n)"
  by unfold_locales (simp_all add: AddFile_inv DeleteFile_inv GetFile_AddFile GetFile_DeleteFile)

subsection \<open>The order of appends\<close>

abbreviation appends_of :: "string \<Rightarrow> AppendInfo list \<Rightarrow> AppendInfo list" where
  "appends_of c xs \<equiv> filter (\<lambda>a. ap_ClientID a = c) xs"

text \<open>The list part of \<open>insertAppend\<close>.\<close>

definition insert_append :: "AppendInfo list \<Rightarrow> AppendInfo \<Rightarrow> AppendInfo list" where
  "insert_append xs new = fm_Appends (insertAppend (zeroFileMetadata\<lparr>fm_Appends := xs\<rparr>) new)"

lemma fm_Appends_insertAppend:
  "fm_Appends (insertAppend fm new) = insert_append (fm_Appends fm) new"
  by (simp add: insert_append_def insertAppend_def split: option.splits)

lemma insert_append_cut:
  fixes new defines "P \<equiv> \<lambda>a. ap_ClientID a = ap_ClientID new \<and> ap_ClientTimestamp a > ap_ClientTimestamp new"
  obtains pre post where "xs = pre @ post" "insert_append xs new = pre @ new # post"
    "\<forall>a \<in> set pre. \<not> P a" "post \<noteq> [] \<Longrightarrow> P (hd post)"
proof (cases "find_index P xs")
  case None
  have "insert_append xs new = xs @ new # []"
    using None [unfolded P_def] by (simp add: insert_append_def insertAppend_def zeroFileMetadata_def)
  moreover have "\<forall>a \<in> set xs. \<not> P a" using None by (simp add: find_index_None)
  ultimately show ?thesis by (intro that [of xs "[]"]) simp_all
next
  case (Some i)
  note i = find_index_Some [OF this]
  have "\<forall>a \<in> set (take i xs). \<not> P a" using i by (auto simp: in_set_conv_nth)
  moreover have "P (hd (drop i xs))" using i by (simp add: hd_drop_conv_nth)
  moreover have "insert_append xs new = take i xs @ new # drop i xs"
    using Some [unfolded P_def] by (simp add: insert_append_def insertAppend_def zeroFileMetadata_def)
  ultimately show ?thesis by (intro that [of "take i xs" "drop i xs"]) simp_all
qed

lemma mset_insert_append: "mset (insert_append xs new) = add_mset new (mset xs)"
  by (rule insert_append_cut [of xs new]) simp

lemma insert_append_other:
  "c \<noteq> ap_ClientID new \<Longrightarrow> appends_of c (insert_append xs new) = appends_of c xs"
  by (rule insert_append_cut [of xs new]) simp

lemma insert_append_sorted:
  assumes "sorted (map ap_ClientTimestamp (appends_of c xs))"
  shows "sorted (map ap_ClientTimestamp (appends_of c (insert_append xs new)))"
proof (cases "c = ap_ClientID new")
  case False
  with assms show ?thesis by (simp add: insert_append_other)
next
  case True
  obtain pre post where cut: "xs = pre @ post" "insert_append xs new = pre @ new # post"
    and pre: "\<forall>a \<in> set pre. \<not> (ap_ClientID a = ap_ClientID new \<and> ap_ClientTimestamp new < ap_ClientTimestamp a)"
    and post: "post \<noteq> [] \<Longrightarrow> ap_ClientID (hd post) = ap_ClientID new \<and> ap_ClientTimestamp new < ap_ClientTimestamp (hd post)"
    using insert_append_cut [of xs new] by blast
  have before: "\<forall>a \<in> set (appends_of c pre). ap_ClientTimestamp a \<le> ap_ClientTimestamp new"
    using pre True by (auto simp: not_less)
  have after: "\<forall>a \<in> set (appends_of c post). ap_ClientTimestamp new \<le> ap_ClientTimestamp a"
  proof (cases post)
    case (Cons p ps)
    with post True assms cut(1) show ?thesis by (auto simp: sorted_append)
  qed simp
  show ?thesis
    using assms before after True cut by (auto simp: sorted_append)
qed

text \<open>Delivering a list of appends one after the other.\<close>

definition deliver :: "AppendInfo list \<Rightarrow> AppendInfo list \<Rightarrow> AppendInfo list" where
  "deliver start new = foldl insert_append start new"

lemma mset_deliver: "mset (deliver xs new) = mset xs + mset new"
  by (induction new arbitrary: xs) (simp_all add: deliver_def mset_insert_append)

lemma deliver_sorted:
  "sorted (map ap_ClientTimestamp (appends_of c xs)) \<Longrightarrow>
    sorted (map ap_ClientTimestamp (appends_of c (deliver xs new)))"
  by (induction new arbitrary: xs) (simp_all add: deliver_def insert_append_sorted)


definition sampleAppend :: "string \<Rightarrow> string \<Rightarrow> AppendInfo" where
  "sampleAppend c t = \<lparr>ap_FileName = ''f'', ap_AppendID = ''f_'' @ t @ ''_'' @ c, ap_ClientID = c,
     ap_ClientTimestamp = t, ap_AppendHash = [], ap_Size = 0\<rparr>"


text \<open>
  An append whose identifier is already recorded changes nothing and is reported as
  success; any other append to a stored file is recorded exactly once; an append to an unknown file
  is an error.
\<close>

theorem AppendToFile_cases:
  assumes "md_inv m"
  shows "AppendToFile m n a =
    (case GetFile m n of
       None \<Rightarrow> Inl (GoError ''file does not exist'')
     | Some f \<Rightarrow>
         if ap_AppendID a \<in> ap_AppendID ` set (fm_Appends f) then Inr m
         else Inr (m\<lparr>md_Files := (md_Files m)(n \<mapsto>
                f\<lparr>fm_Appends := insert_append (fm_Appends f) a\<rparr>)\<rparr>))"
proof -
  have "insertAppend f a = f\<lparr>fm_Appends := insert_append (fm_Appends f) a\<rparr>" for f
    by (simp add: insertAppend_def insert_append_def split: option.splits)
  with assms show ?thesis
    by (auto simp: AppendToFile_def GetFile_def md_inv_def Let_def list_ex_iff image_iff
        split: option.splits)
qed

theorem AppendToFile_cases_witness:
  "AppendToFile emptyMetadata ''f'' (sampleAppend ''a'' ''1'') = Inl (GoError ''file does not exist'')"
  using AppendToFile_cases [OF md_inv_empty, of "''f''" "sampleAppend ''a'' ''1''"]
  by (simp add: GetFile_def emptyMetadata_def)

end
