(* ===== verification/Server.thy ===== *)
theory Server imports MembershipList Metadata begin

text \<open>
  \<open>server.go\<close>: the state of a node's membership and storage side, its construction, and the
  operations on it that do not need another component: marking nodes for stabilization,
  the heartbeat tick and the graceful leave of \<open>cli.go\<close>. The node manager and the leader, which the
  Go struct also points to, are the theories \<open>NodeManager\<close> and \<open>Leader\<close>.

  A goroutine \<open>go server.handleReplicationWindowChange(id)\<close> is recorded by appending \<open>id\<close> to
  \<open>srv_launched\<close>: the work runs later, on the state it then finds. Reading a Go map at a
  missing key gives the zero value, here the absence of the key.
\<close>

datatype StabilizationStatus = NewlyJoined | FailedNode | ProcessedNode | InProgressNode

record Server =
  srv_Addr :: string
  srv_Created :: time
  srv_IntroducerAddr :: string
  srv_Incarnation :: "64 word"
  srv_Heartbeat :: "64 word"
  srv_IsIntroducer :: bool
  srv_Members :: MembershipList
  srv_Bandwidth :: BandwidthStats
  srv_Hash :: int
  srv_Metadata :: Metadata
  srv_FileDirectory :: string
  srv_LocalDirectory :: string
  srv_FailedPending :: "string \<rightharpoonup> StabilizationStatus"
  srv_JoinedPending :: "string \<rightharpoonup> StabilizationStatus"
  srv_launched :: "string list"

definition ServerID :: "Server \<Rightarrow> string" where
  "ServerID s = srv_Addr s @ ''-'' @ dec (Unix (srv_Created s))"

definition NewServer :: "(string \<Rightarrow> nat) \<Rightarrow> Config \<Rightarrow> time \<Rightarrow> string \<Rightarrow> string \<Rightarrow> bool \<Rightarrow> Server" where
  "NewServer sha1 cfg now addr introducerAddr isIntroducer =
     (let hashValue = HashToMbits sha1 cfg addr;
          member = \<lparr>m_Address = addr, m_Created = now, m_Status = StatusAlive, m_Heartbeat = 1,
                     m_Incarnation = 1, m_LastUpdated = now, m_Hash = hashValue\<rparr>;
          vmName = AddressToVMName addr
      in \<lparr>srv_Addr = addr, srv_Created = m_Created member, srv_IntroducerAddr = introducerAddr,
          srv_Incarnation = m_Incarnation member, srv_Heartbeat = m_Heartbeat member,
          srv_IsIntroducer = isIntroducer, srv_Members = AddOrUpdate NewMembershipList member,
          srv_Bandwidth = \<lparr>bs_BytesSent = 0, bs_BytesReceived = 0\<rparr>, srv_Hash = hashValue,
          srv_Metadata = emptyMetadata, srv_FileDirectory = ''./hydfs/'' @ vmName,
          srv_LocalDirectory = ''./localdirectory/'' @ vmName, srv_FailedPending = Map.empty,
          srv_JoinedPending = Map.empty, srv_launched = []\<rparr>)"

definition handleDeadNode :: "Server \<Rightarrow> Member \<Rightarrow> Server" where
  "handleDeadNode server m =
     (if srv_FailedPending server (MemberID m) = Some FailedNode then server
      else server\<lparr>srv_FailedPending := (srv_FailedPending server)(MemberID m \<mapsto> FailedNode),
                  srv_launched := srv_launched server @ [MemberID m]\<rparr>)"

definition handleNewlyJoinedNode :: "Server \<Rightarrow> Member \<Rightarrow> Server" where
  "handleNewlyJoinedNode server m =
     (if srv_JoinedPending server (MemberID m) = Some NewlyJoined then server
      else server\<lparr>srv_JoinedPending := (srv_JoinedPending server)(MemberID m \<mapsto> NewlyJoined),
                  srv_launched := srv_launched server @ [MemberID m]\<rparr>)"

text \<open>One tick of \<open>increaseHeartbeat\<close>.\<close>

definition increaseHeartbeat :: "Config \<Rightarrow> time \<Rightarrow> Server \<Rightarrow> Server" where
  "increaseHeartbeat cfg now s =
     (if cfg_Protocol cfg = PingAckProtocol then s
      else
        let s = s\<lparr>srv_Heartbeat := srv_Heartbeat s + 1\<rparr>;
            selfMember = \<lparr>m_Address = srv_Addr s, m_Created = srv_Created s, m_Status = StatusAlive,
              m_Heartbeat = srv_Heartbeat s, m_Incarnation = srv_Incarnation s,
              m_LastUpdated = now, m_Hash = srv_Hash s\<rparr>
        in s\<lparr>srv_Members := AddOrUpdate (srv_Members s) selfMember\<rparr>)"

definition leaveGroup :: "time \<Rightarrow> Server \<Rightarrow> Server" where
  "leaveGroup now s =
     (case Snapshot (srv_Members s) (ServerID s) of
        None \<Rightarrow> s
      | Some selfMember \<Rightarrow>
          let selfMember = (MarkVoluntaryLeave now selfMember)\<lparr>m_Incarnation := srv_Incarnation s\<rparr>
          in s\<lparr>srv_Members := AddOrUpdate (srv_Members s) selfMember\<rparr>)"

subsection \<open>Invariant\<close>

text \<open>
  The member list and the metadata are well formed, and the stabilization work launched is exactly
  what the two pending maps record: at most one failure and one join job per member ID.
\<close>

definition srv_inv :: "Server \<Rightarrow> bool" where
  "srv_inv s \<longleftrightarrow> ml_inv (srv_Members s) \<and> md_inv (srv_Metadata s)"

definition launched_once :: "Server \<Rightarrow> bool" where
  "launched_once s \<longleftrightarrow>
     (\<forall>k. count_list (srv_launched s) k =
        (if srv_FailedPending s k = Some FailedNode then 1 else 0) +
        (if srv_JoinedPending s k = Some NewlyJoined then 1 else 0))"

lemma count_list_snoc: "count_list (xs @ [x]) y = count_list xs y + (if x = y then 1 else 0)"
  by (induction xs) auto

lemma handleDeadNode_fields [simp]:
  "srv_Members (handleDeadNode s m) = srv_Members s"
  "srv_Metadata (handleDeadNode s m) = srv_Metadata s"
  "srv_Addr (handleDeadNode s m) = srv_Addr s"
  "srv_Created (handleDeadNode s m) = srv_Created s"
  "srv_Incarnation (handleDeadNode s m) = srv_Incarnation s"
  "srv_JoinedPending (handleDeadNode s m) = srv_JoinedPending s"
  "srv_FailedPending (handleDeadNode s m) = (srv_FailedPending s)(MemberID m \<mapsto> FailedNode)"
  by (auto simp: handleDeadNode_def)

lemma handleNewlyJoinedNode_fields [simp]:
  "srv_Members (handleNewlyJoinedNode s m) = srv_Members s"
  "srv_Metadata (handleNewlyJoinedNode s m) = srv_Metadata s"
  "srv_Addr (handleNewlyJoinedNode s m) = srv_Addr s"
  "srv_Created (handleNewlyJoinedNode s m) = srv_Created s"
  "srv_Incarnation (handleNewlyJoinedNode s m) = srv_Incarnation s"
  "srv_FailedPending (handleNewlyJoinedNode s m) = srv_FailedPending s"
  by (auto simp: handleNewlyJoinedNode_def)

lemma ServerID_handle [simp]:
  "ServerID (handleDeadNode s m) = ServerID s"
  "ServerID (handleNewlyJoinedNode s m) = ServerID s"
  by (simp_all add: ServerID_def)

lemma srv_inv_handle [simp]:
  "srv_inv (handleDeadNode s m) = srv_inv s"
  "srv_inv (handleNewlyJoinedNode s m) = srv_inv s"
  by (simp_all add: srv_inv_def)

lemma launched_once_handleDeadNode: "launched_once s \<Longrightarrow> launched_once (handleDeadNode s m)"
  by (auto simp: launched_once_def handleDeadNode_def count_list_snoc)

lemma launched_once_handleNewlyJoinedNode:
  "launched_once s \<Longrightarrow> launched_once (handleNewlyJoinedNode s m)"
  by (auto simp: launched_once_def handleNewlyJoinedNode_def count_list_snoc)

lemma NewServer_inv:
  "srv_inv (NewServer sha1 cfg now a i b) \<and> launched_once (NewServer sha1 cfg now a i b)"
  by (simp add: srv_inv_def NewServer_def Let_def AddOrUpdate_inv launched_once_def)

lemma ServerID_NewServer_self:
  "Snapshot (srv_Members (NewServer sha1 cfg now a i b)) (ServerID (NewServer sha1 cfg now a i b)) \<noteq> None"
  by (simp add: NewServer_def Let_def AddOrUpdate_Snapshot ServerID_def MemberID_def)

lemma increaseHeartbeat_inv: "srv_inv s \<Longrightarrow> srv_inv (increaseHeartbeat cfg now s)"
  by (simp add: srv_inv_def increaseHeartbeat_def Let_def AddOrUpdate_inv)

lemma leaveGroup_inv: "srv_inv s \<Longrightarrow> srv_inv (leaveGroup now s)"
  by (simp add: srv_inv_def leaveGroup_def Let_def AddOrUpdate_inv split: option.splits)

text \<open>A heartbeat tick overwrites the server's own entry, whatever was merged into it before.\<close>

lemma increaseHeartbeat_self:
  assumes "srv_inv s" and "cfg_Protocol cfg \<noteq> PingAckProtocol"
  shows "Snapshot (srv_Members (increaseHeartbeat cfg now s)) =
    (Snapshot (srv_Members s))(ServerID s \<mapsto>
      \<lparr>m_Address = srv_Addr s, m_Created = srv_Created s, m_Status = StatusAlive,
       m_Heartbeat = srv_Heartbeat s + 1, m_Incarnation = srv_Incarnation s,
       m_LastUpdated = now, m_Hash = srv_Hash s\<rparr>)"
  using assms
  by (simp add: srv_inv_def increaseHeartbeat_def Let_def AddOrUpdate_Snapshot MemberID_def ServerID_def)

text \<open>The introducer of a fresh cluster (created at Unix time 0), used by the concrete instances of this development.\<close>

definition demoServer :: Server where
  "demoServer = NewServer (\<lambda>_. 5) initialConfig 62135596800000000000 ''n1:8080'' ''n1:8080'' True"

lemma demoServer_inv [simp]: "srv_inv demoServer" "launched_once demoServer"
  by (simp_all add: demoServer_def NewServer_inv)

lemma demoServer_members [simp]: "ml_inv (srv_Members demoServer)"
  using demoServer_inv(1) by (simp add: srv_inv_def)

end
