(* ===== verification/Ring.thy ===== *)
theory Ring imports Server "HOL-Library.Signed_Division" begin

text \<open>
  \<open>ring.go\<close> and the placement function \<open>findTargetNodes\<close> of \<open>hydfs_operations.go\<close>: key ranges,
  replica sets and the decision which files a node keeps. Positions on the ring are integers
  (\<open>big.Int\<close>); Go's \<open>%\<close> truncates towards zero (\<open>smod\<close>), so an index computed with it can be
  negative, and indexing with it then panics. A nil pair of range bounds is \<open>None\<close>.

  The main fact is that the two computations the code has for the primary of a key agree: the node
  in whose primary range a key lies (\<open>GetPrimaryKeyRange\<close>) is the first target of the key
  (\<open>findTargetNodes\<close>), provided no two alive members share a position.
\<close>

definition GetNodeIndex :: "Member list \<Rightarrow> string \<Rightarrow> int" where
  "GetNodeIndex members nodeID = (case member_index nodeID members of Some i \<Rightarrow> int i | None \<Rightarrow> -1)"

definition GetRingSuccessorIdx :: "int \<Rightarrow> int \<Rightarrow> int \<Rightarrow> int" where
  "GetRingSuccessorIdx idx step n = (idx + step) smod n"

definition GetRingPredecessorIdx :: "int \<Rightarrow> int \<Rightarrow> int" where
  "GetRingPredecessorIdx idx n = (idx - 1 + n) smod n"

text \<open>The search for the nearest alive predecessor: at most \<open>fuel\<close> more steps.\<close>

fun alive_predecessor :: "nat \<Rightarrow> Member list \<Rightarrow> int \<Rightarrow> int option" where
  "alive_predecessor 0 members predIdx = None"
| "alive_predecessor (Suc fuel) members predIdx =
     (let predIdx = GetRingPredecessorIdx predIdx (int (length members))
      in if IsAlive (members ! nat predIdx) then Some predIdx
         else alive_predecessor fuel members predIdx)"

definition GetPrimaryKeyRange :: "Member list \<Rightarrow> string \<Rightarrow> (int \<times> int) option" where
  "GetPrimaryKeyRange members nodeID =
     (let N = length members; myIdx = GetNodeIndex members nodeID
      in if N = 0 \<or> myIdx = -1 then None
         else case alive_predecessor N members myIdx of
            None \<Rightarrow> None
          | Some predIdx \<Rightarrow> Some (m_Hash (members ! nat predIdx), m_Hash (members ! nat myIdx)))"

definition GetAllKeyRange :: "Member list \<Rightarrow> string \<Rightarrow> int \<Rightarrow> (int \<times> int) option go" where
  "GetAllKeyRange members nodeID replicationFactor =
     (let N = int (length members); myIdx = GetNodeIndex members nodeID
      in if N = 0 \<or> myIdx = -1 then Inr None
         else
           let predIdx = (myIdx - replicationFactor + N) smod N
           in if predIdx < 0 then Inl (GoPanic ''index out of range'')
              else Inr (Some (m_Hash (members ! nat predIdx), m_Hash (members ! nat myIdx))))"

definition IsHashInRange :: "int \<Rightarrow> int \<Rightarrow> int \<Rightarrow> bool" where
  "IsHashInRange fileHash startRange endRange =
     (if startRange < endRange then fileHash > startRange \<and> fileHash \<le> endRange
      else fileHash > startRange \<or> fileHash \<le> endRange)"

text \<open>\<open>names\<close> is the order in which Go's range statement visits the files.\<close>

definition GetFilesWithinRange ::
    "string list \<Rightarrow> (string \<rightharpoonup> FileMetadata) \<Rightarrow> int \<Rightarrow> int \<Rightarrow> string list" where
  "GetFilesWithinRange names files startRange endRange =
     filter (\<lambda>name. case files name of
         None \<Rightarrow> False
       | Some meta \<Rightarrow>
           if startRange < endRange then fm_FileNameHash meta > startRange \<and> fm_FileNameHash meta \<le> endRange
           else fm_FileNameHash meta > startRange \<or> fm_FileNameHash meta \<le> endRange) names"

text \<open>The loop of \<open>GetSuccessors\<close> from index \<open>i\<close> with \<open>cnt\<close> successors found.\<close>

function successors_loop :: "Member list \<Rightarrow> int \<Rightarrow> int \<Rightarrow> int \<Rightarrow> int \<Rightarrow> Member list \<Rightarrow> Member list" where
  "successors_loop members myIdx n i cnt succ =
     (if cnt < n - 1 \<and> i < int (length members) then
        let m = members ! nat (GetRingSuccessorIdx myIdx i (int (length members)))
        in if IsAlive m then successors_loop members myIdx n (i + 1) (cnt + 1) (succ @ [m])
           else successors_loop members myIdx n (i + 1) cnt succ
      else succ)"
  by pat_completeness auto
termination
  by (relation "measure (\<lambda>(members, myIdx, n, i, cnt, succ). nat (int (length members) - i))") auto

declare successors_loop.simps [simp del]

definition GetSuccessors :: "Member list \<Rightarrow> string \<Rightarrow> int \<Rightarrow> Member list" where
  "GetSuccessors members nodeID n =
     (let myIdx = GetNodeIndex members nodeID
      in if myIdx = -1 \<or> members = [] then [] else successors_loop members myIdx n 1 0 [])"

definition findTargetNodes :: "Member list \<Rightarrow> int \<Rightarrow> int \<Rightarrow> Member list" where
  "findTargetNodes members fileHash replicationFactor =
     (if members = [] then []
      else
        let primaryIndex =
              (case find_index (\<lambda>m. m_Status m = StatusAlive \<and> m_Hash m \<ge> fileHash) members of
                 Some i \<Rightarrow> Some i
               | None \<Rightarrow> find_index (\<lambda>m. m_Status m = StatusAlive) members)
        in case primaryIndex of
             None \<Rightarrow> []
           | Some p \<Rightarrow>
               filter (\<lambda>m. m_Status m = StatusAlive)
                 (map (\<lambda>i. members ! ((p + i) mod length members)) [0..<nat replicationFactor]))"

subsection \<open>Finding the predecessor\<close>

lemma smod_pos: "0 \<le> (a::int) \<Longrightarrow> 0 < b \<Longrightarrow> a smod b = a mod b"
  by (cases "a = 0") (simp_all add: smod_int_alt_def sgn_if)

lemma pred_idx:
  assumes "j < n"
  shows "GetRingPredecessorIdx (int j) (int n) = (if j = 0 then int n - 1 else int j - 1)"
proof (cases "j = 0")
  case True
  then show ?thesis using assms by (simp add: GetRingPredecessorIdx_def smod_pos zmod_minus1)
next
  case False
  then have "(int j - 1 + int n) smod int n = (int j - 1 + int n) mod int n"
    using assms by (intro smod_pos) auto
  also have "\<dots> = int j - 1" using assms False by simp
  finally show ?thesis using False by (simp add: GetRingPredecessorIdx_def)
qed

text \<open>The indices the search visits, in order.\<close>

fun visited :: "nat \<Rightarrow> nat \<Rightarrow> nat \<Rightarrow> nat list" where
  "visited n 0 j = []"
| "visited n (Suc k) j = (let p = (if j = 0 then n - 1 else j - 1) in p # visited n k p)"

lemma alive_predecessor_visited:
  "j < length ms \<Longrightarrow>
    alive_predecessor k ms (int j) =
      map_option int (find (\<lambda>p. IsAlive (ms ! p)) (visited (length ms) k j))"
proof (induction k arbitrary: j)
  case (Suc k)
  define p where "p = (if j = 0 then length ms - 1 else j - 1)"
  have p: "p < length ms" "GetRingPredecessorIdx (int j) (int (length ms)) = int p"
    using Suc.prems by (auto simp: p_def pred_idx)
  show ?case
    using Suc.IH [OF p(1)] by (simp add: p(2) p_def [symmetric] Let_def)
qed simp

lemma visited_down: "k \<le> j \<Longrightarrow> visited n (k + m) j = rev [j - k..<j] @ visited n m (j - k)"
proof (induction k arbitrary: j)
  case (Suc k)
  then obtain i where i: "j = Suc i" by (cases j) auto
  then show ?case using Suc by (auto simp: upt_Suc_append)
qed simp

lemma visited_all:
  assumes "j < n"
  shows "visited n n j = rev [0..<j] @ rev [j..<n]"
proof -
  obtain k where k: "n - j = Suc k" using assms by (cases "n - j") auto
  have "visited n (j + (n - j)) j = rev [0..<j] @ visited n (n - j) 0"
    using visited_down [of j j n "n - j"] by simp
  moreover have "visited n (n - j) 0 = rev [j..<n]"
  proof -
    have "visited n (n - j) 0 = (n - 1) # visited n (k + 0) (n - 1)" by (simp add: k Let_def)
    also have "\<dots> = (n - 1) # rev [n - 1 - k..<n - 1]"
      using visited_down [of k "n - 1" n 0] k by simp
    also have "\<dots> = rev [j..<n]"
    proof -
      have "[j..<n] = [j..<n - 1] @ [n - 1]" using assms by (cases n) auto
      moreover have "n - 1 - k = j" using k assms by simp
      ultimately show ?thesis by simp
    qed
    finally show ?thesis .
  qed
  ultimately show ?thesis using assms by simp
qed

lemma find_hd_filter: "find P xs = (case filter P xs of [] \<Rightarrow> None | x # _ \<Rightarrow> Some x)"
  by (induction xs) auto

lemma find_map_comp: "find P (map f xs) = map_option f (find (\<lambda>x. P (f x)) xs)"
  by (induction xs) auto

lemma map_nth_take: "j \<le> length ms \<Longrightarrow> map ((!) ms) [0..<j] = take j ms"
  by (auto intro: nth_equalityI)

lemma map_nth_drop: "map ((!) ms) [j..<length ms] = drop j ms"
  by (auto intro: nth_equalityI)

lemma member_index_split:
  assumes "ms = pre @ m # post" and "distinct (map MemberID ms)"
  shows "member_index (MemberID m) ms = Some (length pre)"
  using assms by (auto intro!: member_index_middle)

text \<open>
  The range of an alive member starts at the last alive member before it, or, when it is the first
  alive one, at the last alive member of the whole ring (itself if it is alone).
\<close>

lemma GetPrimaryKeyRange_eq:
  assumes ms: "ms = pre @ m # post" and d: "distinct (map MemberID ms)" and alive: "IsAlive m"
  shows "GetPrimaryKeyRange ms (MemberID m) =
    Some (m_Hash (if filter IsAlive pre = [] then last (m # filter IsAlive post)
                  else last (filter IsAlive pre)), m_Hash m)"
proof -
  let ?j = "length pre" and ?N = "length ms"
  have j: "?j < ?N" using ms by simp
  let ?order = "rev pre @ rev (m # post)"
  have order: "map ((!) ms) (visited ?N ?N ?j) = ?order"
    using j ms unfolding visited_all [OF j] map_append rev_map [symmetric] map_nth_drop
    by (simp add: map_nth_take)
  have ne: "filter IsAlive ?order \<noteq> []" using alive by simp
  then obtain x where x: "find IsAlive ?order = Some x" "x = hd (filter IsAlive ?order)"
    by (cases "filter IsAlive ?order") (auto simp: find_hd_filter)
  have "map_option ((!) ms) (find (\<lambda>p. IsAlive (ms ! p)) (visited ?N ?N ?j)) = Some x"
    using x(1) order by (simp flip: find_map_comp)
  then obtain p where p: "find (\<lambda>p. IsAlive (ms ! p)) (visited ?N ?N ?j) = Some p" "ms ! p = x"
    by auto
  have "x = (if filter IsAlive pre = [] then last (m # filter IsAlive post) else last (filter IsAlive pre))"
    using alive unfolding x(2)
    by (auto simp: hd_append hd_rev simp flip: rev_filter)
  moreover have "GetNodeIndex ms (MemberID m) = int ?j"
    using member_index_split [OF ms d] by (simp add: GetNodeIndex_def)
  ultimately show ?thesis
    using alive_predecessor_visited [OF j, of ?N] p ms by (simp add: GetPrimaryKeyRange_def Let_def)
qed

subsection \<open>The primary of a key\<close>

text \<open>The alive member responsible for a key: the first at or after it, wrapping to the first.\<close>

definition ring_owner :: "Member list \<Rightarrow> int \<Rightarrow> Member" where
  "ring_owner alive h = (case find (\<lambda>m. h \<le> m_Hash m) alive of Some m \<Rightarrow> m | None \<Rightarrow> hd alive)"

abbreviation alive_of :: "Member list \<Rightarrow> Member list" where
  "alive_of ms \<equiv> filter IsAlive ms"

definition in_primary_range :: "Member list \<Rightarrow> int \<Rightarrow> Member \<Rightarrow> bool" where
  "in_primary_range ms h m \<longleftrightarrow>
     (case GetPrimaryKeyRange ms (MemberID m) of None \<Rightarrow> False | Some (s, e) \<Rightarrow> IsHashInRange h s e)"

lemma find_append: "find P (xs @ ys) = (case find P xs of Some x \<Rightarrow> Some x | None \<Rightarrow> find P ys)"
  by (induction xs) auto

lemma sorted_last_less:
  assumes "sorted_wrt (<) (map f xs)" and "xs \<noteq> []"
  shows "(\<forall>x \<in> set xs. f x < (h::int)) \<longleftrightarrow> f (last xs) < h"
proof -
  obtain ys y where "xs = ys @ [y]" using assms(2) by (cases xs rule: rev_cases) auto
  with assms(1) show ?thesis by (auto simp: sorted_wrt_append)
qed

lemma owner_middle:
  assumes "sorted_wrt (<) (map m_Hash (a @ m # b))"
  shows "ring_owner (a @ m # b) h = m \<longleftrightarrow>
    IsHashInRange h (m_Hash (if a = [] then last (m # b) else last a)) (m_Hash m)"
proof (cases "a = []")
  case True
  have s: "sorted_wrt (<) (map m_Hash (m # b))" using assms True by simp
  have ge: "m_Hash m \<le> m_Hash (last (m # b))"
    using s last_in_set [of b] by (cases "b = []") (auto intro: less_imp_le)
  have last: "(\<forall>x \<in> set (m # b). m_Hash x < h) \<longleftrightarrow> m_Hash (last (m # b)) < h"
    by (rule sorted_last_less [OF s]) simp
  have "ring_owner (m # b) h = m \<longleftrightarrow> h \<le> m_Hash m \<or> m_Hash (last (m # b)) < h"
  proof (cases "h \<le> m_Hash m")
    case False
    have "m \<notin> set b" using s by auto
    moreover have "find (\<lambda>m. h \<le> m_Hash m) b = Some y \<Longrightarrow> y \<in> set b \<and> \<not> m_Hash y < h" for y
      by (auto simp: find_Some_iff)
    ultimately show ?thesis
      using False last by (auto simp: ring_owner_def find_None_iff not_le split: option.splits)
  qed (simp add: ring_owner_def)
  with True ge show ?thesis by (auto simp: IsHashInRange_def)
next
  case False
  have sa: "sorted_wrt (<) (map m_Hash a)" and lt: "\<forall>x \<in> set a. m_Hash x < m_Hash m"
    and ma: "m \<notin> set a" and mb: "m \<notin> set b"
    using assms by (auto simp: sorted_wrt_append)
  have last: "(\<forall>x \<in> set a. m_Hash x < h) \<longleftrightarrow> m_Hash (last a) < h"
    by (rule sorted_last_less [OF sa False])
  have start: "m_Hash (last a) < m_Hash m" using lt False by simp
  have in_set: "find (\<lambda>m. h \<le> m_Hash m) xs = Some y \<Longrightarrow> y \<in> set xs" for y xs
    by (auto simp: find_Some_iff)
  have "ring_owner (a @ m # b) h = m \<longleftrightarrow> m_Hash (last a) < h \<and> h \<le> m_Hash m"
  proof (cases "find (\<lambda>m. h \<le> m_Hash m) a")
    case (Some y)
    then have y: "y \<in> set a" "h \<le> m_Hash y" using in_set by (auto simp: find_Some_iff)
    then have "\<not> m_Hash (last a) < h" "y \<noteq> m"
      using last ma by fastforce+
    with Some show ?thesis by (simp add: ring_owner_def find_append)
  next
    case None
    then have 1: "m_Hash (last a) < h" using last by (auto simp: find_None_iff not_le)
    have "hd (a @ m # b) \<noteq> m" using False ma by (cases a) auto
    with None 1 mb in_set show ?thesis
      by (auto simp: ring_owner_def find_append split: option.splits)
  qed
  with False start show ?thesis by (simp add: IsHashInRange_def)
qed

lemma in_primary_range_owner:
  assumes "ml_inv ms" and "distinct (map m_Hash (alive_of ms))" and "m \<in> set ms" and "IsAlive m"
  shows "in_primary_range ms h m \<longleftrightarrow> ring_owner (alive_of ms) h = m"
proof -
  obtain pre post where ms: "ms = pre @ m # post" using assms(3) by (meson split_list)
  have "sorted_wrt (\<le>) (map m_Hash (alive_of ms))"
    using assms(1) by (auto simp: ml_inv_def sorted_map intro: sorted_wrt_filter)
  then have s: "sorted_wrt (<) (map m_Hash (alive_of pre @ m # alive_of post))"
    using assms(2,4) ms strict_sorted_iff [of "map m_Hash (alive_of ms)"] by simp
  have "distinct (map MemberID ms)" using assms(1) by (simp add: ml_inv_def)
  from GetPrimaryKeyRange_eq [OF ms this assms(4)] owner_middle [OF s, of h] assms(4) ms
  show ?thesis by (simp add: in_primary_range_def)
qed

lemma ring_owner_in: "alive \<noteq> [] \<Longrightarrow> ring_owner alive h \<in> set alive"
  by (auto simp: ring_owner_def find_Some_iff split: option.splits)

lemma find_index_find:
  "map_option ((!) xs) (find_index P xs) = find P xs"
  by (induction xs) (auto simp: option.map_comp comp_def)

lemma find_filter: "find P (filter Q xs) = find (\<lambda>x. Q x \<and> P x) xs"
  by (induction xs) auto

lemma findTargetNodes_hd:
  assumes "alive_of ms \<noteq> []" and "1 \<le> rf"
  shows "findTargetNodes ms h rf \<noteq> [] \<and> hd (findTargetNodes ms h rf) = ring_owner (alive_of ms) h"
proof -
  let ?P = "\<lambda>m. m_Status m = StatusAlive \<and> m_Hash m \<ge> h" and ?Q = "\<lambda>m. m_Status m = StatusAlive"
  let ?pi = "case find_index ?P ms of Some i \<Rightarrow> Some i | None \<Rightarrow> find_index ?Q ms"
  have al: "IsAlive = ?Q" by (simp add: IsAlive_def fun_eq_iff)
  have ne: "ms \<noteq> []" using assms(1) by auto
  obtain p where p: "?pi = Some p" "p < length ms" "?Q (ms ! p)" "ms ! p = ring_owner (alive_of ms) h"
  proof (cases "find_index ?P ms")
    case (Some i)
    then have "find ?P ms = Some (ms ! i)" using find_index_find [of ms ?P] by simp
    then have "ring_owner (alive_of ms) h = ms ! i" by (simp add: ring_owner_def find_filter al)
    with Some find_index_Some [OF Some] show ?thesis by (intro that [of i]) auto
  next
    case None
    obtain i where i: "find_index ?Q ms = Some i"
      using assms(1) find_index_None [of ?Q ms] by (fastforce simp: al filter_empty_conv)
    then have "find ?Q ms = Some (ms ! i)" using find_index_find [of ms ?Q] by simp
    then have "hd (alive_of ms) = ms ! i" using find_hd_filter [of ?Q ms] by (auto simp: al split: list.splits)
    moreover have "find ?P ms = None" using None find_index_find [of ms ?P] by simp
    ultimately have "ring_owner (alive_of ms) h = ms ! i" by (simp add: ring_owner_def find_filter al)
    with None i find_index_Some [OF i] show ?thesis by (intro that [of i]) auto
  qed
  obtain k where k: "nat rf = Suc k" using assms(2) by (cases "nat rf") auto
  have "[0..<Suc k] = 0 # [Suc 0..<Suc k]" by (rule upt_conv_Cons) simp
  then show ?thesis
    using ne p by (simp add: findTargetNodes_def p(1) k del: upt_Suc)
qed

text \<open>
  C25: every key of the ring has exactly one primary among the alive members, when no
  two alive members share a ring position: the key lies in the primary range of exactly one of them,
  and that member is the first target chosen for the key, so the node that creates or
  appends to a file and the node that believes it owns the file agree.
\<close>

theorem one_primary_per_key:
  assumes "ml_inv ms" and "distinct (map m_Hash (alive_of ms))" and "alive_of ms \<noteq> []" and "1 \<le> rf"
  shows "(\<exists>!m. m \<in> set ms \<and> IsAlive m \<and> in_primary_range ms h m) \<and>
    in_primary_range ms h (hd (findTargetNodes ms h rf)) \<and> hd (findTargetNodes ms h rf) \<in> set (alive_of ms)"
proof -
  have o: "ring_owner (alive_of ms) h \<in> set (alive_of ms)" by (rule ring_owner_in [OF assms(3)])
  then have "in_primary_range ms h (ring_owner (alive_of ms) h)"
    using in_primary_range_owner [OF assms(1,2)] by auto
  then show ?thesis
    using o in_primary_range_owner [OF assms(1,2)] findTargetNodes_hd [OF assms(3,4), of h]
    by (auto intro!: ex1I [of _ "ring_owner (alive_of ms) h"])
qed

definition demoRing :: "Member list" where
  "demoRing = [zeroMember\<lparr>m_Address := ''a'', m_Status := StatusAlive, m_Hash := 10\<rparr>,
     zeroMember\<lparr>m_Address := ''b'', m_Status := StatusDead, m_Hash := 20\<rparr>,
     zeroMember\<lparr>m_Address := ''c'', m_Status := StatusAlive, m_Hash := 30\<rparr>]"

lemma demoRing_facts:
  "ml_inv demoRing" "distinct (map m_Hash (alive_of demoRing))" "alive_of demoRing \<noteq> []"
  "findTargetNodes demoRing 15 3 = [demoRing ! 2, demoRing ! 0]"
proof -
  show "ml_inv demoRing" by (simp add: demoRing_def ml_inv_def MemberID_def zeroMember_def)
  show "distinct (map m_Hash (alive_of demoRing))" "alive_of demoRing \<noteq> []"
    by (simp_all add: demoRing_def IsAlive_def)
  show "findTargetNodes demoRing 15 3 = [demoRing ! 2, demoRing ! 0]" by code_simp
qed

theorem one_primary_per_key_witness:
  "(\<exists>!m. m \<in> set demoRing \<and> IsAlive m \<and> in_primary_range demoRing 15 m) \<and>
    in_primary_range demoRing 15 (demoRing ! 2)"
  using one_primary_per_key [OF demoRing_facts(1-3), of 3 15] by (simp add: demoRing_facts(4))

subsection \<open>Replica sets\<close>

lemma successors_loop_eq:
  assumes "myIdx < length ms" and "0 \<le> i"
  shows "successors_loop ms (int myIdx) n i cnt succ =
    succ @ take (nat (n - 1 - cnt))
      (alive_of (map (\<lambda>k. ms ! ((myIdx + k) mod length ms)) [nat i..<length ms]))"
  using assms
proof (induction ms "int myIdx" n i cnt succ rule: successors_loop.induct)
  case (1 ms n i cnt succ)
  show ?case
  proof (cases "cnt < n - 1 \<and> i < int (length ms)")
    case False
    then show ?thesis by (subst successors_loop.simps) auto
  next
    case True
    have idx: "nat (GetRingSuccessorIdx (int myIdx) i (int (length ms))) = (myIdx + nat i) mod length ms"
    proof -
      have "(int myIdx + i) smod int (length ms) = (int myIdx + i) mod int (length ms)"
        using 1(3,4) by (intro smod_pos) auto
      then show ?thesis using 1(4) by (simp add: GetRingSuccessorIdx_def nat_mod_distrib nat_add_distrib)
    qed
    have up: "[nat i..<length ms] = nat i # [nat (i + 1)..<length ms]"
      using True 1(4) by (subst upt_conv_Cons) (auto simp: nat_add_distrib)
    obtain c where c: "nat (n - 1 - cnt) = Suc c" "nat (n - 1 - (cnt + 1)) = c"
      using True by (cases "nat (n - 1 - cnt)") auto
    show ?thesis
      using 1 True c by (subst successors_loop.simps) (simp add: idx up Let_def)
  qed
qed

lemma rotate_map:
  assumes "ms = pre @ m # post"
  shows "map (\<lambda>k. ms ! ((length pre + k) mod length ms)) [1..<length ms] = post @ pre"
proof -
  have "rotate (length pre) ms = m # post @ pre" using assms by (simp add: rotate_append)
  moreover have "map (\<lambda>k. ms ! ((length pre + k) mod length ms)) [0..<length ms] = rotate (length pre) ms"
    by (rule nth_equalityI) (auto simp: nth_rotate)
  moreover have "[0..<length ms] = 0 # [1..<length ms]" using assms by (subst upt_conv_Cons) auto
  ultimately show ?thesis by simp
qed

lemma GetSuccessors_split:
  assumes "ms = pre @ m # post" and "distinct (map MemberID ms)"
  shows "GetSuccessors ms (MemberID m) n = take (nat (n - 1)) (alive_of (post @ pre)) \<and>
    m \<notin> set (GetSuccessors ms (MemberID m) n)"
proof -
  have idx: "GetNodeIndex ms (MemberID m) = int (length pre)"
    using member_index_split [OF assms] by (simp add: GetNodeIndex_def)
  have "m \<notin> set (post @ pre)" using assms by (auto dest: arg_cong [where f = MemberID])
  then have "m \<notin> set (take k (alive_of (post @ pre)))" for k
    by (meson filter_is_subset in_set_takeD subsetD)
  moreover have "length pre < length ms" using assms(1) by simp
  from successors_loop_eq [OF this, of 1 n 0 "[]"] rotate_map [OF assms(1)]
  have "successors_loop ms (int (length pre)) n 1 0 [] = take (nat (n - 1)) (alive_of (post @ pre))"
    by simp
  moreover have "ms \<noteq> []" using assms(1) by simp
  ultimately show ?thesis by (simp add: GetSuccessors_def idx)
qed

text \<open>
  The replicas of a node are the next alive members after it on the ring, in ring
  order and wrapping around, at most \<open>n - 1\<close> of them and never the node itself.
\<close>

theorem GetSuccessors_next_alive:
  assumes "ms = pre @ m # post" and "distinct (map MemberID ms)"
  shows "GetSuccessors ms (MemberID m) n = take (nat (n - 1)) (alive_of (post @ pre)) \<and>
    m \<notin> set (GetSuccessors ms (MemberID m) n)"
  using GetSuccessors_split [OF assms] .

lemma demoRing_split:
  "demoRing = [] @ demoRing ! 0 # [demoRing ! 1, demoRing ! 2]" "distinct (map MemberID demoRing)"
  "\<not> IsAlive (demoRing ! Suc 0)" "IsAlive (demoRing ! 2)"
  using demoRing_facts(1) by (simp_all add: ml_inv_def) (simp_all add: demoRing_def IsAlive_def)

lemma demoRing_successors: "GetSuccessors demoRing (MemberID (demoRing ! 0)) 3 = [demoRing ! 2]"
  using GetSuccessors_split [OF demoRing_split(1,2), of 3] by (simp add: demoRing_split(3,4))

theorem GetSuccessors_next_alive_witness:
  "GetSuccessors demoRing (MemberID (demoRing ! 0)) 2 = [demoRing ! 2]"
  using GetSuccessors_next_alive [OF demoRing_split(1,2), of 2]
  by (simp add: demoRing_split(3,4) del: list.set)

subsection \<open>Where the ring arithmetic goes wrong\<close>

text \<open>With fewer members than replicas the start index can be negative, and the lookup panics.\<close>

lemma GetAllKeyRange_panics:
  "MemberID a \<noteq> MemberID b \<Longrightarrow> GetAllKeyRange [a, b] (MemberID a) 3 = Inl (GoPanic ''index out of range'')"
  by (simp add: GetAllKeyRange_def GetNodeIndex_def member_index_def smod_int_alt_def)

text \<open>Two alive members at one position: the later one takes every key for its own.\<close>

lemma equal_positions_claim_everything:
  assumes "ms = pre @ a # m # post" and "distinct (map MemberID ms)" and "IsAlive a" and "IsAlive m"
    and "m_Hash a = m_Hash m"
  shows "in_primary_range ms h m"
  using GetPrimaryKeyRange_eq [of ms "pre @ [a]" m post] assms
  by (auto simp: in_primary_range_def IsHashInRange_def)

end
