(* ===== verification/HyDFS.thy ===== *)
theory HyDFS imports Ring begin

text \<open>
  \<open>grpc_server.go\<close> and \<open>grpc_client.go\<close>: how files and appends are cut into chunks, received,
  stored and read back. A node is its server state with the contents of its HyDFS directory and of its
  local directory; file contents are byte strings. The results of the operating system's
  directory creation and file write are the arguments \<open>mk\<close> and \<open>wr\<close> (\<open>Some msg\<close> is an error); a stream is
  the list of its chunks with an optional receive error after them. Opening a file for reading
  fails exactly if it is not there, and reads fill the 64 KiB buffer until the end of file.
\<close>

record HNode =
  hn_srv :: Server
  hn_disk :: "string \<rightharpoonup> string"
  hn_local :: "string \<rightharpoonup> string"

record FileChunk =
  fc_Filename :: string
  fc_Data :: string
  fc_FileContentHash :: string
  fc_FileNameHash :: "32 word"
  fc_CreationTime :: string

record AppendChunk =
  ac_Filename :: string
  ac_Data :: string
  ac_AppendContentHash :: string
  ac_ClientId :: string
  ac_ClientTimestamp :: string
  ac_AppendId :: string

record UploadStatus =
  us_Success :: bool
  us_Message :: string

definition count_received :: "nat \<Rightarrow> HNode \<Rightarrow> HNode" where
  "count_received n h = h\<lparr>hn_srv := (hn_srv h)\<lparr>srv_Bandwidth :=
     AddReceived (of_nat n) (srv_Bandwidth (hn_srv h))\<rparr>\<rparr>"

definition count_sent :: "nat \<Rightarrow> HNode \<Rightarrow> HNode" where
  "count_sent n h = h\<lparr>hn_srv := (hn_srv h)\<lparr>srv_Bandwidth :=
     AddSent (of_nat n) (srv_Bandwidth (hn_srv h))\<rparr>\<rparr>"

definition with_metadata :: "(Metadata \<Rightarrow> Metadata) \<Rightarrow> HNode \<Rightarrow> HNode" where
  "with_metadata f h = h\<lparr>hn_srv := (hn_srv h)\<lparr>srv_Metadata := f (srv_Metadata (hn_srv h))\<rparr>\<rparr>"

abbreviation hn_Metadata :: "HNode \<Rightarrow> Metadata" where
  "hn_Metadata h \<equiv> srv_Metadata (hn_srv h)"

subsection \<open>Uploading a file\<close>

text \<open>The receive loop: file name, metadata and data so far.\<close>

type_synonym upload = "string \<times> FileMetadata option \<times> string"

definition recv_file_chunk :: "FileChunk \<Rightarrow> upload \<times> HNode \<Rightarrow> upload \<times> HNode" where
  "recv_file_chunk chunk st =
     (case st of ((filename, fileMetadata, fileData), h) \<Rightarrow>
        let filename = (if filename = [] then fc_Filename chunk else filename);
            fileMetadata =
              (if fileMetadata = None \<and> fc_FileContentHash chunk \<noteq> [] then
                 Some \<lparr>fm_FileName = filename, fm_FileContentHash = fc_FileContentHash chunk,
                       fm_FileNameHash = sint (fc_FileNameHash chunk),
                       fm_CreationTime = fc_CreationTime chunk, fm_Appends = []\<rparr>
               else fileMetadata);
            fileData = fileData @ fc_Data chunk
        in ((filename, fileMetadata, fileData), count_received (length (fc_Data chunk)) h))"

definition saveFile ::
    "string option \<Rightarrow> string option \<Rightarrow> string \<Rightarrow> FileMetadata option \<Rightarrow> HNode \<Rightarrow> HNode go" where
  "saveFile mk wr data metadata h =
     (case mk of
        Some e \<Rightarrow> Inl (GoError (''failed to create hydfs directory: '' @ e))
      | None \<Rightarrow>
          (case metadata of
             None \<Rightarrow> Inl (GoPanic ''nil pointer dereference'')
           | Some meta \<Rightarrow>
               (case wr of
                  Some e \<Rightarrow> Inl (GoError (''failed to write file: '' @ e))
                | None \<Rightarrow> Inr (with_metadata (\<lambda>m. AddFile m meta)
                    (h\<lparr>hn_disk := (hn_disk h)(fm_FileName meta \<mapsto> data)\<rparr>)))))"

definition FileTransfer ::
    "string option \<Rightarrow> string option \<Rightarrow> FileChunk list \<Rightarrow> string option \<Rightarrow> HNode
       \<Rightarrow> (UploadStatus \<times> HNode) go" where
  "FileTransfer mk wr chunks recvErr h =
     (let ((filename, fileMetadata, fileData), h) = fold recv_file_chunk chunks (([], None, []), h)
      in case recvErr of
          Some e \<Rightarrow> Inr (\<lparr>us_Success = False, us_Message = ''Error receiving chunk: '' @ e\<rparr>, h)
        | None \<Rightarrow>
            if GetFile (hn_Metadata h) filename \<noteq> None then
              Inr (\<lparr>us_Success = False,
                    us_Message = ''File '' @ filename @ '' already exists in metadata''\<rparr>, h)
            else
              (case saveFile mk wr fileData fileMetadata h of
                 Inl (GoPanic p) \<Rightarrow> Inl (GoPanic p)
               | Inl (GoError e) \<Rightarrow>
                   Inr (\<lparr>us_Success = False, us_Message = ''Error saving file: '' @ e\<rparr>, h)
               | Inr h' \<Rightarrow>
                   Inr (\<lparr>us_Success = True,
                         us_Message = ''File '' @ filename @ '' received successfully''\<rparr>, h')))"

subsection \<open>Reading a file\<close>

text \<open>Cutting data into pieces of at most \<open>n\<close> bytes.\<close>

function pieces :: "nat \<Rightarrow> string \<Rightarrow> string list" where
  "pieces n xs = (if xs = [] \<or> n = 0 then [] else take n xs # pieces n (drop n xs))"
  by pat_completeness auto
termination by (relation "measure (\<lambda>(n, xs). length xs)") auto

declare pieces.simps [simp del]

definition chunkSize :: nat where "chunkSize = 64 * 1024"

definition data_chunk :: "string \<Rightarrow> string \<Rightarrow> FileChunk" where
  "data_chunk filename d = \<lparr>fc_Filename = filename, fc_Data = d, fc_FileContentHash = [],
     fc_FileNameHash = 0, fc_CreationTime = []\<rparr>"

text \<open>The loop over the file paths: a missing file is skipped with its separator.\<close>

fun send_paths :: "(string \<rightharpoonup> string) \<Rightarrow> string \<Rightarrow> string list \<Rightarrow> FileChunk list" where
  "send_paths disk filename [] = []"
| "send_paths disk filename (p # ps) =
     (case disk p of
        None \<Rightarrow> send_paths disk filename ps
      | Some d \<Rightarrow>
          map (data_chunk filename) (pieces chunkSize d) @
          (if ps \<noteq> [] then [data_chunk filename [CHR 0x0A]] else []) @
          send_paths disk filename ps)"

definition Hydfs_GetFile :: "string \<Rightarrow> HNode \<Rightarrow> (FileChunk list \<times> HNode) go" where
  "Hydfs_GetFile filename h =
     (case GetFile (hn_Metadata h) filename of
        None \<Rightarrow> Inl (GoError (''file '' @ filename @ '' not found in metadata''))
      | Some meta \<Rightarrow>
          let filePaths = fm_FileName meta # map ap_AppendID (fm_Appends meta);
              chunks = send_paths (hn_disk h) filename filePaths
          in Inr (chunks, fold (\<lambda>c. count_sent (length (fc_Data c))) chunks h))"

subsection \<open>Uploading an append\<close>

type_synonym append_upload = "(string \<times> string \<times> string \<times> string \<times> string) option \<times> string"

definition recv_append_chunk :: "AppendChunk \<Rightarrow> append_upload \<times> HNode \<Rightarrow> append_upload \<times> HNode" where
  "recv_append_chunk chunk st =
     (case st of ((first, appendData), h) \<Rightarrow>
        let first = (case first of
              Some f \<Rightarrow> Some f
            | None \<Rightarrow> Some (ac_Filename chunk, ac_AppendId chunk, ac_ClientId chunk,
                           ac_ClientTimestamp chunk, ac_AppendContentHash chunk));
            appendData = appendData @ ac_Data chunk
        in ((first, appendData), count_received (length (ac_Data chunk)) h))"

definition is_log_file :: "string \<Rightarrow> bool" where
  "is_log_file filename \<longleftrightarrow> HasPrefix filename ''wal-'' \<or> HasPrefix filename ''out-''"

fun err_text :: "go_err \<Rightarrow> string" where
  "err_text (GoError e) = e"
| "err_text (GoPanic e) = e"

definition received_status :: "string \<Rightarrow> string \<Rightarrow> UploadStatus" where
  "received_status filename appendId =
     \<lparr>us_Success = True,
      us_Message = ''Append for file '' @ filename @ '' (appendId '' @ appendId @ '') received''\<rparr>"

definition AppendTransfer ::
    "string option \<Rightarrow> string option \<Rightarrow> AppendChunk list \<Rightarrow> string option \<Rightarrow> HNode
       \<Rightarrow> UploadStatus \<times> HNode" where
  "AppendTransfer mk wr chunks recvErr h =
     (let ((first, appendData), h) = fold recv_append_chunk chunks ((None, []), h);
          (filename, appendId, clientId, clientTimestamp, appendContentHash) =
            (case first of None \<Rightarrow> ([], [], [], [], []) | Some f \<Rightarrow> f)
      in case recvErr of
          Some e \<Rightarrow> (\<lparr>us_Success = False, us_Message = ''Error receiving append chunk: '' @ e\<rparr>, h)
        | None \<Rightarrow>
            if GetFile (hn_Metadata h) filename = None then
              (\<lparr>us_Success = False, us_Message = ''file '' @ filename @ '' does not exist''\<rparr>, h)
            else
              let appendInfo = \<lparr>ap_FileName = filename, ap_AppendID = appendId, ap_ClientID = clientId,
                    ap_ClientTimestamp = clientTimestamp, ap_AppendHash = appendContentHash,
                    ap_Size = int (length appendData)\<rparr>
              in case mk of
                  Some e \<Rightarrow> (\<lparr>us_Success = False, us_Message = ''failed to create hydfs dir: '' @ e\<rparr>, h)
                | None \<Rightarrow>
                    (case wr of
                       Some e \<Rightarrow> (\<lparr>us_Success = False,
                                  us_Message = (if is_log_file filename then ''failed to append to WAL file: ''
                                                else ''failed to write append file: '') @ e\<rparr>, h)
                     | None \<Rightarrow>
                         let h = (if is_log_file filename
                                  then h\<lparr>hn_disk := (hn_disk h)(filename \<mapsto>
                                    (case hn_disk h filename of None \<Rightarrow> [] | Some d \<Rightarrow> d) @ appendData)\<rparr>
                                  else h\<lparr>hn_disk := (hn_disk h)(appendId \<mapsto> appendData)\<rparr>)
                         in if \<not> is_log_file filename then
                              (case AppendToFile (hn_Metadata h) filename appendInfo of
                                 Inl e \<Rightarrow> (\<lparr>us_Success = False,
                                     us_Message = ''append metadata update failed: '' @ err_text e\<rparr>, h)
                               | Inr m \<Rightarrow> (received_status filename appendId, with_metadata (\<lambda>_. m) h))
                            else (received_status filename appendId, h)))"

subsection \<open>The client side\<close>

text \<open>The stream \<open>SendFileToNode\<close> sends: metadata on the first chunk only, none for no data.\<close>

definition file_chunks :: "string \<Rightarrow> FileMetadata \<Rightarrow> FileChunk list" where
  "file_chunks data metadata =
     (case pieces chunkSize data of
        [] \<Rightarrow> []
      | d # ds \<Rightarrow>
          \<lparr>fc_Filename = fm_FileName metadata, fc_Data = d,
           fc_FileContentHash = fm_FileContentHash metadata,
           fc_FileNameHash = word_of_int (fm_FileNameHash metadata),
           fc_CreationTime = fm_CreationTime metadata\<rparr> # map (data_chunk []) ds)"

definition append_chunks :: "string \<Rightarrow> AppendInfo \<Rightarrow> AppendChunk list" where
  "append_chunks data appendInfo =
     (case pieces chunkSize data of
        [] \<Rightarrow> []
      | d # ds \<Rightarrow>
          \<lparr>ac_Filename = ap_FileName appendInfo, ac_Data = d,
           ac_AppendContentHash = ap_AppendHash appendInfo, ac_ClientId = ap_ClientID appendInfo,
           ac_ClientTimestamp = ap_ClientTimestamp appendInfo, ac_AppendId = ap_AppendID appendInfo\<rparr> #
          map (\<lambda>d. \<lparr>ac_Filename = [], ac_Data = d, ac_AppendContentHash = [], ac_ClientId = [],
                    ac_ClientTimestamp = [], ac_AppendId = []\<rparr>) ds)"

text \<open>The data a downloading client writes.\<close>

definition received_data :: "FileChunk list \<Rightarrow> string" where
  "received_data chunks = concat (map fc_Data chunks)"

lemma concat_pieces: "0 < n \<Longrightarrow> concat (pieces n xs) = xs"
proof (induction n xs rule: pieces.induct)
  case (1 n xs)
  show ?case
  proof (cases "xs = []")
    case False
    then show ?thesis using 1 by (subst pieces.simps) simp
  qed (subst pieces.simps, simp)
qed

lemma pieces_Nil_iff: "0 < n \<Longrightarrow> pieces n xs = [] \<longleftrightarrow> xs = []"
  by (subst pieces.simps) simp

lemma chunkSize_pos [simp]: "0 < chunkSize" by (simp add: chunkSize_def)

lemma pieces_size: "p \<in> set (pieces n xs) \<Longrightarrow> 0 < length p \<and> length p \<le> n"
proof (induction n xs rule: pieces.induct)
  case (1 n xs)
  then show ?case by (subst (asm) (2) pieces.simps) (auto split: if_splits)
qed

subsection \<open>What an upload stores\<close>

lemma count_fields [simp]:
  "hn_disk (count_received n h) = hn_disk h" "hn_Metadata (count_received n h) = hn_Metadata h"
  "hn_disk (count_sent n h) = hn_disk h" "hn_Metadata (count_sent n h) = hn_Metadata h"
  by (simp_all add: count_received_def count_sent_def)

lemma fold_count [simp]:
  "hn_disk (fold (\<lambda>c. count_received (f c)) cs h) = hn_disk h"
  "hn_Metadata (fold (\<lambda>c. count_received (f c)) cs h) = hn_Metadata h"
  "hn_disk (fold (\<lambda>c. count_sent (f c)) cs h) = hn_disk h"
  "hn_Metadata (fold (\<lambda>c. count_sent (f c)) cs h) = hn_Metadata h"
  by (induction cs arbitrary: h) simp_all

lemma recv_tail:
  "n \<noteq> [] \<Longrightarrow> fold recv_file_chunk (map (data_chunk []) ds) ((n, Some m, d), h) =
    ((n, Some m, d @ concat ds), fold (\<lambda>c. count_received (length c)) ds h)"
  by (induction ds arbitrary: d h) (simp_all add: recv_file_chunk_def data_chunk_def)

lemma recv_all:
  assumes "data \<noteq> []" and "fm_FileName meta \<noteq> []" and "fm_FileContentHash meta \<noteq> []"
    and "fm_Appends meta = []" and "- (2 ^ 31) \<le> fm_FileNameHash meta" "fm_FileNameHash meta < 2 ^ 31"
  obtains h1 where "fold recv_file_chunk (file_chunks data meta) (([], None, []), h) =
      ((fm_FileName meta, Some meta, data), h1)"
    "hn_disk h1 = hn_disk h" "hn_Metadata h1 = hn_Metadata h"
proof -
  obtain d ds where p: "pieces chunkSize data = d # ds"
    using assms(1) pieces_Nil_iff [OF chunkSize_pos, of data] by (cases "pieces chunkSize data") auto
  have data: "d @ concat ds = data" using concat_pieces [OF chunkSize_pos, of data] p by simp
  let ?h1 = "fold (\<lambda>c. count_received (length c)) (d # ds) h"
  let ?m = "\<lparr>fm_FileName = fm_FileName meta, fm_FileContentHash = fm_FileContentHash meta,
    fm_FileNameHash = fm_FileNameHash meta, fm_CreationTime = fm_CreationTime meta, fm_Appends = []\<rparr>"
  have m: "?m = meta" using assms(4) by (cases meta) simp
  have "sint (word_of_int (fm_FileNameHash meta) :: 32 word) = fm_FileNameHash meta"
    using assms(5,6) by (simp add: signed_of_int signed_take_bit_int_eq_self)
  then have "fold recv_file_chunk (file_chunks data meta) (([], None, []), h) =
      fold recv_file_chunk (map (data_chunk []) ds) ((fm_FileName meta, Some ?m, d), count_received (length d) h)"
    using assms(2,3) by (simp add: file_chunks_def p recv_file_chunk_def Let_def)
  also have "\<dots> = ((fm_FileName meta, Some meta, data), ?h1)"
    unfolding m using assms(2) data by (simp add: recv_tail)
  finally show ?thesis by (rule that) simp_all
qed

text \<open>
  A file sent with \<open>SendFileToNode\<close> to a node that does not have it is stored under its
  name with exactly its bytes and its metadata, and reading it back returns these bytes, however many
  chunks it takes.
\<close>

theorem create_then_get:
  assumes "data \<noteq> []" and "fm_FileName meta \<noteq> []" and "fm_FileContentHash meta \<noteq> []"
    and "fm_Appends meta = []" and "- (2 ^ 31) \<le> fm_FileNameHash meta" "fm_FileNameHash meta < 2 ^ 31"
    and "GetFile (hn_Metadata h) (fm_FileName meta) = None"
  shows "\<exists>st h' chunks h''. FileTransfer None None (file_chunks data meta) None h = Inr (st, h') \<and> us_Success st \<and>
    hn_disk h' = (hn_disk h)(fm_FileName meta \<mapsto> data) \<and>
    GetFile (hn_Metadata h') = (GetFile (hn_Metadata h))(fm_FileName meta \<mapsto> meta) \<and>
    Hydfs_GetFile (fm_FileName meta) h' = Inr (chunks, h'') \<and> received_data chunks = data"
proof -
  obtain h1 where r: "fold recv_file_chunk (file_chunks data meta) (([], None, []), h) =
      ((fm_FileName meta, Some meta, data), h1)"
    and h1: "hn_disk h1 = hn_disk h" "hn_Metadata h1 = hn_Metadata h"
    using recv_all assms(1-6) by blast
  have "concat (map (fc_Data \<circ> data_chunk n) ps) = concat ps" for n ps
    by (simp add: data_chunk_def comp_def)
  then have read: "received_data (map (data_chunk n) (pieces chunkSize data)) = data" for n
    by (simp add: received_data_def concat_pieces)
  show ?thesis
    using assms(4,7) read
    by (simp add: FileTransfer_def r saveFile_def with_metadata_def Hydfs_GetFile_def GetFile_AddFile Let_def h1)
qed

text \<open>An upload of no data carries no metadata, and the receiver dereferences a nil pointer.\<close>

lemma empty_upload_panics:
  "GetFile (hn_Metadata h) [] = None \<Longrightarrow>
    FileTransfer None None (file_chunks [] meta) None h = Inl (GoPanic ''nil pointer dereference'')"
  by (simp add: FileTransfer_def file_chunks_def pieces.simps saveFile_def)

definition demoMeta :: FileMetadata where
  "demoMeta = \<lparr>fm_FileName = ''f'', fm_FileContentHash = ''h'', fm_FileNameHash = 7,
     fm_CreationTime = ''1'', fm_Appends = []\<rparr>"

definition demoNode :: HNode where
  "demoNode = \<lparr>hn_srv = demoServer, hn_disk = Map.empty, hn_local = Map.empty\<rparr>"

lemma demoNode_empty [simp]: "GetFile (hn_Metadata demoNode) n = None"
  by (simp add: demoNode_def demoServer_def NewServer_def Let_def GetFile_def emptyMetadata_def)

theorem create_then_get_witness:
  "\<exists>st h' chunks h''. FileTransfer None None (file_chunks ''abc'' demoMeta) None demoNode = Inr (st, h') \<and>
    Hydfs_GetFile ''f'' h' = Inr (chunks, h'') \<and> received_data chunks = ''abc''"
proof -
  have n: "fm_FileName demoMeta = ''f''" by (simp add: demoMeta_def)
  have "\<exists>st h' chunks h''. FileTransfer None None (file_chunks ''abc'' demoMeta) None demoNode = Inr (st, h') \<and>
      us_Success st \<and> hn_disk h' = (hn_disk demoNode)(fm_FileName demoMeta \<mapsto> ''abc'') \<and>
      GetFile (hn_Metadata h') = (GetFile (hn_Metadata demoNode))(fm_FileName demoMeta \<mapsto> demoMeta) \<and>
      Hydfs_GetFile (fm_FileName demoMeta) h' = Inr (chunks, h'') \<and> received_data chunks = ''abc''"
    by (rule create_then_get) (simp_all add: demoMeta_def)
  then show ?thesis unfolding n by blast
qed

subsection \<open>Appends\<close>

lemma recv_append_tail:
  "fold recv_append_chunk (map (\<lambda>d. \<lparr>ac_Filename = [], ac_Data = d, ac_AppendContentHash = [],
      ac_ClientId = [], ac_ClientTimestamp = [], ac_AppendId = []\<rparr>) ds) ((Some f, d), h) =
    ((Some f, d @ concat ds), fold (\<lambda>c. count_received (length c)) ds h)"
  by (induction ds arbitrary: d h) (simp_all add: recv_append_chunk_def)

lemma recv_append_all:
  assumes "data \<noteq> []"
  obtains h1 where "fold recv_append_chunk (append_chunks data a) ((None, []), h) =
      ((Some (ap_FileName a, ap_AppendID a, ap_ClientID a, ap_ClientTimestamp a, ap_AppendHash a), data), h1)"
    "hn_disk h1 = hn_disk h" "hn_Metadata h1 = hn_Metadata h"
proof -
  obtain d ds where p: "pieces chunkSize data = d # ds"
    using assms pieces_Nil_iff [OF chunkSize_pos, of data] by (cases "pieces chunkSize data") auto
  have data: "d @ concat ds = data" using concat_pieces [OF chunkSize_pos, of data] p by simp
  show ?thesis
    by (rule that [of "fold (\<lambda>c. count_received (length c)) (d # ds) h"])
      (simp_all add: append_chunks_def p recv_append_chunk_def recv_append_tail data)
qed

lemma AppendTransfer_log:
  assumes "data \<noteq> []" and "is_log_file (ap_FileName a)" and "GetFile (hn_Metadata h) (ap_FileName a) \<noteq> None"
  shows "us_Success (fst (AppendTransfer None None (append_chunks data a) None h)) \<and>
    hn_Metadata (snd (AppendTransfer None None (append_chunks data a) None h)) = hn_Metadata h \<and>
    hn_disk (snd (AppendTransfer None None (append_chunks data a) None h)) =
      (hn_disk h)(ap_FileName a \<mapsto> (case hn_disk h (ap_FileName a) of None \<Rightarrow> [] | Some d \<Rightarrow> d) @ data)"
proof -
  obtain h1 where r: "fold recv_append_chunk (append_chunks data a) ((None, []), h) =
      ((Some (ap_FileName a, ap_AppendID a, ap_ClientID a, ap_ClientTimestamp a, ap_AppendHash a), data), h1)"
    and h1: "hn_disk h1 = hn_disk h" "hn_Metadata h1 = hn_Metadata h"
    using recv_append_all [OF assms(1)] by blast
  have "AppendTransfer None None (append_chunks data a) None h =
      (received_status (ap_FileName a) (ap_AppendID a), h1\<lparr>hn_disk := (hn_disk h1)(ap_FileName a \<mapsto>
        (case hn_disk h1 (ap_FileName a) of None \<Rightarrow> [] | Some d \<Rightarrow> d) @ data)\<rparr>)"
    using assms(2,3) h1(2) by (auto simp: AppendTransfer_def r Let_def)
  then show ?thesis by (simp add: h1 received_status_def)
qed

text \<open>A sequence of appends to one log file.\<close>

definition append_log :: "(string \<times> AppendInfo) list \<Rightarrow> HNode \<Rightarrow> HNode" where
  "append_log us h = fold (\<lambda>(d, a) h. snd (AppendTransfer None None (append_chunks d a) None h)) us h"

lemma append_log_disk:
  assumes "\<forall>(d, a) \<in> set us. d \<noteq> [] \<and> ap_FileName a = n" and "is_log_file n"
    and "GetFile (hn_Metadata h) n \<noteq> None" and "hn_disk h n = Some d0"
  shows "hn_disk (append_log us h) n = Some (d0 @ concat (map fst us)) \<and>
    hn_Metadata (append_log us h) = hn_Metadata h"
  using assms
proof (induction us arbitrary: h d0)
  case (Cons u us)
  obtain d a where u: "u = (d, a)" by (cases u)
  let ?h = "snd (AppendTransfer None None (append_chunks d a) None h)"
  have da: "d \<noteq> []" "ap_FileName a = n" using Cons.prems(1) u by auto
  note t = AppendTransfer_log [of d a h, unfolded da(2), OF da(1) Cons.prems(2,3)]
  have "hn_disk ?h n = Some (d0 @ d)" "hn_Metadata ?h = hn_Metadata h" using t Cons.prems(4) by simp_all
  with Cons.IH [of ?h "d0 @ d"] Cons.prems show ?case by (simp add: append_log_def u)
qed (simp add: append_log_def)

text \<open>
  C26: the log and output files of the streaming layer are append-only byte streams: after
  creation and any sequence of non-empty appends, reading the file returns the initial contents followed
  by the appended buffers in order, with nothing in between, which is what recovery scans.
\<close>

theorem log_file_is_concatenation:
  assumes "\<forall>(d, a) \<in> set us. d \<noteq> [] \<and> ap_FileName a = n" and "is_log_file n"
    and "GetFile (hn_Metadata h) n = Some meta" and "fm_FileName meta = n" and "fm_Appends meta = []"
    and "hn_disk h n = Some d0"
  shows "\<exists>chunks h'. Hydfs_GetFile n (append_log us h) = Inr (chunks, h') \<and>
    received_data chunks = d0 @ concat (map fst us)"
proof -
  have l: "hn_disk (append_log us h) n = Some (d0 @ concat (map fst us))"
    "hn_Metadata (append_log us h) = hn_Metadata h"
    using append_log_disk [OF assms(1,2) _ assms(6)] assms(3) by auto
  have "concat (map (fc_Data \<circ> data_chunk n) ps) = concat ps" for n ps
    by (simp add: data_chunk_def comp_def)
  with l show ?thesis
    using assms(3-5) by (simp add: Hydfs_GetFile_def Let_def received_data_def concat_pieces)
qed

definition walMeta :: FileMetadata where
  "walMeta = demoMeta\<lparr>fm_FileName := ''wal-t.log''\<rparr>"

theorem log_file_is_concatenation_witness:
  "\<exists>chunks h'. Hydfs_GetFile ''wal-t.log'' (append_log [(''cd'', (sampleAppend ''a'' ''1'')\<lparr>ap_FileName := ''wal-t.log''\<rparr>)]
      (with_metadata (\<lambda>m. AddFile m walMeta) (demoNode\<lparr>hn_disk := [''wal-t.log'' \<mapsto> ''ab'']\<rparr>))) = Inr (chunks, h') \<and>
    received_data chunks = ''ab'' @ concat [''cd'']"
proof -
  let ?a = "(sampleAppend ''a'' ''1'')\<lparr>ap_FileName := ''wal-t.log''\<rparr>"
  let ?h = "with_metadata (\<lambda>m. AddFile m walMeta) (demoNode\<lparr>hn_disk := [''wal-t.log'' \<mapsto> ''ab'']\<rparr>)"
  have "GetFile (hn_Metadata ?h) ''wal-t.log'' = Some walMeta"
    by (simp add: with_metadata_def GetFile_AddFile walMeta_def)
  then have "\<exists>chunks h'. Hydfs_GetFile ''wal-t.log'' (append_log [(''cd'', ?a)] ?h) = Inr (chunks, h') \<and>
      received_data chunks = ''ab'' @ concat (map fst [(''cd'', ?a)])"
    by (intro log_file_is_concatenation [where meta = walMeta])
      (simp_all add: is_log_file_def HasPrefix_def walMeta_def demoMeta_def with_metadata_def)
  then show ?thesis by simp
qed

end
