(* ===== verification/Replication.thy ===== *)
theory Replication imports HyDFS begin

text \<open>
  \<open>hydfs_operations.go\<close>, the stabilization part of \<open>ring.go\<close> and the metadata handlers of
  \<open>rpc_server.go\<close>: operations that involve several nodes. The cluster maps the address of every
  running node to its state; an address that is not there does not answer. A transfer to several
  replicas runs one goroutine each in the code; they touch different nodes, and are executed in
  the order of the list here. A handler that panics takes its node down. SHA-1 and the hex form
  of SHA-256 are parameters; \<open>ord\<close> lists the names of a file map in the order Go visits it.
\<close>

type_synonym cluster = "string \<rightharpoonup> HNode"

record env =
  e_sha1 :: "string \<Rightarrow> nat"
  e_sha256 :: "string \<Rightarrow> string"
  e_cfg :: Config
  e_ord :: "(string \<rightharpoonup> FileMetadata) \<Rightarrow> string list"

definition on_node :: "string \<Rightarrow> (HNode \<Rightarrow> HNode) \<Rightarrow> cluster \<Rightarrow> cluster" where
  "on_node a f cl = (case cl a of None \<Rightarrow> cl | Some h \<Rightarrow> cl(a \<mapsto> f h))"

subsection \<open>Transfers between nodes\<close>

definition SendFileToNode :: "string \<Rightarrow> string \<Rightarrow> string \<Rightarrow> FileMetadata \<Rightarrow> cluster \<Rightarrow> bool \<times> cluster" where
  "SendFileToNode self targetAddr data metadata cl =
     (case cl targetAddr of
        None \<Rightarrow> (False, cl)
      | Some h \<Rightarrow>
          let chunks = file_chunks data metadata;
              charge = on_node self (fold (\<lambda>c. count_sent (length (fc_Data c))) chunks)
          in case FileTransfer None None chunks None h of
              Inl _ \<Rightarrow> (False, charge (cl(targetAddr := None)))
            | Inr (status, h') \<Rightarrow> (us_Success status, charge (cl(targetAddr \<mapsto> h'))))"

definition SendAppendToNode :: "string \<Rightarrow> string \<Rightarrow> string \<Rightarrow> AppendInfo \<Rightarrow> cluster \<Rightarrow> bool \<times> cluster" where
  "SendAppendToNode self targetAddr data appendInfo cl =
     (case cl targetAddr of
        None \<Rightarrow> (False, cl)
      | Some h \<Rightarrow>
          let chunks = append_chunks data appendInfo;
              charge = on_node self (fold (\<lambda>c. count_sent (length (ac_Data c))) chunks);
              (status, h') = AppendTransfer None None chunks None h
          in (us_Success status, charge (cl(targetAddr \<mapsto> h'))))"

datatype directory = HydfsDir | LocalDir

definition write_dir :: "directory \<Rightarrow> string \<Rightarrow> string option \<Rightarrow> HNode \<Rightarrow> HNode" where
  "write_dir d name contents h =
     (case d of
        HydfsDir \<Rightarrow> h\<lparr>hn_disk := (hn_disk h)(name := contents)\<rparr>
      | LocalDir \<Rightarrow> h\<lparr>hn_local := (hn_local h)(name := contents)\<rparr>)"

text \<open>
  \<open>ReceiveFileFromNode\<close>: the local file is created before the first chunk arrives, and removed
  again when the stream fails.
\<close>

definition ReceiveFileFromNode ::
    "string \<Rightarrow> string \<Rightarrow> string \<Rightarrow> directory \<Rightarrow> string \<Rightarrow> cluster \<Rightarrow> bool \<times> cluster" where
  "ReceiveFileFromNode self targetAddr hyDFSfilename dir localPath cl =
     (let fail = on_node self (write_dir dir (Base localPath) None) cl
      in case cl targetAddr of
          None \<Rightarrow> (False, fail)
        | Some h \<Rightarrow>
            (case Hydfs_GetFile hyDFSfilename h of
               Inl _ \<Rightarrow> (False, fail)
             | Inr (chunks, h') \<Rightarrow>
                 (True, on_node self
                    (\<lambda>m. write_dir dir (Base localPath) (Some (received_data chunks))
                       (fold (\<lambda>c. count_received (length (fc_Data c))) chunks m))
                    (cl(targetAddr \<mapsto> h')))))"

subsection \<open>Metadata requests\<close>

definition svc_GetFilesMetadata :: "env \<Rightarrow> int \<Rightarrow> int \<Rightarrow> HNode \<Rightarrow> (string \<rightharpoonup> FileMetadata)" where
  "svc_GetFilesMetadata e startRange endRange h =
     (let files = md_Files (hn_Metadata h);
          fileNames = GetFilesWithinRange (e_ord e files) files startRange endRange
      in (\<lambda>n. if n \<in> set fileNames then files n else None))"

definition svc_GetFileMetadata :: "string \<Rightarrow> HNode \<Rightarrow> bool \<times> (string \<rightharpoonup> FileMetadata)" where
  "svc_GetFileMetadata filename h =
     (case GetFile (hn_Metadata h) filename of
        None \<Rightarrow> (False, Map.empty)
      | Some m \<Rightarrow> (True, [filename \<mapsto> m]))"

definition svc_UpdateAppendOrder :: "string \<Rightarrow> AppendInfo list \<Rightarrow> HNode \<Rightarrow> bool \<times> HNode" where
  "svc_UpdateAppendOrder filename newOrder h =
     (case GetFile (hn_Metadata h) filename of
        None \<Rightarrow> (False, h)
      | Some fileMeta \<Rightarrow> (True, with_metadata (\<lambda>m. AddFile m (fileMeta\<lparr>fm_Appends := newOrder\<rparr>)) h))"

text \<open>\<open>fetchMetadataFromNode\<close>: an unreachable node yields no files.\<close>

definition fetchMetadataFromNode :: "env \<Rightarrow> string \<Rightarrow> int \<Rightarrow> int \<Rightarrow> cluster \<Rightarrow> (string \<rightharpoonup> FileMetadata)" where
  "fetchMetadataFromNode e addr start end cl =
     (case cl addr of None \<Rightarrow> Map.empty | Some h \<Rightarrow> svc_GetFilesMetadata e start end h)"

subsection \<open>Client operations\<close>

definition targets_of :: "env \<Rightarrow> HNode \<Rightarrow> string \<Rightarrow> Member list" where
  "targets_of e h filename =
     findTargetNodes (GetAll (srv_Members (hn_srv h))) (HashToMbits (e_sha1 e) (e_cfg e) filename)
       (cfg_ReplicationFactor (e_cfg e))"

definition new_file_metadata :: "env \<Rightarrow> time \<Rightarrow> string \<Rightarrow> string \<Rightarrow> FileMetadata" where
  "new_file_metadata e now filename data =
     \<lparr>fm_FileName = filename, fm_FileContentHash = e_sha256 e data,
      fm_FileNameHash = HashToMbits (e_sha1 e) (e_cfg e) filename,
      fm_CreationTime = dec (Unix now), fm_Appends = []\<rparr>"

definition new_append_info :: "env \<Rightarrow> time \<Rightarrow> HNode \<Rightarrow> string \<Rightarrow> string \<Rightarrow> AppendInfo" where
  "new_append_info e now h filename data =
     (let clientTimestamp = dec (Unix now)
      in \<lparr>ap_FileName = filename,
          ap_AppendID = filename @ ''_'' @ clientTimestamp @ ''_'' @ AddressToVMName (srv_Addr (hn_srv h)),
          ap_ClientID = ServerID (hn_srv h), ap_ClientTimestamp = clientTimestamp,
          ap_AppendHash = e_sha256 e data, ap_Size = int (length data)\<rparr>)"

text \<open>Send to every target; the number of successes, of which the client waits for one.\<close>

definition send_all :: "(string \<Rightarrow> cluster \<Rightarrow> bool \<times> cluster) \<Rightarrow> Member list \<Rightarrow> cluster \<Rightarrow> nat \<times> cluster" where
  "send_all send targets cl =
     fold (\<lambda>m (n, cl). let (ok, cl') = send (m_Address m) cl in (if ok then n + 1 else n, cl'))
       targets (0, cl)"

definition handleCreate :: "env \<Rightarrow> time \<Rightarrow> string \<Rightarrow> string \<Rightarrow> string \<Rightarrow> cluster \<Rightarrow> nat \<times> cluster" where
  "handleCreate e now self localFilename hyDFSfilename cl =
     (case cl self of
        None \<Rightarrow> (0, cl)
      | Some h \<Rightarrow>
          let targetMembers = targets_of e h hyDFSfilename
          in if targetMembers = [] then (0, cl)
             else case hn_local h (Base localFilename) of
                None \<Rightarrow> (0, cl)
              | Some fileData \<Rightarrow>
                  send_all (\<lambda>a. SendFileToNode self a fileData
                    (new_file_metadata e now hyDFSfilename fileData)) targetMembers cl)"

definition handleAppend :: "env \<Rightarrow> time \<Rightarrow> string \<Rightarrow> string \<Rightarrow> string \<Rightarrow> cluster \<Rightarrow> nat \<times> cluster" where
  "handleAppend e now self localFilename hyDFSfilename cl =
     (case cl self of
        None \<Rightarrow> (0, cl)
      | Some h \<Rightarrow>
          let targetMembers = targets_of e h hyDFSfilename
          in if targetMembers = [] then (0, cl)
             else case hn_local h (Base localFilename) of
                None \<Rightarrow> (0, cl)
              | Some fileData \<Rightarrow>
                  send_all (\<lambda>a. SendAppendToNode self a fileData
                    (new_append_info e now h hyDFSfilename fileData)) targetMembers cl)"

fun try_replicas :: "(string \<Rightarrow> cluster \<Rightarrow> bool \<times> cluster) \<Rightarrow> Member list \<Rightarrow> cluster \<Rightarrow> bool \<times> cluster" where
  "try_replicas download [] cl = (False, cl)"
| "try_replicas download (m # ms) cl =
     (let (ok, cl') = download (m_Address m) cl
      in if ok then (True, cl') else try_replicas download ms cl')"

definition handleGet :: "env \<Rightarrow> string \<Rightarrow> string \<Rightarrow> string \<Rightarrow> cluster \<Rightarrow> bool \<times> cluster" where
  "handleGet e self hyDFSfilename localFilename cl =
     (case cl self of
        None \<Rightarrow> (False, cl)
      | Some h \<Rightarrow>
          let targetMembers = targets_of e h hyDFSfilename
          in if targetMembers = [] then (False, cl)
             else try_replicas (\<lambda>a. ReceiveFileFromNode self a hyDFSfilename LocalDir localFilename)
               targetMembers cl)"

text \<open>The existence check of \<open>AppendOrCreateFromBuffer\<close> on one target.\<close>

definition file_known_at :: "string \<Rightarrow> cluster \<Rightarrow> Member \<Rightarrow> bool" where
  "file_known_at filename cl member =
     (case cl (m_Address member) of
        None \<Rightarrow> False
      | Some h \<Rightarrow> (case svc_GetFileMetadata filename h of (ok, files) \<Rightarrow> ok \<and> files filename \<noteq> None))"

definition AppendOrCreateFromBuffer :: "env \<Rightarrow> time \<Rightarrow> string \<Rightarrow> string \<Rightarrow> string \<Rightarrow> cluster \<Rightarrow> nat \<times> cluster" where
  "AppendOrCreateFromBuffer e now self hyDFSfilename data cl =
     (if data = [] then (0, cl)
      else case cl self of
          None \<Rightarrow> (0, cl)
        | Some h \<Rightarrow>
            let targetMembers = targets_of e h hyDFSfilename
            in if targetMembers = [] then (0, cl)
               else if \<not> list_ex (file_known_at hyDFSfilename cl) targetMembers then
                 send_all (\<lambda>a. SendFileToNode self a data
                   (new_file_metadata e now hyDFSfilename data)) targetMembers cl
               else
                 send_all (\<lambda>a. SendAppendToNode self a data
                   (new_append_info e now h hyDFSfilename data)) targetMembers cl)"

definition handleGetFromReplica :: "string \<Rightarrow> string \<Rightarrow> string \<Rightarrow> string \<Rightarrow> cluster \<Rightarrow> bool \<times> cluster" where
  "handleGetFromReplica self vmID hyDFSfilename localFilename cl =
     (let vmAddress = NodeMap vmID
      in if vmAddress = [] then (False, cl)
         else ReceiveFileFromNode self vmAddress hyDFSfilename LocalDir localFilename cl)"

text \<open>The nodes \<open>handleLS\<close> reports: targets that answer and hold the file.\<close>

definition handleLS :: "env \<Rightarrow> string \<Rightarrow> string \<Rightarrow> cluster \<Rightarrow> Member list" where
  "handleLS e self hyDFSfilename cl =
     (case cl self of
        None \<Rightarrow> []
      | Some h \<Rightarrow> filter (file_known_at hyDFSfilename cl) (targets_of e h hyDFSfilename))"

text \<open>
  \<open>handleMultiAppend\<close>: each named VM appends its local file, with the VM's own clock reading
  taken from \<open>nows\<close>; the RPC to an unreachable VM fails.
\<close>

definition handleMultiAppend ::
    "env \<Rightarrow> (string \<Rightarrow> time) \<Rightarrow> string \<Rightarrow> string list \<Rightarrow> string list \<Rightarrow> cluster \<Rightarrow> nat \<times> cluster" where
  "handleMultiAppend e nows hyDFSfilename vmNames localFiles cl =
     fold (\<lambda>(vmName, localFile) (n, cl).
        let vmAddress = NodeMap vmName
        in if vmAddress = [] then (n, cl)
           else case cl vmAddress of
              None \<Rightarrow> (n, cl)
            | Some _ \<Rightarrow> (n + 1, snd (handleAppend e (nows vmName) vmAddress localFile hyDFSfilename cl)))
       (zip vmNames localFiles) (0, cl)"

subsection \<open>Stabilization\<close>

text \<open>
  The local node is \<open>self\<close>; its state is looked up whenever the code reads it. A file that is not
  in the remote's answer reads as the zero \<open>FileMetadata\<close>, which has no appends.
\<close>

definition own_file :: "string \<Rightarrow> string \<Rightarrow> cluster \<Rightarrow> FileMetadata option" where
  "own_file self filename cl = (case cl self of None \<Rightarrow> None | Some h \<Rightarrow> GetFile (hn_Metadata h) filename)"

definition own_data :: "string \<Rightarrow> string \<Rightarrow> cluster \<Rightarrow> string option" where
  "own_data self name cl = (case cl self of None \<Rightarrow> None | Some h \<Rightarrow> hn_disk h name)"

definition push_append :: "string \<Rightarrow> string \<Rightarrow> string set \<Rightarrow> AppendInfo \<Rightarrow> cluster \<Rightarrow> cluster" where
  "push_append self addr remoteAppends app cl =
     (if ap_AppendID app \<in> remoteAppends then cl
      else case own_data self (ap_AppendID app) cl of
          None \<Rightarrow> cl
        | Some data \<Rightarrow> snd (SendAppendToNode self addr data app cl))"

definition push_file :: "string \<Rightarrow> string \<Rightarrow> (string \<rightharpoonup> FileMetadata) \<Rightarrow> string \<Rightarrow> cluster \<Rightarrow> cluster" where
  "push_file self addr succFiles filename cl =
     (case own_file self filename cl of
        None \<Rightarrow> cl
      | Some localMeta \<Rightarrow>
          let remoteMeta = (case succFiles filename of None \<Rightarrow> zeroFileMetadata | Some m \<Rightarrow> m);
              cl = (if succFiles filename = None \<or> fm_FileContentHash localMeta \<noteq> fm_FileContentHash remoteMeta
                    then case own_data self filename cl of
                        None \<Rightarrow> cl
                      | Some data \<Rightarrow> snd (SendFileToNode self addr data localMeta cl)
                    else cl);
              remoteAppends = set (map ap_AppendID (fm_Appends remoteMeta))
          in fold (push_append self addr remoteAppends) (fm_Appends localMeta) cl)"

definition pushFilesToSuccessors ::
    "env \<Rightarrow> string \<Rightarrow> string list \<Rightarrow> Member list \<Rightarrow> int \<Rightarrow> int \<Rightarrow> cluster \<Rightarrow> cluster" where
  "pushFilesToSuccessors e self myFiles successors start end cl =
     fold (\<lambda>successor cl.
        let succFiles = fetchMetadataFromNode e (m_Address successor) start end cl
        in fold (push_file self (m_Address successor) succFiles) myFiles cl) successors cl"

definition pull_append :: "string \<Rightarrow> string \<Rightarrow> string \<Rightarrow> string set \<Rightarrow> AppendInfo \<Rightarrow> cluster \<Rightarrow> cluster" where
  "pull_append self addr remoteFilename localAppends remoteAppend cl =
     (if ap_AppendID remoteAppend \<in> localAppends then cl
      else
        let (ok, cl) = ReceiveFileFromNode self addr (ap_AppendID remoteAppend) HydfsDir
              (ap_AppendID remoteAppend) cl
        in if ok then
             on_node self (\<lambda>h. case AppendToFile (hn_Metadata h) remoteFilename remoteAppend of
                 Inl _ \<Rightarrow> h | Inr m \<Rightarrow> with_metadata (\<lambda>_. m) h) cl
           else cl)"

definition pull_file :: "string \<Rightarrow> string \<Rightarrow> string \<Rightarrow> FileMetadata \<Rightarrow> cluster \<Rightarrow> cluster" where
  "pull_file self addr remoteFilename remoteMeta cl =
     (let localMeta = own_file self remoteFilename cl;
          (go_on, cl) =
            (if localMeta \<noteq> None then (True, cl)
             else
               let (ok, cl) = ReceiveFileFromNode self addr remoteFilename HydfsDir remoteFilename cl
               in if \<not> ok then (False, cl)
                  else (True, on_node self (with_metadata (\<lambda>m. AddFile m (remoteMeta\<lparr>fm_Appends := []\<rparr>))) cl));
          localAppends = set (map ap_AppendID (fm_Appends
            (case localMeta of None \<Rightarrow> zeroFileMetadata | Some m \<Rightarrow> m)))
      in if go_on
         then fold (pull_append self addr remoteFilename localAppends) (fm_Appends remoteMeta) cl
         else cl)"

definition getFilesFromSuccessors ::
    "env \<Rightarrow> string \<Rightarrow> Member list \<Rightarrow> int \<Rightarrow> int \<Rightarrow> cluster \<Rightarrow> cluster" where
  "getFilesFromSuccessors e self successors start end cl =
     fold (\<lambda>successor cl.
        let succFiles = fetchMetadataFromNode e (m_Address successor) start end cl
        in fold (\<lambda>name cl. case succFiles name of
             None \<Rightarrow> cl
           | Some remoteMeta \<Rightarrow> pull_file self (m_Address successor) name remoteMeta cl)
           (e_ord e succFiles) cl) successors cl"

definition stabilizeRing :: "env \<Rightarrow> string \<Rightarrow> string \<Rightarrow> cluster \<Rightarrow> cluster" where
  "stabilizeRing e self filename cl =
     (case cl self of
        None \<Rightarrow> cl
      | Some h \<Rightarrow>
          let members = GetAll (srv_Members (hn_srv h)); myID = ServerID (hn_srv h)
          in case GetPrimaryKeyRange members myID of
              None \<Rightarrow> cl
            | Some (start, end) \<Rightarrow>
                let files = md_Files (hn_Metadata h);
                    allFiles = GetFilesWithinRange (e_ord e files) files start end;
                    myFiles = (if filename \<noteq> [] \<and> filename \<in> set allFiles then [filename] else allFiles);
                    successors = GetSuccessors members myID (cfg_ReplicationFactor (e_cfg e))
                in if successors = [] then cl
                   else getFilesFromSuccessors e self successors start end
                     (pushFilesToSuccessors e self myFiles successors start end cl))"

text \<open>Is node \<open>nodeID\<close> within the replication window of the node \<open>myID\<close>? \<open>None\<close>: it is not in the ring.\<close>

definition in_window :: "Config \<Rightarrow> Member list \<Rightarrow> string \<Rightarrow> string \<Rightarrow> bool" where
  "in_window cfg members myID nodeID =
     (let changedIdx = GetNodeIndex members nodeID; myIdx = GetNodeIndex members myID;
          n = int (length members)
      in members \<noteq> [] \<and> changedIdx \<noteq> -1 \<and> myIdx \<noteq> -1 \<and>
         list_ex (\<lambda>i. GetRingSuccessorIdx myIdx i n = changedIdx \<or> GetRingPredecessorIdx myIdx n = changedIdx)
           [1 .. cfg_ReplicationFactor cfg - 1])"

definition handleReplicationWindowChange :: "env \<Rightarrow> string \<Rightarrow> string \<Rightarrow> cluster \<Rightarrow> cluster" where
  "handleReplicationWindowChange e self nodeID cl =
     (case cl self of
        None \<Rightarrow> cl
      | Some h \<Rightarrow>
          if in_window (e_cfg e) (GetAll (srv_Members (hn_srv h))) (ServerID (hn_srv h)) nodeID
          then stabilizeRing e self [] cl else cl)"

definition remove_names :: "string list \<Rightarrow> HNode \<Rightarrow> HNode" where
  "remove_names names h = h\<lparr>hn_disk := (\<lambda>n. if n \<in> set names then None else hn_disk h n)\<rparr>"

definition delete_if_outside :: "int \<Rightarrow> int \<Rightarrow> string \<Rightarrow> HNode \<Rightarrow> HNode" where
  "delete_if_outside startRange endRange filename h =
     (case GetFile (hn_Metadata h) filename of
        None \<Rightarrow> h
      | Some fileMeta \<Rightarrow>
          if IsHashInRange (fm_FileNameHash fileMeta) startRange endRange then h
          else with_metadata (\<lambda>m. snd (DeleteFile m filename))
            (remove_names (filename # map ap_AppendID (fm_Appends fileMeta)) h))"

definition deleteFilesOutsideMyRange :: "env \<Rightarrow> HNode \<Rightarrow> HNode go" where
  "deleteFilesOutsideMyRange e h =
     (let members = GetAll (srv_Members (hn_srv h))
      in if members = [] then Inr h
         else case GetAllKeyRange members (ServerID (hn_srv h)) (cfg_ReplicationFactor (e_cfg e)) of
             Inl err \<Rightarrow> Inl err
           | Inr None \<Rightarrow> Inr h
           | Inr (Some (startRange, endRange)) \<Rightarrow>
               Inr (fold (delete_if_outside startRange endRange) (e_ord e (md_Files (hn_Metadata h))) h))"

subsection \<open>Merge\<close>

definition filesAndAppendsMatch :: "FileMetadata \<Rightarrow> FileMetadata \<Rightarrow> bool" where
  "filesAndAppendsMatch localMeta remoteMeta =
     (if fm_FileContentHash localMeta \<noteq> fm_FileContentHash remoteMeta then False
      else if length (fm_Appends localMeta) \<noteq> length (fm_Appends remoteMeta) then False
      else
        let localIDs = set (map ap_AppendID (fm_Appends localMeta))
        in list_all (\<lambda>app. ap_AppendID app \<in> localIDs) (fm_Appends remoteMeta))"

fun ordersMatch :: "string list \<Rightarrow> AppendInfo list \<Rightarrow> bool" where
  "ordersMatch [] [] = True"
| "ordersMatch (i # ids) (a # as) = (i = ap_AppendID a \<and> ordersMatch ids as)"
| "ordersMatch _ _ = False"

definition ensureRemoteFileInSync ::
    "env \<Rightarrow> string \<Rightarrow> Member \<Rightarrow> string \<Rightarrow> FileMetadata \<Rightarrow> cluster \<Rightarrow> bool \<times> cluster" where
  "ensureRemoteFileInSync e self successor filename localMeta cl =
     (case cl (m_Address successor) of
        None \<Rightarrow> (False, cl)
      | Some r \<Rightarrow>
          (case snd (svc_GetFileMetadata filename r) filename of
             None \<Rightarrow> (False, stabilizeRing e self filename cl)
           | Some remoteMeta \<Rightarrow>
               (True, if \<not> filesAndAppendsMatch localMeta remoteMeta
                      then stabilizeRing e self filename cl else cl)))"

definition syncRemoteAppendOrder ::
    "Member \<Rightarrow> string \<Rightarrow> FileMetadata \<Rightarrow> string list \<Rightarrow> cluster \<Rightarrow> cluster" where
  "syncRemoteAppendOrder successor filename localMeta localAppendIDs cl =
     (case cl (m_Address successor) of
        None \<Rightarrow> cl
      | Some r \<Rightarrow>
          (case snd (svc_GetFileMetadata filename r) filename of
             None \<Rightarrow> cl
           | Some remoteMeta \<Rightarrow>
               if ordersMatch localAppendIDs (fm_Appends remoteMeta) then cl
               else cl(m_Address successor \<mapsto>
                 snd (svc_UpdateAppendOrder filename (fm_Appends localMeta) r))))"

definition executeMerge :: "env \<Rightarrow> string \<Rightarrow> string \<Rightarrow> cluster \<Rightarrow> cluster" where
  "executeMerge e self hyDFSfilename cl =
     (case cl self of
        None \<Rightarrow> cl
      | Some h \<Rightarrow>
          let successors = GetSuccessors (GetAll (srv_Members (hn_srv h))) (ServerID (hn_srv h))
                (cfg_ReplicationFactor (e_cfg e))
          in if successors = [] then cl
             else case GetFile (hn_Metadata h) hyDFSfilename of
                 None \<Rightarrow> cl
               | Some localMeta \<Rightarrow>
                   let localAppendIDs = map ap_AppendID (fm_Appends localMeta)
                   in fold (\<lambda>successor cl.
                        let (ok, cl) = ensureRemoteFileInSync e self successor hyDFSfilename localMeta cl
                        in if ok then syncRemoteAppendOrder successor hyDFSfilename localMeta localAppendIDs cl
                           else cl) successors cl)"

definition handleMergeCommand :: "env \<Rightarrow> string \<Rightarrow> string \<Rightarrow> cluster \<Rightarrow> cluster" where
  "handleMergeCommand e self hyDFSfilename cl =
     (case cl self of
        None \<Rightarrow> cl
      | Some h \<Rightarrow>
          (case GetPrimaryKeyRange (GetAll (srv_Members (hn_srv h))) (ServerID (hn_srv h)) of
             None \<Rightarrow> cl
           | Some (start, end) \<Rightarrow>
               if IsHashInRange (HashToMbits (e_sha1 e) (e_cfg e) hyDFSfilename) start end
               then executeMerge e self hyDFSfilename cl
               else (case targets_of e h hyDFSfilename of
                   [] \<Rightarrow> cl
                 | primaryNode # _ \<Rightarrow> executeMerge e (m_Address primaryNode) hyDFSfilename cl)))"

text \<open>\<open>executeMergeForAllFiles\<close> compares the file hashes with a nil range when the node is alone.\<close>

definition executeMergeForAllFiles :: "env \<Rightarrow> string \<Rightarrow> cluster \<Rightarrow> cluster go" where
  "executeMergeForAllFiles e self cl =
     (case cl self of
        None \<Rightarrow> Inr cl
      | Some h \<Rightarrow>
          let files = md_Files (hn_Metadata h)
          in case GetPrimaryKeyRange (GetAll (srv_Members (hn_srv h))) (ServerID (hn_srv h)) of
               None \<Rightarrow> if e_ord e files = [] then Inr cl else Inl (GoPanic ''nil pointer dereference'')
             | Some (start, end) \<Rightarrow>
                 Inr (fold (executeMerge e self) (GetFilesWithinRange (e_ord e files) files start end) cl))"

text \<open>The files and their ring positions, as \<open>handleListStore\<close> prints them.\<close>

definition handleListStore :: "env \<Rightarrow> HNode \<Rightarrow> (string \<times> string) list" where
  "handleListStore e h =
     List.map_filter (\<lambda>n. map_option (\<lambda>m. (n, dec (fm_FileNameHash m))) (GetFile (hn_Metadata h) n))
       (e_ord e (md_Files (hn_Metadata h)))"

end
