(* ===== verification/Stabilization.thy ===== *)
theory Stabilization imports Replication begin

text \<open>
  What the replication operations achieve: how a transfer changes the target and leaves the other
  nodes' stores alone, that a push makes a successor hold a file exactly as the primary does, that
  a merge makes a replica read the same bytes as the primary, and what garbage collection keeps.
\<close>

subsection \<open>Transfers seen from outside\<close>

text \<open>Two nodes with the same files on disk and the same metadata; bandwidth counters may differ.\<close>

definition same_store :: "HNode \<Rightarrow> HNode \<Rightarrow> bool" where
  "same_store a b \<longleftrightarrow> hn_disk a = hn_disk b \<and> hn_Metadata a = hn_Metadata b"

lemma same_store_refl [simp]: "same_store h h"
  by (simp add: same_store_def)

lemma same_store_trans: "same_store a b \<Longrightarrow> same_store b c \<Longrightarrow> same_store a c"
  by (simp add: same_store_def)

lemma same_store_fold_count:
  "same_store (fold (\<lambda>c. count_sent (f c)) cs h) h"
  "same_store (fold (\<lambda>c. count_received (f c)) cs h) h"
  by (simp_all add: same_store_def)

lemma on_node_apply:
  "on_node a f cl b = (if a = b then map_option f (cl b) else cl b)"
  by (simp add: on_node_def split: option.splits)

lemma file_chunks_appends: "file_chunks data (meta\<lparr>fm_Appends := as\<rparr>) = file_chunks data meta"
  by (simp add: file_chunks_def split: list.split)

lemma FileTransfer_new:
  assumes "data \<noteq> []" and "fm_FileName meta \<noteq> []" and "fm_FileContentHash meta \<noteq> []"
    and "- (2 ^ 31) \<le> fm_FileNameHash meta" "fm_FileNameHash meta < 2 ^ 31"
    and "GetFile (hn_Metadata h) (fm_FileName meta) = None"
  obtains st h' where "FileTransfer None None (file_chunks data meta) None h = Inr (st, h')" "us_Success st"
    "hn_disk h' = (hn_disk h)(fm_FileName meta \<mapsto> data)"
    "hn_Metadata h' = AddFile (hn_Metadata h) (meta\<lparr>fm_Appends := []\<rparr>)"
proof -
  let ?m = "meta\<lparr>fm_Appends := []\<rparr>"
  obtain h1 where r: "fold recv_file_chunk (file_chunks data ?m) (([], None, []), h) =
      ((fm_FileName ?m, Some ?m, data), h1)"
    and h1: "hn_disk h1 = hn_disk h" "hn_Metadata h1 = hn_Metadata h"
    using recv_all [of data ?m h] assms(1-5) by auto
  then have "FileTransfer None None (file_chunks data meta) None h =
      Inr (\<lparr>us_Success = True, us_Message = ''File '' @ fm_FileName meta @ '' received successfully''\<rparr>,
        with_metadata (\<lambda>m. AddFile m ?m) (h1\<lparr>hn_disk := (hn_disk h1)(fm_FileName meta \<mapsto> data)\<rparr>))"
    using assms(6) by (simp add: file_chunks_appends FileTransfer_def saveFile_def Let_def)
  then show ?thesis by (rule that) (simp_all add: with_metadata_def h1)
qed

lemma SendFileToNode_new:
  assumes "data \<noteq> []" and "fm_FileName meta \<noteq> []" and "fm_FileContentHash meta \<noteq> []"
    and "- (2 ^ 31) \<le> fm_FileNameHash meta" "fm_FileNameHash meta < 2 ^ 31"
    and "GetFile (hn_Metadata r) (fm_FileName meta) = None"
    and "cl addr = Some r" "cl self = Some h" "addr \<noteq> self"
  obtains r' h' where "fst (SendFileToNode self addr data meta cl)"
    "snd (SendFileToNode self addr data meta cl) = cl(addr \<mapsto> r', self \<mapsto> h')"
    "same_store h' h" "hn_disk r' = (hn_disk r)(fm_FileName meta \<mapsto> data)"
    "hn_Metadata r' = AddFile (hn_Metadata r) (meta\<lparr>fm_Appends := []\<rparr>)"
proof -
  obtain st r' where t: "FileTransfer None None (file_chunks data meta) None r = Inr (st, r')" "us_Success st"
    "hn_disk r' = (hn_disk r)(fm_FileName meta \<mapsto> data)"
    "hn_Metadata r' = AddFile (hn_Metadata r) (meta\<lparr>fm_Appends := []\<rparr>)"
    using FileTransfer_new [OF assms(1-6)] by blast
  have "SendFileToNode self addr data meta cl =
      (True, cl(addr \<mapsto> r', self \<mapsto> fold (\<lambda>c. count_sent (length (fc_Data c))) (file_chunks data meta) h))"
    using assms(7-9) t(1,2) by (simp add: SendFileToNode_def on_node_def)
  then show ?thesis using t(3,4) by (intro that) (auto simp: same_store_fold_count)
qed

lemma AppendToFile_new:
  "md_inv m \<Longrightarrow> GetFile m n = Some f \<Longrightarrow> ap_AppendID a \<notin> ap_AppendID ` set (fm_Appends f) \<Longrightarrow>
    AppendToFile m n a = Inr (m\<lparr>md_Files := (md_Files m)(n \<mapsto>
      f\<lparr>fm_Appends := insert_append (fm_Appends f) a\<rparr>)\<rparr>)"
  by (auto simp: AppendToFile_def GetFile_def md_inv_def Let_def list_ex_iff image_iff
      insertAppend_def insert_append_def split: option.splits)

lemma AppendTransfer_new:
  assumes "data \<noteq> []" and "\<not> is_log_file (ap_FileName a)" and "ap_Size a = int (length data)"
    and "md_inv (hn_Metadata h)" and "GetFile (hn_Metadata h) (ap_FileName a) = Some f"
    and "ap_AppendID a \<notin> ap_AppendID ` set (fm_Appends f)"
  obtains h' where "AppendTransfer None None (append_chunks data a) None h =
      (received_status (ap_FileName a) (ap_AppendID a), h')"
    "hn_disk h' = (hn_disk h)(ap_AppendID a \<mapsto> data)"
    "GetFile (hn_Metadata h') = (GetFile (hn_Metadata h))(ap_FileName a \<mapsto>
      f\<lparr>fm_Appends := insert_append (fm_Appends f) a\<rparr>)" "md_inv (hn_Metadata h')"
proof -
  let ?m = "(hn_Metadata h)\<lparr>md_Files := (md_Files (hn_Metadata h))(ap_FileName a \<mapsto>
    f\<lparr>fm_Appends := insert_append (fm_Appends f) a\<rparr>)\<rparr>"
  obtain h1 where r: "fold recv_append_chunk (append_chunks data a) ((None, []), h) =
      ((Some (ap_FileName a, ap_AppendID a, ap_ClientID a, ap_ClientTimestamp a, ap_AppendHash a), data), h1)"
    and h1: "hn_disk h1 = hn_disk h" "hn_Metadata h1 = hn_Metadata h"
    using recv_append_all [OF assms(1)] by blast
  have a: "\<lparr>ap_FileName = ap_FileName a, ap_AppendID = ap_AppendID a, ap_ClientID = ap_ClientID a,
      ap_ClientTimestamp = ap_ClientTimestamp a, ap_AppendHash = ap_AppendHash a, ap_Size = int (length data)\<rparr> = a"
    using assms(3) by (cases a) simp
  note new = AppendToFile_new [OF assms(4-6)]
  have t: "AppendTransfer None None (append_chunks data a) None h =
      (received_status (ap_FileName a) (ap_AppendID a),
       with_metadata (\<lambda>_. ?m) (h1\<lparr>hn_disk := (hn_disk h1)(ap_AppendID a \<mapsto> data)\<rparr>))"
    using assms(2,5) h1 new by (simp add: AppendTransfer_def r Let_def a)
  show ?thesis
    by (rule that [OF t]) (use AppendToFile_inv [OF assms(4) new] in
      \<open>auto simp: with_metadata_def h1 GetFile_def\<close>)
qed

lemma SendAppendToNode_new:
  assumes "data \<noteq> []" and "\<not> is_log_file (ap_FileName a)" and "ap_Size a = int (length data)"
    and "md_inv (hn_Metadata r)" and "GetFile (hn_Metadata r) (ap_FileName a) = Some f"
    and "ap_AppendID a \<notin> ap_AppendID ` set (fm_Appends f)"
    and "cl addr = Some r" "cl self = Some h" "addr \<noteq> self"
  obtains r' h' where "fst (SendAppendToNode self addr data a cl)"
    "snd (SendAppendToNode self addr data a cl) = cl(addr \<mapsto> r', self \<mapsto> h')"
    "same_store h' h" "hn_disk r' = (hn_disk r)(ap_AppendID a \<mapsto> data)"
    "GetFile (hn_Metadata r') = (GetFile (hn_Metadata r))(ap_FileName a \<mapsto>
      f\<lparr>fm_Appends := insert_append (fm_Appends f) a\<rparr>)" "md_inv (hn_Metadata r')"
proof -
  obtain r' where t: "AppendTransfer None None (append_chunks data a) None r =
      (received_status (ap_FileName a) (ap_AppendID a), r')"
    "hn_disk r' = (hn_disk r)(ap_AppendID a \<mapsto> data)"
    "GetFile (hn_Metadata r') = (GetFile (hn_Metadata r))(ap_FileName a \<mapsto>
      f\<lparr>fm_Appends := insert_append (fm_Appends f) a\<rparr>)" "md_inv (hn_Metadata r')"
    using AppendTransfer_new [OF assms(1-6)] by blast
  have "SendAppendToNode self addr data a cl = (True, cl(addr \<mapsto> r',
      self \<mapsto> fold (\<lambda>c. count_sent (length (ac_Data c))) (append_chunks data a) h))"
    using assms(7-9) t(1) by (simp add: SendAppendToNode_def on_node_def received_status_def)
  then show ?thesis using t(2-4) by (intro that) (auto simp: same_store_fold_count)
qed

subsection \<open>Pushing a file\<close>

lemma push_appends:
  assumes "cl addr = Some r" "cl self = Some h" "addr \<noteq> self"
    and "md_inv (hn_Metadata r)" "GetFile (hn_Metadata r) n = Some f" "\<not> is_log_file n"
    and "\<forall>a \<in> set xs. ap_FileName a = n \<and> ap_AppendID a \<notin> R \<and>
      (\<exists>d. hn_disk h (ap_AppendID a) = Some d \<and> d \<noteq> [] \<and> ap_Size a = int (length d))"
    and "distinct (map ap_AppendID (fm_Appends f @ xs))"
  shows "\<exists>r' h'. fold (push_append self addr R) xs cl = cl(addr \<mapsto> r', self \<mapsto> h') \<and>
    same_store h' h \<and> md_inv (hn_Metadata r') \<and>
    GetFile (hn_Metadata r') = (GetFile (hn_Metadata r))(n \<mapsto> f\<lparr>fm_Appends := deliver (fm_Appends f) xs\<rparr>) \<and>
    hn_disk r' = (\<lambda>k. if k \<in> ap_AppendID ` set xs then hn_disk h k else hn_disk r k)"
  using assms
proof (induction xs arbitrary: cl r h f)
  case Nil
  then have "cl = cl(addr \<mapsto> r, self \<mapsto> h)" by auto
  with Nil show ?case
    by (intro exI [of _ r] exI [of _ h]) (auto simp: deliver_def)
next
  case (Cons a xs)
  obtain d where d: "hn_disk h (ap_AppendID a) = Some d" "d \<noteq> []" "ap_Size a = int (length d)"
    and a: "ap_FileName a = n" "ap_AppendID a \<notin> R"
    using Cons.prems(7) by auto
  have new: "ap_AppendID a \<notin> ap_AppendID ` set (fm_Appends f)" using Cons.prems(8) by auto
  obtain r1 h1 where s: "snd (SendAppendToNode self addr d a cl) = cl(addr \<mapsto> r1, self \<mapsto> h1)"
    "same_store h1 h" "hn_disk r1 = (hn_disk r)(ap_AppendID a \<mapsto> d)"
    "GetFile (hn_Metadata r1) = (GetFile (hn_Metadata r))(n \<mapsto>
      f\<lparr>fm_Appends := insert_append (fm_Appends f) a\<rparr>)" "md_inv (hn_Metadata r1)"
    using SendAppendToNode_new [of d a r f cl addr self h, unfolded a(1),
      OF d(2) Cons.prems(6) d(3) Cons.prems(4,5) new Cons.prems(1-3)] by blast
  have step: "push_append self addr R a cl = cl(addr \<mapsto> r1, self \<mapsto> h1)"
    using s(1) a(2) d(1) Cons.prems(2) by (simp add: push_append_def own_data_def)
  have "mset (map ap_AppendID (insert_append (fm_Appends f) a @ xs)) =
      mset (map ap_AppendID (fm_Appends f @ a # xs))"
    by (simp add: mset_insert_append)
  then have dist: "distinct (map ap_AppendID (insert_append (fm_Appends f) a @ xs))"
    using Cons.prems(8) mset_eq_imp_distinct_iff by metis
  let ?f = "f\<lparr>fm_Appends := insert_append (fm_Appends f) a\<rparr>"
  have "\<exists>r' h'. fold (push_append self addr R) xs (cl(addr \<mapsto> r1, self \<mapsto> h1)) =
      cl(addr \<mapsto> r1, self \<mapsto> h1, addr \<mapsto> r', self \<mapsto> h') \<and>
    same_store h' h1 \<and> md_inv (hn_Metadata r') \<and>
    GetFile (hn_Metadata r') = (GetFile (hn_Metadata r1))(n \<mapsto> ?f\<lparr>fm_Appends := deliver (fm_Appends ?f) xs\<rparr>) \<and>
    hn_disk r' = (\<lambda>k. if k \<in> ap_AppendID ` set xs then hn_disk h1 k else hn_disk r1 k)"
    by (rule Cons.IH) (use Cons.prems(3,6,7) s dist in \<open>simp_all add: same_store_def\<close>)
  then obtain r' h' where IH: "fold (push_append self addr R) xs (cl(addr \<mapsto> r1, self \<mapsto> h1)) =
      cl(addr \<mapsto> r1, self \<mapsto> h1, addr \<mapsto> r', self \<mapsto> h')" "same_store h' h1" "md_inv (hn_Metadata r')"
    "GetFile (hn_Metadata r') = (GetFile (hn_Metadata r1))(n \<mapsto> ?f\<lparr>fm_Appends := deliver (fm_Appends ?f) xs\<rparr>)"
    "hn_disk r' = (\<lambda>k. if k \<in> ap_AppendID ` set xs then hn_disk h1 k else hn_disk r1 k)"
    by blast
  have "cl(addr \<mapsto> r1, self \<mapsto> h1, addr \<mapsto> r', self \<mapsto> h') = cl(addr \<mapsto> r', self \<mapsto> h')"
    using Cons.prems(3) by auto
  then show ?case
    using IH s d(1) step same_store_trans [OF IH(2) s(2)]
    by (intro exI [of _ r'] exI [of _ h']) (auto simp: same_store_def deliver_def)
qed

text \<open>Appends that are already in client order are delivered in exactly that order.\<close>

definition client_ordered :: "AppendInfo list \<Rightarrow> bool" where
  "client_ordered xs \<longleftrightarrow> sorted_wrt (\<lambda>a b. ap_ClientID a = ap_ClientID b \<longrightarrow>
     ap_ClientTimestamp a \<le> ap_ClientTimestamp b) xs"

lemma insert_append_last:
  "client_ordered (xs @ [a]) \<Longrightarrow> insert_append xs a = xs @ [a]"
  by (auto simp: insert_append_def insertAppend_def zeroFileMetadata_def client_ordered_def
      sorted_wrt_append find_index_None leD dest!: find_index_Some split: option.splits)

lemma deliver_ordered: "client_ordered (xs @ ys) \<Longrightarrow> deliver xs ys = xs @ ys"
proof (induction ys arbitrary: xs)
  case (Cons y ys)
  then have "insert_append xs y = xs @ [y]"
    by (intro insert_append_last) (auto simp: client_ordered_def sorted_wrt_append)
  with Cons.IH [of "xs @ [y]"] Cons.prems show ?case by (simp add: deliver_def)
qed (simp add: deliver_def)

text \<open>
  A file as a primary holds it: metadata that a transfer can carry, its base file on disk, and for each
  append, in client order and with its own identifier, a non-empty chunk of the recorded size.
\<close>

definition holds_file :: "HNode \<Rightarrow> string \<Rightarrow> FileMetadata \<Rightarrow> bool" where
  "holds_file h n meta \<longleftrightarrow>
     GetFile (hn_Metadata h) n = Some meta \<and> fm_FileName meta = n \<and> n \<noteq> [] \<and> fm_FileContentHash meta \<noteq> [] \<and>
     - (2 ^ 31) \<le> fm_FileNameHash meta \<and> fm_FileNameHash meta < 2 ^ 31 \<and>
     (\<exists>d. hn_disk h n = Some d \<and> d \<noteq> []) \<and>
     list_all (\<lambda>a. ap_FileName a = n \<and> ap_AppendID a \<noteq> n \<and>
       (\<exists>d. hn_disk h (ap_AppendID a) = Some d \<and> d \<noteq> [] \<and> ap_Size a = int (length d))) (fm_Appends meta) \<and>
     distinct (map ap_AppendID (fm_Appends meta)) \<and> client_ordered (fm_Appends meta)"

definition read_file :: "string \<Rightarrow> HNode \<Rightarrow> string option" where
  "read_file n h = (case Hydfs_GetFile n h of Inl _ \<Rightarrow> None | Inr (chunks, _) \<Rightarrow> Some (received_data chunks))"

lemma send_paths_cong:
  "(\<And>p. p \<in> set ps \<Longrightarrow> d1 p = d2 p) \<Longrightarrow> send_paths d1 n ps = send_paths d2 n ps"
  by (induction ps) (auto split: option.splits)

lemma read_file_cong:
  assumes "GetFile (hn_Metadata a) n = Some meta" and "GetFile (hn_Metadata b) n = Some meta'"
    and "fm_FileName meta' = fm_FileName meta"
    and "map ap_AppendID (fm_Appends meta') = map ap_AppendID (fm_Appends meta)"
    and "\<And>p. p \<in> set (fm_FileName meta # map ap_AppendID (fm_Appends meta)) \<Longrightarrow> hn_disk a p = hn_disk b p"
  shows "read_file n a = read_file n b"
proof -
  have "send_paths (hn_disk a) n (fm_FileName meta # map ap_AppendID (fm_Appends meta)) =
      send_paths (hn_disk b) n (fm_FileName meta' # map ap_AppendID (fm_Appends meta'))"
    unfolding assms(3,4) by (rule send_paths_cong) (rule assms(5))
  with assms(1,2) show ?thesis
    by (simp add: read_file_def Hydfs_GetFile_def Let_def del: send_paths.simps)
qed


text \<open>A primary that holds \<open>f\<close> with one append, and an empty successor.\<close>

definition appMeta :: FileMetadata where
  "appMeta = demoMeta\<lparr>fm_Appends := [(sampleAppend ''a'' ''1'')\<lparr>ap_Size := 2\<rparr>]\<rparr>"

definition fullNode :: HNode where
  "fullNode = with_metadata (\<lambda>m. AddFile m appMeta)
     (demoNode\<lparr>hn_disk := [''f'' \<mapsto> ''ab'', ''f_1_a'' \<mapsto> ''cd'']\<rparr>)"

lemma fullNode_holds: "holds_file fullNode ''f'' appMeta"
proof -
  have "GetFile (hn_Metadata fullNode) ''f'' = Some appMeta"
    by (simp add: fullNode_def with_metadata_def GetFile_AddFile appMeta_def demoMeta_def)
  moreover have "hn_disk fullNode ''f'' = Some ''ab''" "hn_disk fullNode ''f_1_a'' = Some ''cd''"
    by (simp_all add: fullNode_def with_metadata_def)
  ultimately show ?thesis
    by (simp add: holds_file_def appMeta_def demoMeta_def sampleAppend_def client_ordered_def)
qed

lemma demoNode_inv: "md_inv (hn_Metadata demoNode)"
  using demoServer_inv(1) by (simp add: demoNode_def srv_inv_def)


subsection \<open>Merging the order of appends\<close>

lemma ordersMatch_iff: "ordersMatch ids as \<longleftrightarrow> ids = map ap_AppendID as"
  by (induction ids as rule: ordersMatch.induct) auto

lemma filesAndAppendsMatch_iff:
  "filesAndAppendsMatch l r \<longleftrightarrow> fm_FileContentHash l = fm_FileContentHash r \<and>
    length (fm_Appends l) = length (fm_Appends r) \<and>
    ap_AppendID ` set (fm_Appends r) \<subseteq> ap_AppendID ` set (fm_Appends l)"
  by (auto simp: filesAndAppendsMatch_def list_all_iff)

text \<open>Content hash, number of appends and membership make the two append lists permutations of each other.\<close>

lemma filesAndAppendsMatch_perm:
  assumes "filesAndAppendsMatch l r" and "distinct (map ap_AppendID (fm_Appends r))"
  shows "mset (map ap_AppendID (fm_Appends l)) = mset (map ap_AppendID (fm_Appends r))"
proof -
  let ?l = "map ap_AppendID (fm_Appends l)" and ?r = "map ap_AppendID (fm_Appends r)"
  have sub: "set ?r \<subseteq> set ?l" and len: "length ?l = length ?r"
    using assms(1) by (auto simp: filesAndAppendsMatch_iff)
  have card: "card (set ?r) = length ?l" using assms(2) len by (metis distinct_card)
  then have "set ?r = set ?l"
    using sub by (metis card_length card_seteq finite_set)
  moreover from this card have "distinct ?l" by (metis card_distinct)
  ultimately show ?thesis using assms(2) set_eq_iff_mset_eq_distinct by blast
qed

text \<open>A replica of the file \<open>meta\<close> of node \<open>h\<close> that lacks nothing but possibly its order.\<close>

definition in_sync :: "HNode \<Rightarrow> string \<Rightarrow> FileMetadata \<Rightarrow> HNode option \<Rightarrow> bool" where
  "in_sync h n meta node = (case node of
     None \<Rightarrow> False
   | Some r \<Rightarrow> md_inv (hn_Metadata r) \<and>
       (case GetFile (hn_Metadata r) n of
          None \<Rightarrow> False
        | Some rmeta \<Rightarrow> filesAndAppendsMatch meta rmeta \<and>
            list_all (\<lambda>p. hn_disk r p = hn_disk h p) (n # map ap_AppendID (fm_Appends meta))))"

definition same_order :: "HNode \<Rightarrow> string \<Rightarrow> FileMetadata \<Rightarrow> HNode option \<Rightarrow> bool" where
  "same_order h n meta node = (case node of
     None \<Rightarrow> False
   | Some r \<Rightarrow> map_option (\<lambda>m. map ap_AppendID (fm_Appends m)) (GetFile (hn_Metadata r) n) =
       Some (map ap_AppendID (fm_Appends meta)))"

definition merge_step :: "env \<Rightarrow> string \<Rightarrow> string \<Rightarrow> FileMetadata \<Rightarrow> Member \<Rightarrow> cluster \<Rightarrow> cluster" where
  "merge_step e self n meta successor cl =
     (let (ok, cl) = ensureRemoteFileInSync e self successor n meta cl
      in if ok then syncRemoteAppendOrder successor n meta (map ap_AppendID (fm_Appends meta)) cl else cl)"

lemma merge_step_sync:
  assumes "in_sync h n meta (cl (m_Address s))"
  shows "\<exists>r'. merge_step e self n meta s cl = cl(m_Address s \<mapsto> r') \<and>
    in_sync h n meta (Some r') \<and> same_order h n meta (Some r')"
proof -
  obtain r rmeta where r: "cl (m_Address s) = Some r" "md_inv (hn_Metadata r)"
    "GetFile (hn_Metadata r) n = Some rmeta" "filesAndAppendsMatch meta rmeta"
    "list_all (\<lambda>p. hn_disk r p = hn_disk h p) (n # map ap_AppendID (fm_Appends meta))"
    using assms by (auto simp: in_sync_def split: option.splits)
  have n: "fm_FileName rmeta = n" using r(2,3) by (simp add: md_inv_def GetFile_def)
  show ?thesis
  proof (cases "ordersMatch (map ap_AppendID (fm_Appends meta)) (fm_Appends rmeta)")
    case True
    then have "merge_step e self n meta s cl = cl(m_Address s \<mapsto> r)"
      using r by (auto simp: merge_step_def ensureRemoteFileInSync_def syncRemoteAppendOrder_def svc_GetFileMetadata_def)
    moreover have "in_sync h n meta (Some r)" using assms r(1) by simp
    ultimately show ?thesis using True r(3)
      by (intro exI [of _ r]) (simp add: same_order_def ordersMatch_iff)
  next
    case False
    let ?r = "with_metadata (\<lambda>m. AddFile m (rmeta\<lparr>fm_Appends := fm_Appends meta\<rparr>)) r"
    have "merge_step e self n meta s cl = cl(m_Address s \<mapsto> ?r)"
      using False r by (simp add: merge_step_def ensureRemoteFileInSync_def syncRemoteAppendOrder_def
          svc_GetFileMetadata_def svc_UpdateAppendOrder_def)
    moreover have "in_sync h n meta (Some ?r)"
      using r n by (simp add: in_sync_def with_metadata_def AddFile_inv GetFile_AddFile filesAndAppendsMatch_iff)
    moreover have "same_order h n meta (Some ?r)"
      using n by (simp add: same_order_def with_metadata_def GetFile_AddFile)
    ultimately show ?thesis by blast
  qed
qed

lemma merge_fold:
  assumes "\<forall>s \<in> set ss. m_Address s \<noteq> self \<and> in_sync h n meta (cl (m_Address s))"
  shows "fold (merge_step e self n meta) ss cl self = cl self \<and>
    (\<forall>a. in_sync h n meta (cl a) \<longrightarrow> in_sync h n meta (fold (merge_step e self n meta) ss cl a)) \<and>
    (\<forall>a. same_order h n meta (cl a) \<longrightarrow> same_order h n meta (fold (merge_step e self n meta) ss cl a)) \<and>
    (\<forall>s \<in> set ss. same_order h n meta (fold (merge_step e self n meta) ss cl (m_Address s)))"
  using assms
proof (induction ss arbitrary: cl)
  case (Cons s ss)
  then obtain r' where r: "merge_step e self n meta s cl = cl(m_Address s \<mapsto> r')"
    "in_sync h n meta (Some r')" "same_order h n meta (Some r')"
    using merge_step_sync by (metis list.set_intros(1))
  let ?cl = "cl(m_Address s \<mapsto> r')"
  define F where "F = fold (merge_step e self n meta) ss ?cl"
  have "\<forall>s \<in> set ss. m_Address s \<noteq> self \<and> in_sync h n meta (?cl (m_Address s))"
    using Cons.prems r(2) by auto
  note IH = Cons.IH [OF this, folded F_def]
  have "fold (merge_step e self n meta) (s # ss) cl = F" by (simp only: fold_simps r(1) F_def)
  moreover have "in_sync h n meta (F a)" if "in_sync h n meta (cl a)" for a
    using IH that r(2) by (cases "a = m_Address s") auto
  moreover have "same_order h n meta (F a)" if "same_order h n meta (cl a)" for a
    using IH that r(3) by (cases "a = m_Address s") auto
  moreover have "same_order h n meta (F (m_Address s))" using IH r(3) by simp
  moreover have "F self = cl self" using IH Cons.prems by auto
  ultimately show ?case using IH by auto
qed simp

lemma read_file_merged:
  assumes "in_sync h n meta (Some r)" "same_order h n meta (Some r)"
    and "md_inv (hn_Metadata h)" "GetFile (hn_Metadata h) n = Some meta"
  shows "read_file n r = read_file n h"
proof -
  obtain rmeta where r: "GetFile (hn_Metadata r) n = Some rmeta" "md_inv (hn_Metadata r)"
    "list_all (\<lambda>p. hn_disk r p = hn_disk h p) (n # map ap_AppendID (fm_Appends meta))"
    "map ap_AppendID (fm_Appends rmeta) = map ap_AppendID (fm_Appends meta)"
    using assms(1,2) by (auto simp: in_sync_def same_order_def split: option.splits)
  have "fm_FileName rmeta = n" "fm_FileName meta = n"
    using r(1,2) assms(3,4) by (simp_all add: md_inv_def GetFile_def)
  then show ?thesis using r assms(4)
    by (intro read_file_cong [where meta = rmeta and meta' = meta]) (auto simp: list_all_iff)
qed


text \<open>A node \<open>a\<close> of \<open>demoRing\<close> with its successor \<open>c\<close>, which received two appends in the other order.\<close>

definition twoMeta :: FileMetadata where
  "twoMeta = demoMeta\<lparr>fm_Appends := [sampleAppend ''a'' ''1'', sampleAppend ''b'' ''1'']\<rparr>"

definition ringEnv :: env where
  "ringEnv = \<lparr>e_sha1 = (\<lambda>_. 5), e_sha256 = (\<lambda>_. ''h''),
     e_cfg = initialConfig\<lparr>cfg_ReplicationFactor := 3\<rparr>, e_ord = (\<lambda>_. [])\<rparr>"

definition ringNode :: "string \<Rightarrow> FileMetadata \<Rightarrow> HNode" where
  "ringNode addr meta = with_metadata (\<lambda>_. AddFile emptyMetadata meta)
     \<lparr>hn_srv = demoServer\<lparr>srv_Addr := addr, srv_Created := 0, srv_Members := demoRing\<rparr>,
      hn_disk = [''f'' \<mapsto> ''ab'', ''f_1_a'' \<mapsto> ''cd'', ''f_1_b'' \<mapsto> ''ef''], hn_local = Map.empty\<rparr>"

lemma ringNode_files: "md_Files (hn_Metadata (ringNode a meta)) = [fm_FileName meta \<mapsto> meta]"
  by (simp add: ringNode_def with_metadata_def AddFile_def emptyMetadata_def)

lemma ringNode_facts [simp]:
  "GetFile (hn_Metadata (ringNode a meta)) = [fm_FileName meta \<mapsto> meta]"
  "md_inv (hn_Metadata (ringNode a meta))"
  "hn_disk (ringNode a meta) = [''f'' \<mapsto> ''ab'', ''f_1_a'' \<mapsto> ''cd'', ''f_1_b'' \<mapsto> ''ef'']"
  by (auto simp: ringNode_def with_metadata_def GetFile_AddFile AddFile_inv GetFile_def emptyMetadata_def
      AddFile_def md_inv_def)

lemma ringNode_successors:
  "GetSuccessors (GetAll (srv_Members (hn_srv (ringNode ''a'' meta)))) (ServerID (hn_srv (ringNode ''a'' meta)))
     (cfg_ReplicationFactor (e_cfg ringEnv)) = [demoRing ! 2]"
proof -
  have "ServerID (hn_srv (ringNode ''a'' meta)) = MemberID (demoRing ! 0)"
    by (simp add: ringNode_def with_metadata_def ServerID_def MemberID_def demoRing_def zeroMember_def)
  moreover have "GetAll (srv_Members (hn_srv (ringNode ''a'' meta))) = demoRing"
    by (simp add: ringNode_def with_metadata_def GetAll_def)
  moreover have "cfg_ReplicationFactor (e_cfg ringEnv) = 3" by (simp add: ringEnv_def)
  ultimately show ?thesis by (simp add: demoRing_successors)
qed


subsection \<open>Garbage collection\<close>

definition outside :: "int \<Rightarrow> int \<Rightarrow> FileMetadata \<Rightarrow> bool" where
  "outside s t meta \<longleftrightarrow> \<not> IsHashInRange (fm_FileNameHash meta) s t"

lemma delete_if_outside_apply:
  "GetFile (hn_Metadata (delete_if_outside s t n h)) k =
     (case GetFile (hn_Metadata h) k of
        None \<Rightarrow> None | Some m \<Rightarrow> if k = n \<and> outside s t m then None else Some m)"
  "hn_disk (delete_if_outside s t n h) p =
     (if (\<exists>m. GetFile (hn_Metadata h) n = Some m \<and> outside s t m \<and> p \<in> set (n # map ap_AppendID (fm_Appends m)))
      then None else hn_disk h p)"
  by (auto simp: delete_if_outside_def with_metadata_def GetFile_DeleteFile remove_names_def outside_def
      split: option.splits)

lemma delete_fold:
  assumes "distinct ns"
  shows "GetFile (hn_Metadata (fold (delete_if_outside s t) ns h)) k =
      (case GetFile (hn_Metadata h) k of
         None \<Rightarrow> None | Some m \<Rightarrow> if k \<in> set ns \<and> outside s t m then None else Some m) \<and>
    hn_disk (fold (delete_if_outside s t) ns h) p =
      (if (\<exists>n \<in> set ns. \<exists>m. GetFile (hn_Metadata h) n = Some m \<and> outside s t m \<and>
          p \<in> set (n # map ap_AppendID (fm_Appends m)))
       then None else hn_disk h p)"
  using assms
proof (induction ns arbitrary: h)
  case (Cons n ns)
  let ?h = "delete_if_outside s t n h"
  have same: "GetFile (hn_Metadata ?h) j = GetFile (hn_Metadata h) j" if "j \<in> set ns" for j
    using that Cons.prems by (auto simp: delete_if_outside_apply split: option.splits)
  have "hn_disk (fold (delete_if_outside s t) ns ?h) p =
      (if (\<exists>j \<in> set ns. \<exists>m. GetFile (hn_Metadata h) j = Some m \<and> outside s t m \<and>
          p \<in> set (j # map ap_AppendID (fm_Appends m)))
       then None else hn_disk ?h p)"
    using Cons.IH [of ?h] Cons.prems same by simp
  moreover have "GetFile (hn_Metadata (fold (delete_if_outside s t) ns ?h)) k =
      (case GetFile (hn_Metadata ?h) k of
         None \<Rightarrow> None | Some m \<Rightarrow> if k \<in> set ns \<and> outside s t m then None else Some m)"
    using Cons.IH [of ?h] Cons.prems by simp
  ultimately show ?case
    by (auto simp: delete_if_outside_apply split: option.splits)
qed (simp split: option.splits)

text \<open>
  C21: garbage collection deletes exactly the files whose ring position lies outside the
  node's range, with their append chunks: the metadata of the files in range stays, and a path on disk
  disappears only if it belongs to a deleted file.
\<close>

theorem garbage_collection_exact:
  assumes "GetAll (srv_Members (hn_srv h)) \<noteq> []"
    and "GetAllKeyRange (GetAll (srv_Members (hn_srv h))) (ServerID (hn_srv h))
      (cfg_ReplicationFactor (e_cfg e)) = Inr (Some (s, t))"
    and "is_listing (hn_Metadata h) (e_ord e (md_Files (hn_Metadata h)))"
  shows "\<exists>h'. deleteFilesOutsideMyRange e h = Inr h' \<and>
    (\<forall>n. GetFile (hn_Metadata h') n = (case GetFile (hn_Metadata h) n of
       None \<Rightarrow> None
     | Some m \<Rightarrow> if IsHashInRange (fm_FileNameHash m) s t then Some m else None)) \<and>
    (\<forall>p. hn_disk h' p = (if (\<exists>n m. GetFile (hn_Metadata h) n = Some m \<and>
        \<not> IsHashInRange (fm_FileNameHash m) s t \<and> p \<in> set (n # map ap_AppendID (fm_Appends m)))
       then None else hn_disk h p))"
proof -
  let ?ns = "e_ord e (md_Files (hn_Metadata h))" let ?h = "fold (delete_if_outside s t) ?ns h"
  have d: "distinct ?ns" and m: "k \<in> set ?ns \<longleftrightarrow> GetFile (hn_Metadata h) k \<noteq> None" for k
    using assms(3) by (auto simp: is_listing_def GetFile_def)
  have "deleteFilesOutsideMyRange e h = Inr ?h"
    using assms(1,2) by (simp add: deleteFilesOutsideMyRange_def)
  moreover have "GetFile (hn_Metadata ?h) k = (case GetFile (hn_Metadata h) k of
       None \<Rightarrow> None
     | Some m \<Rightarrow> if IsHashInRange (fm_FileNameHash m) s t then Some m else None)" for k
    using delete_fold [OF d] m by (simp add: outside_def split: option.splits)
  moreover have "hn_disk ?h p = (if (\<exists>n m. GetFile (hn_Metadata h) n = Some m \<and>
        \<not> IsHashInRange (fm_FileNameHash m) s t \<and> p \<in> set (n # map ap_AppendID (fm_Appends m)))
       then None else hn_disk h p)" for p
    using delete_fold [OF d, of s t h undefined p] m by (auto simp: outside_def)
  ultimately show ?thesis by blast
qed

lemma demoRing_key_range:
  "GetAllKeyRange demoRing (MemberID (demoRing ! 0)) 2 = Inr (Some (20, 10))"
proof -
  have "GetNodeIndex demoRing (MemberID (demoRing ! 0)) = 0"
    using member_index_split [OF demoRing_split(1,2)] by (simp add: GetNodeIndex_def)
  then show ?thesis by (simp add: GetAllKeyRange_def) (simp add: demoRing_def smod_pos)
qed

theorem garbage_collection_exact_witness:
  "\<exists>h'. deleteFilesOutsideMyRange (ringEnv\<lparr>e_cfg := initialConfig\<lparr>cfg_ReplicationFactor := 2\<rparr>, e_ord := \<lambda>_. [''f'']\<rparr>)
      (ringNode ''a'' (twoMeta\<lparr>fm_FileNameHash := 15\<rparr>)) = Inr h' \<and>
    GetFile (hn_Metadata h') ''f'' = None \<and> hn_disk h' ''f_1_a'' = None"
proof -
  let ?e = "ringEnv\<lparr>e_cfg := initialConfig\<lparr>cfg_ReplicationFactor := 2\<rparr>, e_ord := \<lambda>_. [''f'']\<rparr>"
  let ?m = "twoMeta\<lparr>fm_FileNameHash := 15\<rparr>" let ?h = "ringNode ''a'' ?m"
  have n: "fm_FileName ?m = ''f''" and n': "fm_FileName twoMeta = ''f''"
    by (simp_all add: twoMeta_def demoMeta_def)
  have id: "ServerID (hn_srv ?h) = MemberID (demoRing ! 0)"
    by (simp add: ringNode_def with_metadata_def ServerID_def MemberID_def demoRing_def zeroMember_def)
  have ms: "GetAll (srv_Members (hn_srv ?h)) = demoRing"
    by (simp add: ringNode_def with_metadata_def GetAll_def)
  have ne: "demoRing \<noteq> []" by (simp add: demoRing_def)
  have files: "md_Files (hn_Metadata ?h) = [''f'' \<mapsto> ?m]"
    by (simp add: ringNode_files n')
  have "\<exists>h'. deleteFilesOutsideMyRange ?e ?h = Inr h' \<and>
    (\<forall>n. GetFile (hn_Metadata h') n = (case GetFile (hn_Metadata ?h) n of
       None \<Rightarrow> None
     | Some m \<Rightarrow> if IsHashInRange (fm_FileNameHash m) 20 10 then Some m else None)) \<and>
    (\<forall>p. hn_disk h' p = (if (\<exists>n m. GetFile (hn_Metadata ?h) n = Some m \<and>
        \<not> IsHashInRange (fm_FileNameHash m) 20 10 \<and> p \<in> set (n # map ap_AppendID (fm_Appends m)))
       then None else hn_disk ?h p))"
    by (rule garbage_collection_exact)
      (simp_all add: id ms ne demoRing_key_range is_listing_def files)
  then obtain h' where h: "deleteFilesOutsideMyRange ?e ?h = Inr h'"
    "\<forall>n. GetFile (hn_Metadata h') n = (case GetFile (hn_Metadata ?h) n of
       None \<Rightarrow> None
     | Some m \<Rightarrow> if IsHashInRange (fm_FileNameHash m) 20 10 then Some m else None)"
    "\<forall>p. hn_disk h' p = (if (\<exists>n m. GetFile (hn_Metadata ?h) n = Some m \<and>
        \<not> IsHashInRange (fm_FileNameHash m) 20 10 \<and> p \<in> set (n # map ap_AppendID (fm_Appends m)))
       then None else hn_disk ?h p)" by blast
  have "\<not> IsHashInRange 15 20 10" by (simp add: IsHashInRange_def)
  moreover have "''f_1_a'' \<in> set (map ap_AppendID (fm_Appends ?m))" by (simp add: twoMeta_def sampleAppend_def)
  ultimately show ?thesis using h n by auto
qed

subsection \<open>Writing the logs of the streaming layer\<close>

definition stores :: "cluster \<Rightarrow> string \<Rightarrow> ((string \<rightharpoonup> string) \<times> Metadata) option" where
  "stores cl a = map_option (\<lambda>h. (hn_disk h, hn_Metadata h)) (cl a)"

lemma stores_charge [simp]:
  "stores (on_node a (fold (\<lambda>c. count_sent (f c)) cs) cl) = stores cl"
  by (rule ext) (simp add: stores_def on_node_apply option.map_comp comp_def)

lemma stores_Some:
  "stores cl a = Some (disk, md) \<Longrightarrow> \<exists>h. cl a = Some h \<and> hn_disk h = disk \<and> hn_Metadata h = md"
  by (auto simp: stores_def)

text \<open>What a successful transfer does to the stores: one entry changes, by a function of its old value.\<close>

definition transfers ::
    "((string \<rightharpoonup> string) \<times> Metadata \<Rightarrow> (string \<rightharpoonup> string) \<times> Metadata) \<Rightarrow>
     (string \<Rightarrow> cluster \<Rightarrow> bool \<times> cluster) \<Rightarrow> cluster \<Rightarrow> string \<Rightarrow> bool" where
  "transfers g send cl a \<longleftrightarrow> (\<forall>cl'. stores cl' a = stores cl a \<longrightarrow>
     fst (send a cl') \<and> stores (snd (send a cl')) = (stores cl')(a := map_option g (stores cl' a)))"

lemma send_all_transfers:
  assumes "distinct (map m_Address ts)" and "\<forall>t \<in> set ts. transfers g send cl (m_Address t)"
    and "\<forall>a \<in> m_Address ` set ts. stores cl0 a = stores cl a"
  shows "fst (fold (\<lambda>m (n, cl). let (ok, cl') = send (m_Address m) cl in (if ok then n + 1 else n, cl'))
       ts (k, cl0)) = k + length ts \<and>
    stores (snd (fold (\<lambda>m (n, cl). let (ok, cl') = send (m_Address m) cl in (if ok then n + 1 else n, cl'))
       ts (k, cl0))) = (\<lambda>a. if a \<in> m_Address ` set ts then map_option g (stores cl0 a) else stores cl0 a)"
  using assms
proof (induction ts arbitrary: k cl0)
  case (Cons t ts)
  obtain cl1 where s: "send (m_Address t) cl0 = (True, cl1)"
    "stores cl1 = (stores cl0)(m_Address t := map_option g (stores cl0 (m_Address t)))"
    using Cons.prems unfolding transfers_def by (cases "send (m_Address t) cl0") auto
  have neq: "\<forall>a \<in> set ts. m_Address a \<noteq> m_Address t" using Cons.prems(1) by (auto simp: image_iff)
  then have "\<forall>a \<in> m_Address ` set ts. stores cl1 a = stores cl a" using Cons.prems s(2) by auto
  from Cons.IH [OF _ _ this, of "k + 1"] Cons.prems(1,2) s neq show ?case by (auto simp: fun_eq_iff)
qed simp

lemma send_all_stores:
  assumes "distinct (map m_Address ts)" and "\<forall>t \<in> set ts. transfers g send cl (m_Address t)"
  shows "fst (send_all send ts cl) = length ts"
    and "stores (snd (send_all send ts cl)) =
      (\<lambda>a. if a \<in> m_Address ` set ts then map_option g (stores cl a) else stores cl a)"
  using send_all_transfers [OF assms, of cl 0] by (simp_all add: send_all_def)

definition app_log :: "string \<Rightarrow> string \<Rightarrow> (string \<rightharpoonup> string) \<times> Metadata \<Rightarrow> (string \<rightharpoonup> string) \<times> Metadata" where
  "app_log n data st = ((fst st)(n \<mapsto> (case fst st n of None \<Rightarrow> [] | Some d \<Rightarrow> d) @ data), snd st)"

definition new_file :: "FileMetadata \<Rightarrow> string \<Rightarrow> (string \<rightharpoonup> string) \<times> Metadata \<Rightarrow> (string \<rightharpoonup> string) \<times> Metadata" where
  "new_file meta data st = ((fst st)(fm_FileName meta \<mapsto> data), AddFile (snd st) meta)"

lemma transfers_append:
  assumes "data \<noteq> []" and "is_log_file (ap_FileName info)"
    and "cl a = Some r" and "GetFile (hn_Metadata r) (ap_FileName info) \<noteq> None"
  shows "transfers (app_log (ap_FileName info) data) (\<lambda>a. SendAppendToNode self a data info) cl a"
  unfolding transfers_def
proof (intro allI impI)
  fix cl' assume "stores cl' a = stores cl a"
  then obtain r1 where r1: "cl' a = Some r1" "GetFile (hn_Metadata r1) (ap_FileName info) \<noteq> None"
    using assms(3,4) by (auto simp: stores_def)
  obtain st r2 where t: "AppendTransfer None None (append_chunks data info) None r1 = (st, r2)"
    by fastforce
  have "us_Success st" "hn_Metadata r2 = hn_Metadata r1"
    "hn_disk r2 = (hn_disk r1)(ap_FileName info \<mapsto>
       (case hn_disk r1 (ap_FileName info) of None \<Rightarrow> [] | Some d \<Rightarrow> d) @ data)"
    using AppendTransfer_log [OF assms(1,2) r1(2)] t by auto
  with r1 t show "fst (SendAppendToNode self a data info cl') \<and>
      stores (snd (SendAppendToNode self a data info cl')) =
      (stores cl')(a := map_option (app_log (ap_FileName info) data) (stores cl' a))"
    by (simp add: SendAppendToNode_def) (auto simp: stores_def app_log_def)
qed

lemma transfers_create:
  assumes "data \<noteq> []" and "fm_FileName meta \<noteq> []" and "fm_FileContentHash meta \<noteq> []"
    and "- (2 ^ 31) \<le> fm_FileNameHash meta" "fm_FileNameHash meta < 2 ^ 31" and "fm_Appends meta = []"
    and "cl a = Some r" and "GetFile (hn_Metadata r) (fm_FileName meta) = None"
  shows "transfers (new_file meta data) (\<lambda>a. SendFileToNode self a data meta) cl a"
  unfolding transfers_def
proof (intro allI impI)
  fix cl' assume "stores cl' a = stores cl a"
  then obtain r1 where r1: "cl' a = Some r1" "GetFile (hn_Metadata r1) (fm_FileName meta) = None"
    using assms(7,8) by (auto simp: stores_def)
  have m: "meta\<lparr>fm_Appends := []\<rparr> = meta" using assms(6) by (cases meta) simp
  obtain st r2 where "FileTransfer None None (file_chunks data meta) None r1 = Inr (st, r2)" "us_Success st"
    "hn_disk r2 = (hn_disk r1)(fm_FileName meta \<mapsto> data)" "hn_Metadata r2 = AddFile (hn_Metadata r1) meta"
    using FileTransfer_new [OF assms(1-5) r1(2), unfolded m] by blast
  with r1 show "fst (SendFileToNode self a data meta cl') \<and>
      stores (snd (SendFileToNode self a data meta cl')) =
      (stores cl')(a := map_option (new_file meta data) (stores cl' a))"
    by (simp add: SendFileToNode_def) (auto simp: stores_def new_file_def)
qed

text \<open>A node that keeps \<open>n\<close> as a log: one file, no append chunks.\<close>

definition log_replica :: "string \<Rightarrow> HNode \<Rightarrow> bool" where
  "log_replica n r = (case GetFile (hn_Metadata r) n of
     None \<Rightarrow> False
   | Some m \<Rightarrow> fm_FileName m = n \<and> fm_Appends m = [] \<and> hn_disk r n \<noteq> None)"

lemma read_file_log:
  "GetFile (hn_Metadata r) n = Some m \<Longrightarrow> fm_FileName m = n \<Longrightarrow> fm_Appends m = [] \<Longrightarrow>
    hn_disk r n = Some d \<Longrightarrow> read_file n r = Some d"
  by (simp add: read_file_def Hydfs_GetFile_def Let_def received_data_def concat_pieces comp_def data_chunk_def)

lemma read_file_none: "GetFile (hn_Metadata r) n = None \<Longrightarrow> read_file n r = None"
  by (simp add: read_file_def Hydfs_GetFile_def)

lemma log_write_creates:
  assumes "data \<noteq> []" and log: "is_log_file n" and self: "cl self = Some h"
    and ts: "ts = targets_of e h n" "ts \<noteq> []" "distinct (map m_Address ts)"
    and env: "e_sha256 e data \<noteq> []" "cfg_HashBits (e_cfg e) \<le> 31"
    and o: "\<forall>t \<in> set ts. \<exists>r. cl (m_Address t) = Some r \<and> GetFile (hn_Metadata r) n = None"
  shows "fst (AppendOrCreateFromBuffer e now self n data cl) = length ts \<and>
    (\<forall>t \<in> set ts. \<exists>r r'. cl (m_Address t) = Some r \<and>
       snd (AppendOrCreateFromBuffer e now self n data cl) (m_Address t) = Some r' \<and>
       read_file n r' = Some ((case read_file n r of None \<Rightarrow> [] | Some d \<Rightarrow> d) @ data)) \<and>
    (\<forall>a. a \<notin> m_Address ` set ts \<longrightarrow>
       stores (snd (AppendOrCreateFromBuffer e now self n data cl)) a = stores cl a)"
proof -
  let ?meta = "new_file_metadata e now n data"
  have eq: "AppendOrCreateFromBuffer e now self n data cl =
      send_all (\<lambda>a. SendFileToNode self a data ?meta) ts cl"
    using assms(1) self ts(1,2) o
    by (auto simp: AppendOrCreateFromBuffer_def Let_def list_ex_iff file_known_at_def svc_GetFileMetadata_def)
  have "(2::int) ^ cfg_HashBits (e_cfg e) \<le> 2 ^ 31" using env(2) by (intro power_increasing) auto
  with HashToMbits_range [of "e_sha1 e" "e_cfg e" n]
  have range: "- (2 ^ 31) \<le> fm_FileNameHash ?meta" "fm_FileNameHash ?meta < 2 ^ 31"
    by (auto simp: new_file_metadata_def)
  have "n \<noteq> []" using log by (auto simp: is_log_file_def HasPrefix_def)
  have "\<forall>t \<in> set ts. transfers (new_file ?meta data) (\<lambda>a. SendFileToNode self a data ?meta) cl (m_Address t)"
  proof
    fix t assume "t \<in> set ts"
    then obtain r where "cl (m_Address t) = Some r" "GetFile (hn_Metadata r) n = None" using o by blast
    with \<open>n \<noteq> []\<close> show "transfers (new_file ?meta data) (\<lambda>a. SendFileToNode self a data ?meta) cl (m_Address t)"
      using assms(1) env(1) range by (intro transfers_create) (simp_all add: new_file_metadata_def)
  qed
  note f = send_all_stores [OF ts(3) this, folded eq]
  have "\<exists>r r'. cl (m_Address t) = Some r \<and>
       snd (AppendOrCreateFromBuffer e now self n data cl) (m_Address t) = Some r' \<and>
       read_file n r' = Some ((case read_file n r of None \<Rightarrow> [] | Some d \<Rightarrow> d) @ data)" if t: "t \<in> set ts" for t
  proof -
    obtain r where r: "cl (m_Address t) = Some r" "GetFile (hn_Metadata r) n = None" using bspec [OF o t] by blast
    have "stores (snd (AppendOrCreateFromBuffer e now self n data cl)) (m_Address t) =
        Some ((hn_disk r)(n \<mapsto> data), AddFile (hn_Metadata r) ?meta)"
      unfolding f(2) using t r by (simp add: stores_def new_file_def new_file_metadata_def)
    from stores_Some [OF this] obtain r' where
      r': "snd (AppendOrCreateFromBuffer e now self n data cl) (m_Address t) = Some r'"
      "hn_disk r' = (hn_disk r)(n \<mapsto> data)" "hn_Metadata r' = AddFile (hn_Metadata r) ?meta" by blast
    have "read_file n r' = Some data"
      by (rule read_file_log [where m = ?meta]) (simp_all add: r' GetFile_AddFile new_file_metadata_def)
    with r r'(1) show ?thesis by (simp add: read_file_none)
  qed
  with f show ?thesis by simp
qed

lemma log_write_appends:
  assumes "data \<noteq> []" and log: "is_log_file n" and self: "cl self = Some h"
    and ts: "ts = targets_of e h n" "ts \<noteq> []" "distinct (map m_Address ts)"
    and o: "\<forall>t \<in> set ts. \<exists>r. cl (m_Address t) = Some r \<and> log_replica n r"
  shows "fst (AppendOrCreateFromBuffer e now self n data cl) = length ts \<and>
    (\<forall>t \<in> set ts. \<exists>r r'. cl (m_Address t) = Some r \<and>
       snd (AppendOrCreateFromBuffer e now self n data cl) (m_Address t) = Some r' \<and>
       read_file n r' = Some ((case read_file n r of None \<Rightarrow> [] | Some d \<Rightarrow> d) @ data)) \<and>
    (\<forall>a. a \<notin> m_Address ` set ts \<longrightarrow>
       stores (snd (AppendOrCreateFromBuffer e now self n data cl)) a = stores cl a)"
proof -
  let ?info = "new_append_info e now h n data"
  have known: "\<forall>t \<in> set ts. file_known_at n cl t"
    using o by (fastforce simp: file_known_at_def svc_GetFileMetadata_def log_replica_def split: option.splits)
  with ts(2) have "list_ex (file_known_at n cl) ts" by (cases ts) auto
  then have eq: "AppendOrCreateFromBuffer e now self n data cl =
      send_all (\<lambda>a. SendAppendToNode self a data ?info) ts cl"
    using assms(1) self ts(1,2) by (simp add: AppendOrCreateFromBuffer_def Let_def)
  have n: "ap_FileName ?info = n" by (simp add: new_append_info_def Let_def)
  have "\<forall>t \<in> set ts. transfers (app_log n data) (\<lambda>a. SendAppendToNode self a data ?info) cl (m_Address t)"
  proof
    fix t assume "t \<in> set ts"
    then obtain r where "cl (m_Address t) = Some r" "GetFile (hn_Metadata r) n \<noteq> None"
      using o by (auto simp: log_replica_def split: option.splits)
    with transfers_append [of data ?info cl "m_Address t" r self] assms(1) log n
    show "transfers (app_log n data) (\<lambda>a. SendAppendToNode self a data ?info) cl (m_Address t)" by simp
  qed
  note f = send_all_stores [OF ts(3) this, folded eq]
  have "\<exists>r r'. cl (m_Address t) = Some r \<and>
       snd (AppendOrCreateFromBuffer e now self n data cl) (m_Address t) = Some r' \<and>
       read_file n r' = Some ((case read_file n r of None \<Rightarrow> [] | Some d \<Rightarrow> d) @ data)" if t: "t \<in> set ts" for t
  proof -
    obtain r m d where r: "cl (m_Address t) = Some r" "GetFile (hn_Metadata r) n = Some m" "fm_FileName m = n"
      "fm_Appends m = []" "hn_disk r n = Some d"
      using bspec [OF o t] by (auto simp: log_replica_def split: option.splits)
    have "stores (snd (AppendOrCreateFromBuffer e now self n data cl)) (m_Address t) =
        Some ((hn_disk r)(n \<mapsto> d @ data), hn_Metadata r)"
      unfolding f(2) using t r by (simp add: stores_def app_log_def)
    from stores_Some [OF this] obtain r' where
      r': "snd (AppendOrCreateFromBuffer e now self n data cl) (m_Address t) = Some r'"
      "hn_disk r' = (hn_disk r)(n \<mapsto> d @ data)" "hn_Metadata r' = hn_Metadata r" by blast
    have "read_file n r' = Some (d @ data)"
      by (rule read_file_log [where m = m]) (simp_all add: r' r)
    with r'(1) r(1) read_file_log [OF r(2-5)] show ?thesis by simp
  qed
  with f show ?thesis by simp
qed



subsection \<open>What a pull cannot fetch\<close>

text \<open>
  An append chunk is requested under its own identifier, which no node has metadata for: the request
  fails, nothing is recorded, and a local chunk of that name is lost.
\<close>

lemma append_download_fails:
  assumes "cl addr = Some r" and "GetFile (hn_Metadata r) (ap_AppendID a) = None"
    and "ap_AppendID a \<notin> localAppends"
  shows "pull_append self addr n localAppends a cl =
    on_node self (write_dir HydfsDir (Base (ap_AppendID a)) None) cl"
  using assms by (simp add: pull_append_def ReceiveFileFromNode_def Hydfs_GetFile_def)

end
