(* ===== verification/MembershipMerge.thy ===== *)
theory MembershipMerge imports Server "HOL-Library.Product_Lexorder" begin

text \<open>
  \<open>membership_merge.go\<close>: merging a received member list into the local one. The two merge rules
  return the server too, because one of them launches stabilization. The locale \<open>merge_policy\<close>
  states what the gossip protocol relies on, that a merge keeps the better-ranked of two entries,
  and derives that any number of merges in any order gives the best rank seen. It is interpreted on both
  rules under both protocols.
\<close>

definition getStatusPriority :: "Status \<Rightarrow> int" where
  "getStatusPriority status =
     (case status of
        StatusDead \<Rightarrow> 3 | StatusVoluntaryLeave \<Rightarrow> 3
      | StatusSuspect \<Rightarrow> 2
      | StatusAlive \<Rightarrow> 1
      | StatusOther _ \<Rightarrow> 0)"

definition compareStatus :: "Status \<Rightarrow> Status \<Rightarrow> bool" where
  "compareStatus received local \<longleftrightarrow> getStatusPriority received > getStatusPriority local"

text \<open>The priorities order the statuses; the two final ones are equivalent.\<close>

instantiation Status :: preorder
begin

definition less_eq_Status :: "Status \<Rightarrow> Status \<Rightarrow> bool" where
  "less_eq_Status a b \<longleftrightarrow> getStatusPriority a \<le> getStatusPriority b"

definition less_Status :: "Status \<Rightarrow> Status \<Rightarrow> bool" where
  "less_Status a b \<longleftrightarrow> getStatusPriority a < getStatusPriority b"

instance
  by standard (auto simp: less_eq_Status_def less_Status_def)

end

lemma compareStatus_less: "compareStatus received local \<longleftrightarrow> local < received"
  by (simp add: compareStatus_def less_Status_def)

lemma final_status_top: "st = StatusDead \<or> st = StatusVoluntaryLeave \<Longrightarrow> st' \<le> st"
  by (cases st') (auto simp: less_eq_Status_def getStatusPriority_def)

abbreviation isFinal :: "Status \<Rightarrow> bool" where
  "isFinal st \<equiv> st = StatusDead \<or> st = StatusVoluntaryLeave"

definition handleSuspicionMerge ::
    "Config \<Rightarrow> time \<Rightarrow> Server \<Rightarrow> Member \<Rightarrow> Member \<Rightarrow> string \<Rightarrow> Server \<times> Member" where
  "handleSuspicionMerge cfg now server localM received receiverId =
     (if isFinal (m_Status received) then (handleDeadNode server received, received)
      else if isFinal (m_Status localM) then (server, localM)
      else if m_Incarnation received > m_Incarnation localM
        then (server, received\<lparr>m_LastUpdated := now\<rparr>)
      else if m_Incarnation localM > m_Incarnation received then (server, localM)
      else if m_Incarnation received = m_Incarnation localM then
        (if m_Status received = m_Status localM then
           (case cfg_Protocol cfg of
              GossipProtocol \<Rightarrow>
                if m_Heartbeat received > m_Heartbeat localM
                then (server, received\<lparr>m_LastUpdated := now\<rparr>) else (server, localM)
            | PingAckProtocol \<Rightarrow>
                if MemberID received = receiverId
                then (server, received\<lparr>m_LastUpdated := now\<rparr>) else (server, localM)
            | OtherProtocol _ \<Rightarrow> (server, localM))
         else if compareStatus (m_Status received) (m_Status localM)
         then (server, received\<lparr>m_LastUpdated := now\<rparr>)
         else (server, localM))
      else (server, localM))"

definition handleNoSuspicionMerge ::
    "Config \<Rightarrow> time \<Rightarrow> Member \<Rightarrow> Member \<Rightarrow> string \<Rightarrow> Member" where
  "handleNoSuspicionMerge cfg now localM received receiverId =
     (if isFinal (m_Status received) then received
      else if isFinal (m_Status localM) then localM
      else if m_Status received = m_Status localM then
        (case cfg_Protocol cfg of
           GossipProtocol \<Rightarrow>
             if m_Heartbeat received > m_Heartbeat localM
             then received\<lparr>m_LastUpdated := now\<rparr> else localM
         | PingAckProtocol \<Rightarrow>
             if MemberID received = receiverId then received\<lparr>m_LastUpdated := now\<rparr> else localM
         | OtherProtocol _ \<Rightarrow> localM)
      else if compareStatus (m_Status received) (m_Status localM)
      then received\<lparr>m_LastUpdated := now\<rparr>
      else localM)"

text \<open>The body of the loop of \<open>mergeMembership\<close> for one received member.\<close>

definition merge_one ::
    "Config \<Rightarrow> time \<Rightarrow> (string \<rightharpoonup> Member) \<Rightarrow> string \<Rightarrow> Member \<Rightarrow> Server \<Rightarrow> Server" where
  "merge_one cfg now localSnapshot senderId received server =
     (if cfg_Protocol cfg = GossipProtocol \<and> m_Status received = StatusDead then server
      else
        case localSnapshot (MemberID received) of
          None \<Rightarrow>
            if m_Status received \<noteq> StatusDead then
              let received = received\<lparr>m_LastUpdated := now\<rparr>;
                  server = server\<lparr>srv_Members := AddOrUpdate (srv_Members server) received\<rparr>
              in handleNewlyJoinedNode server received
            else server
        | Some localM \<Rightarrow>
            let server =
                  (if (m_Status localM = StatusAlive \<or> m_Status localM = StatusSuspect)
                      \<and> isFinal (m_Status received)
                   then handleDeadNode server received else server)
            in if MemberID received = ServerID server \<and> m_Status received = StatusSuspect
                  \<and> m_Status localM = StatusAlive \<and> m_Incarnation received \<ge> m_Incarnation localM then
                 let server = server\<lparr>srv_Incarnation := srv_Incarnation server + 1\<rparr>;
                     localM = localM\<lparr>m_Incarnation := srv_Incarnation server, m_LastUpdated := now\<rparr>
                 in server\<lparr>srv_Members := AddOrUpdate (srv_Members server) localM\<rparr>
               else if MemberID received = ServerID server \<and> m_Status received = StatusDead then server
               else
                 let (server, updated) =
                   (case cfg_Suspicion cfg of
                      Suspect \<Rightarrow> handleSuspicionMerge cfg now server localM received senderId
                    | NoSuspect \<Rightarrow> (server, handleNoSuspicionMerge cfg now localM received senderId)
                    | OtherSuspicion _ \<Rightarrow> (server, zeroMember))
                 in server\<lparr>srv_Members := AddOrUpdate (srv_Members server) updated\<rparr>)"

definition mergeMembership :: "Config \<Rightarrow> time \<Rightarrow> Server \<Rightarrow> Member list \<Rightarrow> string \<Rightarrow> Server" where
  "mergeMembership cfg now server receivedMembers senderId =
     fold (merge_one cfg now (Snapshot (srv_Members server)) senderId) receivedMembers server"

subsection \<open>The merge rules keep the better entry\<close>

locale merge_policy =
  fixes rank :: "Member \<Rightarrow> 'r::linorder"
    and known :: "Member \<Rightarrow> bool"
    and pol :: "Member \<Rightarrow> Member \<Rightarrow> Member"
    and now :: time
  assumes pol_choice: "pol l r = l \<or> pol l r = r \<or> pol l r = r\<lparr>m_LastUpdated := now\<rparr>"
    and pol_rank: "known l \<Longrightarrow> known r \<Longrightarrow> rank (pol l r) = max (rank l) (rank r)"
    and known_touch: "known r \<Longrightarrow> known (r\<lparr>m_LastUpdated := now\<rparr>)"
begin

lemma pol_id: "MemberID l = k \<Longrightarrow> MemberID r = k \<Longrightarrow> MemberID (pol l r) = k"
  using pol_choice [of l r] by auto

lemma pol_known: "known l \<Longrightarrow> known r \<Longrightarrow> known (pol l r)"
  using pol_choice [of l r] known_touch by auto

lemma pol_mono: "known l \<Longrightarrow> known r \<Longrightarrow> rank l \<le> rank (pol l r)"
  by (simp add: pol_rank)

lemma foldl_pol_known: "known l \<Longrightarrow> \<forall>r \<in> set rs. known r \<Longrightarrow> known (foldl pol l rs)"
  by (induction rs arbitrary: l) (auto simp: pol_known)

lemma foldl_pol_rank:
  "known l \<Longrightarrow> \<forall>r \<in> set rs. known r \<Longrightarrow> rank (foldl pol l rs) = Max (insert (rank l) (rank ` set rs))"
proof (induction rs arbitrary: l)
  case (Cons r rs)
  then have "rank (foldl pol (pol l r) rs) = Max (insert (max (rank l) (rank r)) (rank ` set rs))"
    by (simp add: pol_known pol_rank)
  then show ?case by (cases "rs = []") (simp_all add: max.assoc)
qed simp

text \<open>Neither order nor repetition of the received entries matters to the rank reached.\<close>

lemma foldl_pol_agree:
  assumes "known l" "\<forall>r \<in> set rs. known r" "known l'" "\<forall>r \<in> set rs'. known r"
    and "insert (rank l) (rank ` set rs) = insert (rank l') (rank ` set rs')"
  shows "rank (foldl pol l rs) = rank (foldl pol l' rs')"
  using assms by (simp add: foldl_pol_rank)

end

text \<open>
  The ranks. With suspicion a final status beats everything, then the incarnation decides, then
  the status, then (gossip only) the heartbeat; without suspicion the incarnation plays no part.
\<close>

definition known_status :: "Member \<Rightarrow> bool" where
  "known_status m \<longleftrightarrow> (\<forall>s. m_Status m \<noteq> StatusOther s)"

definition rank_suspicion :: "bool \<Rightarrow> Member \<Rightarrow> nat \<times> nat \<times> int \<times> nat" where
  "rank_suspicion hb m =
     (if isFinal (m_Status m) then (1, 0, 0, 0)
      else (0, unat (m_Incarnation m), getStatusPriority (m_Status m),
            if hb then unat (m_Heartbeat m) else 0))"

definition rank_nosuspicion :: "bool \<Rightarrow> Member \<Rightarrow> int \<times> nat" where
  "rank_nosuspicion hb m =
     (if isFinal (m_Status m) then (3, 0)
      else (getStatusPriority (m_Status m), if hb then unat (m_Heartbeat m) else 0))"

abbreviation gossip :: "Config \<Rightarrow> Config" where
  "gossip cfg \<equiv> cfg\<lparr>cfg_Protocol := GossipProtocol\<rparr>"

abbreviation pingack :: "Config \<Rightarrow> Config" where
  "pingack cfg \<equiv> cfg\<lparr>cfg_Protocol := PingAckProtocol\<rparr>"

lemma suspicion_choice:
  "snd (handleSuspicionMerge cfg now s l r sid) = l \<or> snd (handleSuspicionMerge cfg now s l r sid) = r \<or>
   snd (handleSuspicionMerge cfg now s l r sid) = r\<lparr>m_LastUpdated := now\<rparr>"
  by (simp add: handleSuspicionMerge_def split: ProtocolType.splits)

lemma nosuspicion_choice:
  "handleNoSuspicionMerge cfg now l r sid = l \<or> handleNoSuspicionMerge cfg now l r sid = r \<or>
   handleNoSuspicionMerge cfg now l r sid = r\<lparr>m_LastUpdated := now\<rparr>"
  by (simp add: handleNoSuspicionMerge_def split: ProtocolType.splits)

lemma unat_inj: "unat a = unat b \<longleftrightarrow> a = b"
  by (simp add: word_unat_eq_iff)

lemmas rank_defs = rank_suspicion_def rank_nosuspicion_def known_status_def max_def less_prod_def
  less_eq_prod_def compareStatus_def getStatusPriority_def word_less_nat_alt unat_inj

lemma rank_suspicion_gossip:
  "known_status l \<Longrightarrow> known_status r \<Longrightarrow>
    rank_suspicion True (snd (handleSuspicionMerge (gossip cfg) now s l r sid)) =
    max (rank_suspicion True l) (rank_suspicion True r)"
  by (cases "m_Status l"; cases "m_Status r")
    (auto simp: handleSuspicionMerge_def rank_defs)

lemma rank_suspicion_ping:
  "known_status l \<Longrightarrow> known_status r \<Longrightarrow>
    rank_suspicion False (snd (handleSuspicionMerge (pingack cfg) now s l r sid)) =
    max (rank_suspicion False l) (rank_suspicion False r)"
  by (cases "m_Status l"; cases "m_Status r") (auto simp: handleSuspicionMerge_def rank_defs)

lemma rank_nosuspicion_gossip:
  "known_status l \<Longrightarrow> known_status r \<Longrightarrow>
    rank_nosuspicion True (handleNoSuspicionMerge (gossip cfg) now l r sid) =
    max (rank_nosuspicion True l) (rank_nosuspicion True r)"
  by (cases "m_Status l"; cases "m_Status r") (auto simp: handleNoSuspicionMerge_def rank_defs)

lemma rank_nosuspicion_ping:
  "known_status l \<Longrightarrow> known_status r \<Longrightarrow>
    rank_nosuspicion False (handleNoSuspicionMerge (pingack cfg) now l r sid) =
    max (rank_nosuspicion False l) (rank_nosuspicion False r)"
  by (cases "m_Status l"; cases "m_Status r") (auto simp: handleNoSuspicionMerge_def rank_defs)

interpretation susp_gossip: merge_policy "rank_suspicion True" known_status
    "\<lambda>l r. snd (handleSuspicionMerge (gossip cfg) now s l r sid)" now
  for cfg now s sid
  by unfold_locales (rule suspicion_choice rank_suspicion_gossip | simp add: known_status_def)+

interpretation susp_ping: merge_policy "rank_suspicion False" known_status
    "\<lambda>l r. snd (handleSuspicionMerge (pingack cfg) now s l r sid)" now
  for cfg now s sid
  by unfold_locales (rule suspicion_choice rank_suspicion_ping | simp add: known_status_def)+

interpretation nosusp_gossip: merge_policy "rank_nosuspicion True" known_status
    "\<lambda>l r. handleNoSuspicionMerge (gossip cfg) now l r sid" now
  for cfg now sid
  by unfold_locales (rule nosuspicion_choice rank_nosuspicion_gossip | simp add: known_status_def)+

interpretation nosusp_ping: merge_policy "rank_nosuspicion False" known_status
    "\<lambda>l r. handleNoSuspicionMerge (pingack cfg) now l r sid" now
  for cfg now sid
  by unfold_locales (rule nosuspicion_choice rank_nosuspicion_ping | simp add: known_status_def)+

lemma rank_suspicion_eq:
  assumes "rank_suspicion True a = rank_suspicion True b" "known_status a" "known_status b"
  shows "(isFinal (m_Status a) \<and> isFinal (m_Status b)) \<or>
    (m_Status a = m_Status b \<and> m_Incarnation a = m_Incarnation b \<and> m_Heartbeat a = m_Heartbeat b)"
  using assms
  by (cases "m_Status a"; cases "m_Status b")
    (auto simp: rank_suspicion_def known_status_def getStatusPriority_def unat_inj)

text \<open>Within one incarnation a status is never taken back.\<close>

lemma suspicion_status_mono:
  "m_Incarnation r \<le> m_Incarnation l \<Longrightarrow> m_Status l \<le> m_Status (snd (handleSuspicionMerge cfg now s l r sid))"
  using final_status_top [of "m_Status r" "m_Status l"]
  by (auto simp: handleSuspicionMerge_def compareStatus_less less_imp_le split: ProtocolType.split)

text \<open>The entry a node ends with after merging a list of reports about one member.\<close>

definition merge_reports :: "Config \<Rightarrow> time \<Rightarrow> Server \<Rightarrow> string \<Rightarrow> Member \<Rightarrow> Member list \<Rightarrow> Member" where
  "merge_reports cfg now s sid l rs =
     foldl (\<lambda>l r. snd (handleSuspicionMerge cfg now s l r sid)) l rs"



text \<open>
  A suspected node refutes: once it has raised its own incarnation above the one it was
  suspected with, its alive entry replaces the suspicion wherever that is merged and no final status is
  known, and no repetition of the suspicion brings it back.
\<close>

theorem refutation_wins:
  assumes "m_Status susp = StatusSuspect" and "m_Status me = StatusAlive"
    and "m_Incarnation susp < m_Incarnation me"
  shows "snd (handleSuspicionMerge cfg now s susp me sid) = me\<lparr>m_LastUpdated := now\<rparr> \<and>
    snd (handleSuspicionMerge cfg now s me susp sid) = me"
  using assms by (simp add: handleSuspicionMerge_def)

theorem refutation_wins_witness:
  "snd (handleSuspicionMerge initialConfig 5 demoServer (zeroMember\<lparr>m_Status := StatusSuspect\<rparr>)
     (zeroMember\<lparr>m_Status := StatusAlive, m_Incarnation := 1\<rparr>) ''p'') =
   zeroMember\<lparr>m_Status := StatusAlive, m_Incarnation := 1, m_LastUpdated := 5\<rparr>"
proof -
  let ?me = "zeroMember\<lparr>m_Status := StatusAlive, m_Incarnation := 1\<rparr>"
  have "m_Incarnation (zeroMember\<lparr>m_Status := StatusSuspect\<rparr>) < m_Incarnation ?me"
    by (simp add: zeroMember_def)
  then have "snd (handleSuspicionMerge initialConfig 5 demoServer (zeroMember\<lparr>m_Status := StatusSuspect\<rparr>)
      ?me ''p'') = ?me\<lparr>m_LastUpdated := 5\<rparr>"
    by (intro refutation_wins [THEN conjunct1]) simp_all
  then show ?thesis by simp
qed

subsection \<open>The whole merge, entry by entry\<close>

text \<open>What merging one report does to the entry of its member, with no reference to the list.\<close>

definition merge_entry ::
    "Config \<Rightarrow> time \<Rightarrow> Server \<Rightarrow> string \<Rightarrow> Member option \<Rightarrow> Member \<Rightarrow> Member option" where
  "merge_entry cfg now s sid entry r =
     (if cfg_Protocol cfg = GossipProtocol \<and> m_Status r = StatusDead then entry
      else case entry of
          None \<Rightarrow> if m_Status r = StatusDead then None else Some (r\<lparr>m_LastUpdated := now\<rparr>)
        | Some l \<Rightarrow>
            if MemberID r = ServerID s \<and> m_Status r = StatusSuspect \<and> m_Status l = StatusAlive
               \<and> m_Incarnation r \<ge> m_Incarnation l
            then Some (l\<lparr>m_Incarnation := srv_Incarnation s + 1, m_LastUpdated := now\<rparr>)
            else if MemberID r = ServerID s \<and> m_Status r = StatusDead then Some l
            else if cfg_Suspicion cfg = Suspect
            then Some (snd (handleSuspicionMerge cfg now s l r sid))
            else Some (handleNoSuspicionMerge cfg now l r sid))"

lemma handleSuspicionMerge_snd:
  "snd (handleSuspicionMerge cfg now s l r sid) = snd (handleSuspicionMerge cfg now s' l r sid)"
  by (simp add: handleSuspicionMerge_def split: ProtocolType.splits)

lemma handleSuspicionMerge_fst:
  "fst (handleSuspicionMerge cfg now s l r sid) = s \<or>
   fst (handleSuspicionMerge cfg now s l r sid) = handleDeadNode s r"
  by (simp add: handleSuspicionMerge_def split: ProtocolType.splits)

lemma merge_id:
  "MemberID l = MemberID r \<Longrightarrow> MemberID (snd (handleSuspicionMerge cfg now s l r sid)) = MemberID r"
  "MemberID l = MemberID r \<Longrightarrow> MemberID (handleNoSuspicionMerge cfg now l r sid) = MemberID r"
  using suspicion_choice [of cfg now s l r sid] nosuspicion_choice [of cfg now l r sid] by auto

text \<open>Either the server is untouched, or one entry with the report's ID is written.\<close>

lemma merge_one_cases:
  assumes "cfg_Suspicion cfg = Suspect \<or> cfg_Suspicion cfg = NoSuspect"
    and "\<And>l. base (MemberID r) = Some l \<Longrightarrow> MemberID l = MemberID r"
  obtains (skip) "srv_Members (merge_one cfg now base sid r s) = srv_Members s"
      "merge_entry cfg now s sid (base (MemberID r)) r = base (MemberID r)"
    | (wrote) x where "srv_Members (merge_one cfg now base sid r s) = AddOrUpdate (srv_Members s) x"
      "MemberID x = MemberID r" "merge_entry cfg now s sid (base (MemberID r)) r = Some x"
proof (cases "cfg_Protocol cfg = GossipProtocol \<and> m_Status r = StatusDead")
  case True
  then show ?thesis by (intro skip) (simp_all add: merge_one_def merge_entry_def)
next
  case live: False
  show ?thesis
  proof (cases "base (MemberID r)")
    case None
    with live show ?thesis
      by (cases "m_Status r = StatusDead")
        (auto intro: skip wrote [of "r\<lparr>m_LastUpdated := now\<rparr>"]
          simp: merge_one_def merge_entry_def Let_def)
  next
    case (Some l)
    define s1 where "s1 = (if (m_Status l = StatusAlive \<or> m_Status l = StatusSuspect)
      \<and> isFinal (m_Status r) then handleDeadNode s r else s)"
    have s1: "srv_Members s1 = srv_Members s" "ServerID s1 = ServerID s"
      "srv_Incarnation s1 = srv_Incarnation s"
      by (simp_all add: s1_def)
    have id: "MemberID l = MemberID r" using assms(2) Some .
    note defs = merge_one_def merge_entry_def Let_def Some s1_def [symmetric] s1
    consider (refute) "MemberID r = ServerID s" "m_Status r = StatusSuspect" "m_Status l = StatusAlive"
        "m_Incarnation r \<ge> m_Incarnation l"
      | (dead) "MemberID r = ServerID s" "m_Status r = StatusDead"
      | (rule) "\<not> (MemberID r = ServerID s \<and> m_Status r = StatusSuspect \<and> m_Status l = StatusAlive
          \<and> m_Incarnation r \<ge> m_Incarnation l)" "\<not> (MemberID r = ServerID s \<and> m_Status r = StatusDead)"
      by blast
    then show ?thesis
    proof cases
      case refute
      with live id show ?thesis
        by (intro wrote [of "l\<lparr>m_Incarnation := srv_Incarnation s + 1, m_LastUpdated := now\<rparr>"])
          (simp_all add: defs Some [unfolded refute(1)])
    next
      case dead
      with live show ?thesis by (intro skip) (simp_all add: defs Some [unfolded dead(1)])
    next
      case rule
      show ?thesis
      proof (cases "cfg_Suspicion cfg = Suspect")
        case True
        have "srv_Members (fst (handleSuspicionMerge cfg now s1 l r sid)) = srv_Members s"
          using handleSuspicionMerge_fst [of cfg now s1 l r sid] s1(1) by auto
        with True live rule id show ?thesis
          by (intro wrote [of "snd (handleSuspicionMerge cfg now s l r sid)"])
            (auto simp: defs merge_id case_prod_unfold
              handleSuspicionMerge_snd [of cfg now s1 l r sid s])
      next
        case False
        with assms(1) have "cfg_Suspicion cfg = NoSuspect" by simp
        with live rule id show ?thesis
          by (intro wrote [of "handleNoSuspicionMerge cfg now l r sid"])
            (auto simp: defs merge_id)
      qed
    qed
  qed
qed

text \<open>The four ways a merge step touches the server; any property they keep, it keeps.\<close>

definition touch_closed :: "(Server \<Rightarrow> bool) \<Rightarrow> bool" where
  "touch_closed P \<longleftrightarrow>
     (\<forall>s m. P s \<longrightarrow> P (handleDeadNode s m)) \<and> (\<forall>s m. P s \<longrightarrow> P (handleNewlyJoinedNode s m)) \<and>
     (\<forall>s m. P s \<longrightarrow> P (s\<lparr>srv_Members := AddOrUpdate (srv_Members s) m\<rparr>)) \<and>
     (\<forall>s i. P s \<longrightarrow> P (s\<lparr>srv_Incarnation := i\<rparr>))"

lemma touch_closed_suspicion:
  "touch_closed P \<Longrightarrow> P s \<Longrightarrow> P (fst (handleSuspicionMerge cfg now s l r sid))"
  using handleSuspicionMerge_fst [of cfg now s l r sid] by (auto simp: touch_closed_def)

lemma merge_one_closed:
  assumes c: "touch_closed P" and s: "P s"
  shows "P (merge_one cfg now base sid r s)"
proof -
  have P: "P (handleDeadNode s m)" "P (handleNewlyJoinedNode s m)"
    "P (s\<lparr>srv_Members := AddOrUpdate (srv_Members s) m\<rparr>)" "P (s\<lparr>srv_Incarnation := i\<rparr>)"
    if "P s" for s m i
    using c that by (auto simp: touch_closed_def)
  have P5: "P (s\<lparr>srv_Incarnation := i, srv_Members := AddOrUpdate (srv_Members s) m\<rparr>)"
    if "P s" for s m i
    using P(3) [OF P(4) [OF that]] by simp
  note S = touch_closed_suspicion [OF c]
  show ?thesis
  proof (cases "base (MemberID r)")
    case None
    then show ?thesis using P s by (simp add: merge_one_def Let_def)
  next
    case (Some l)
    define s1 where "s1 = (if (m_Status l = StatusAlive \<or> m_Status l = StatusSuspect)
      \<and> isFinal (m_Status r) then handleDeadNode s r else s)"
    have s1: "P s1" using P s by (simp add: s1_def)
    show ?thesis
      unfolding merge_one_def Some option.case Let_def case_prod_unfold s1_def [symmetric]
      by (cases "cfg_Suspicion cfg") (use s s1 in \<open>auto intro!: P5 P(3) intro: S\<close>)
  qed
qed

lemma touch_closed_inv: "touch_closed srv_inv"
  by (auto simp: touch_closed_def srv_inv_def AddOrUpdate_inv)

lemma touch_closed_frame: "touch_closed (\<lambda>s'. srv_Metadata s' = srv_Metadata s \<and> ServerID s' = ServerID s)"
  by (auto simp: touch_closed_def ServerID_def)

lemma touch_closed_launched: "touch_closed launched_once"
  by (auto simp: touch_closed_def launched_once_handleDeadNode launched_once_handleNewlyJoinedNode)
    (simp_all add: launched_once_def)

lemma merge_one_ServerID [simp]: "ServerID (merge_one cfg now base sid r s) = ServerID s"
  using merge_one_closed [OF touch_closed_frame [of s]] by simp

lemma merge_one_incarnation:
  assumes "MemberID r \<noteq> ServerID s"
  shows "srv_Incarnation (merge_one cfg now base sid r s) = srv_Incarnation s"
proof (cases "base (MemberID r)")
  case None
  then show ?thesis by (simp add: merge_one_def Let_def)
next
  case (Some l)
  define s1 where "s1 = (if (m_Status l = StatusAlive \<or> m_Status l = StatusSuspect)
    \<and> isFinal (m_Status r) then handleDeadNode s r else s)"
  have s1: "srv_Incarnation s1 = srv_Incarnation s" "ServerID s1 = ServerID s" by (simp_all add: s1_def)
  have "srv_Incarnation (fst (handleSuspicionMerge cfg now s1 l r sid)) = srv_Incarnation s1"
    using handleSuspicionMerge_fst [of cfg now s1 l r sid] by auto
  then show ?thesis
    using assms s1 unfolding merge_one_def Some option.case Let_def case_prod_unfold s1_def [symmetric]
    by (cases "cfg_Suspicion cfg") simp_all
qed

text \<open>The rest of the report list does not depend on what was written before.\<close>

lemma merge_entry_cong:
  "ServerID s' = ServerID s \<Longrightarrow> MemberID r \<noteq> ServerID s \<or> srv_Incarnation s' = srv_Incarnation s \<Longrightarrow>
    merge_entry cfg now s' sid e r = merge_entry cfg now s sid e r"
  by (auto simp: merge_entry_def handleSuspicionMerge_snd [of cfg now s' _ r sid s] split: option.splits)

lemma merge_one_Snapshot:
  assumes "srv_inv s" and "cfg_Suspicion cfg = Suspect \<or> cfg_Suspicion cfg = NoSuspect"
    and "\<And>l. base (MemberID r) = Some l \<Longrightarrow> MemberID l = MemberID r"
    and "Snapshot (srv_Members s) (MemberID r) = base (MemberID r)"
  shows "Snapshot (srv_Members (merge_one cfg now base sid r s)) =
    (Snapshot (srv_Members s))(MemberID r := merge_entry cfg now s sid (base (MemberID r)) r)"
proof (rule merge_one_cases [OF assms(2,3), where now = now and sid = sid and s = s])
  assume skip: "srv_Members (merge_one cfg now base sid r s) = srv_Members s"
    "merge_entry cfg now s sid (base (MemberID r)) r = base (MemberID r)"
  show ?thesis unfolding skip using assms(4) by (simp add: fun_upd_idem)
next
  fix x
  assume wrote: "srv_Members (merge_one cfg now base sid r s) = AddOrUpdate (srv_Members s) x"
    "MemberID x = MemberID r" "merge_entry cfg now s sid (base (MemberID r)) r = Some x"
  have "ml_inv (srv_Members s)" using assms(1) by (simp add: srv_inv_def)
  then show ?thesis unfolding wrote(1,3) using wrote(2) by (simp add: AddOrUpdate_Snapshot)
qed

abbreviation report_for :: "Member list \<Rightarrow> string \<rightharpoonup> Member" where
  "report_for rs \<equiv> map_of (map (\<lambda>r. (MemberID r, r)) rs)"

lemma fold_merge_one:
  assumes "srv_inv s" and "cfg_Suspicion cfg = Suspect \<or> cfg_Suspicion cfg = NoSuspect"
    and "\<And>k l. base k = Some l \<Longrightarrow> MemberID l = k"
    and "distinct (map MemberID rs)"
    and "\<And>r. r \<in> set rs \<Longrightarrow> Snapshot (srv_Members s) (MemberID r) = base (MemberID r)"
  shows "srv_inv (fold (merge_one cfg now base sid) rs s) \<and>
    Snapshot (srv_Members (fold (merge_one cfg now base sid) rs s)) k =
    (case report_for rs k of
       None \<Rightarrow> Snapshot (srv_Members s) k
     | Some r \<Rightarrow> merge_entry cfg now s sid (base k) r)"
  using assms(1,4,5)
proof (induction rs arbitrary: s)
  case (Cons r rs)
  let ?s = "merge_one cfg now base sid r s"
  have snap: "Snapshot (srv_Members ?s) =
      (Snapshot (srv_Members s))(MemberID r := merge_entry cfg now s sid (base (MemberID r)) r)"
    using Cons.prems assms(2,3) by (intro merge_one_Snapshot) auto
  have new: "MemberID r' \<noteq> MemberID r" if "r' \<in> set rs" for r'
    using Cons.prems(2) that by (force simp: image_iff)
  have inv: "srv_inv ?s" using Cons.prems(1) by (rule merge_one_closed [OF touch_closed_inv])
  have d: "distinct (map MemberID rs)" using Cons.prems(2) by simp
  have same: "Snapshot (srv_Members ?s) (MemberID r') = base (MemberID r')" if "r' \<in> set rs" for r'
    using that new [OF that] Cons.prems(3) by (simp add: snap)
  note IH = Cons.IH [OF inv d same]
  have cong: "merge_entry cfg now ?s sid (base k) r' = merge_entry cfg now s sid (base k) r'"
    if "report_for rs k = Some r'" for r'
  proof (rule merge_entry_cong)
    have "r' \<in> set rs" using that by (auto dest: map_of_key_Some)
    then show "MemberID r' \<noteq> ServerID s \<or> srv_Incarnation ?s = srv_Incarnation s"
      using new merge_one_incarnation by metis
  qed simp
  show ?case
  proof (cases "k = MemberID r")
    case True
    then have "report_for rs k = None" using new by (auto simp: map_of_key_None notin_image)
    with True IH show ?thesis by (simp add: snap)
  next
    case False
    with IH show ?thesis by (auto simp: snap cong split: option.splits)
  qed
qed simp

text \<open>
  The specification of a merge for one entry, by the ranks alone: a final report is taken over; otherwise the
  better-ranked entry is kept, a report of the sender about itself counting as fresh under ping-ack; the node's
  own entry refutes suspicions and ignores reports of its death.
\<close>

definition outranks :: "Config \<Rightarrow> Member \<Rightarrow> Member \<Rightarrow> bool" where
  "outranks cfg a b \<longleftrightarrow>
     (let hb = (cfg_Protocol cfg = GossipProtocol)
      in if cfg_Suspicion cfg = Suspect then rank_suspicion hb b < rank_suspicion hb a
         else rank_nosuspicion hb b < rank_nosuspicion hb a)"

definition merge_spec ::
    "Config \<Rightarrow> time \<Rightarrow> Server \<Rightarrow> string \<Rightarrow> Member option \<Rightarrow> Member \<Rightarrow> Member option" where
  "merge_spec cfg now s sid entry r =
     (if cfg_Protocol cfg = GossipProtocol \<and> m_Status r = StatusDead then entry
      else case entry of
          None \<Rightarrow> if m_Status r = StatusDead then None else Some (r\<lparr>m_LastUpdated := now\<rparr>)
        | Some l \<Rightarrow>
            Some (if MemberID r = ServerID s \<and> m_Status r = StatusSuspect \<and> m_Status l = StatusAlive
                    \<and> m_Incarnation l \<le> m_Incarnation r
                  then l\<lparr>m_Incarnation := srv_Incarnation s + 1, m_LastUpdated := now\<rparr>
                  else if MemberID r = ServerID s \<and> m_Status r = StatusDead then l
                  else if isFinal (m_Status r) then r
                  else if outranks cfg r l
                    \<or> (cfg_Protocol cfg = PingAckProtocol \<and> MemberID r = sid \<and> \<not> outranks cfg l r)
                  then r\<lparr>m_LastUpdated := now\<rparr> else l))"

definition known_config :: "Config \<Rightarrow> bool" where
  "known_config cfg \<longleftrightarrow> cfg_Protocol cfg \<in> {GossipProtocol, PingAckProtocol} \<and> cfg_Suspicion cfg \<in> {Suspect, NoSuspect}"

lemma suspicion_by_rank:
  assumes "known_config cfg" "cfg_Suspicion cfg = Suspect" "known_status l" "known_status r" "\<not> isFinal (m_Status r)"
  shows "snd (handleSuspicionMerge cfg now s l r sid) =
    (if outranks cfg r l \<or> (cfg_Protocol cfg = PingAckProtocol \<and> MemberID r = sid \<and> \<not> outranks cfg l r)
     then r\<lparr>m_LastUpdated := now\<rparr> else l)"
  using assms
  by (cases "m_Status l"; cases "m_Status r")
    (auto simp: handleSuspicionMerge_def outranks_def Let_def known_config_def rank_defs)

lemma nosuspicion_by_rank:
  assumes "known_config cfg" "cfg_Suspicion cfg = NoSuspect" "known_status l" "known_status r" "\<not> isFinal (m_Status r)"
  shows "handleNoSuspicionMerge cfg now l r sid =
    (if outranks cfg r l \<or> (cfg_Protocol cfg = PingAckProtocol \<and> MemberID r = sid \<and> \<not> outranks cfg l r)
     then r\<lparr>m_LastUpdated := now\<rparr> else l)"
  using assms
  by (cases "m_Status l"; cases "m_Status r")
    (auto simp: handleNoSuspicionMerge_def outranks_def Let_def known_config_def rank_defs)

lemma merge_entry_by_rank:
  assumes "known_config cfg" "\<And>l. entry = Some l \<Longrightarrow> known_status l" "known_status r"
  shows "merge_entry cfg now s sid entry r = merge_spec cfg now s sid entry r"
proof (cases entry)
  case (Some l)
  have final: "snd (handleSuspicionMerge cfg now s l r sid) = r" "handleNoSuspicionMerge cfg now l r sid = r"
    if "isFinal (m_Status r)"
    using that by (simp_all add: handleSuspicionMerge_def handleNoSuspicionMerge_def)
  have mode: "cfg_Suspicion cfg = Suspect \<or> cfg_Suspicion cfg = NoSuspect" using assms(1) by (auto simp: known_config_def)
  have l: "known_status l" using assms(2) Some by blast
  show ?thesis
    using mode final suspicion_by_rank [OF assms(1) _ l assms(3)] nosuspicion_by_rank [OF assms(1) _ l assms(3)]
    by (cases "isFinal (m_Status r)") (auto simp: merge_entry_def merge_spec_def Some)
qed (simp add: merge_entry_def merge_spec_def)

lemma mergeMembership_entries:
  assumes "srv_inv s" and "cfg_Suspicion cfg = Suspect \<or> cfg_Suspicion cfg = NoSuspect"
    and "distinct (map MemberID rs)" and "launched_once s"
  shows "srv_inv (mergeMembership cfg now s rs sid) \<and> launched_once (mergeMembership cfg now s rs sid) \<and>
    (\<forall>k. Snapshot (srv_Members (mergeMembership cfg now s rs sid)) k =
      (case report_for rs k of
         None \<Rightarrow> Snapshot (srv_Members s) k
       | Some r \<Rightarrow> merge_entry cfg now s sid (Snapshot (srv_Members s) k) r))"
proof -
  have ml: "ml_inv (srv_Members s)" using assms(1) by (simp add: srv_inv_def)
  have base: "MemberID l = k" if "Snapshot (srv_Members s) k = Some l" for k l
    using Snapshot_dom [OF that ml] by simp
  have "launched_once (mergeMembership cfg now s rs sid)"
    unfolding mergeMembership_def
    by (rule fold_invariant_list) (auto intro: assms(4) merge_one_closed [OF touch_closed_launched])
  then show ?thesis
    using fold_merge_one [OF assms(1,2) base assms(3) refl] by (simp add: mergeMembership_def)
qed

text \<open>
  C11: merging a received member list whose IDs are distinct (as every sender's is) acts on
  each member separately: the snapshot afterwards holds, for each reported member, exactly the entry
  that the rank-based \<open>merge_spec\<close> prescribes from the local entry and the report, and every other
  entry unchanged; the list stays well formed and no ID is launched for stabilization twice.
\<close>

theorem mergeMembership_refines_spec:
  assumes "srv_inv s" and "known_config cfg" and "\<forall>m \<in> set (srv_Members s) \<union> set rs. known_status m"
    and "distinct (map MemberID rs)" and "launched_once s"
  shows "srv_inv (mergeMembership cfg now s rs sid) \<and> launched_once (mergeMembership cfg now s rs sid) \<and>
    (\<forall>k. Snapshot (srv_Members (mergeMembership cfg now s rs sid)) k =
      (case report_for rs k of
         None \<Rightarrow> Snapshot (srv_Members s) k
       | Some r \<Rightarrow> merge_spec cfg now s sid (Snapshot (srv_Members s) k) r))"
proof -
  have mode: "cfg_Suspicion cfg = Suspect \<or> cfg_Suspicion cfg = NoSuspect" using assms(2) by (auto simp: known_config_def)
  have ml: "ml_inv (srv_Members s)" using assms(1) by (simp add: srv_inv_def)
  have "merge_entry cfg now s sid (Snapshot (srv_Members s) k) r = merge_spec cfg now s sid (Snapshot (srv_Members s) k) r"
    if "report_for rs k = Some r" for k r
  proof (rule merge_entry_by_rank [OF assms(2)])
    show "known_status l" if "Snapshot (srv_Members s) k = Some l" for l
      using Snapshot_dom [OF that ml] assms(3) by blast
    show "known_status r" using that assms(3) by (auto dest: map_of_key_Some)
  qed
  then show ?thesis
    using mergeMembership_entries [OF assms(1) mode assms(4,5), of now sid] by (auto split: option.split)
qed

theorem mergeMembership_refines_spec_witness:
  "Snapshot (srv_Members (mergeMembership initialConfig 62135596805000000000 demoServer
      [zeroMember\<lparr>m_Address := ''b'', m_Created := 62135596800000000000, m_Status := StatusAlive\<rparr>] ''p'')) ''b-0'' =
    Some (zeroMember\<lparr>m_Address := ''b'', m_Created := 62135596800000000000, m_Status := StatusAlive,
      m_LastUpdated := 62135596805000000000\<rparr>)"
proof -
  let ?r = "zeroMember\<lparr>m_Address := ''b'', m_Created := 62135596800000000000, m_Status := StatusAlive\<rparr>"
  have id: "MemberID (zeroMember\<lparr>m_Address := ''b'', m_Created := 62135596800000000000\<rparr>) = ''b-0''"
    by code_simp
  have new: "Snapshot (srv_Members demoServer) ''b-0'' = None" by code_simp
  have cfg: "known_config initialConfig" by (simp add: known_config_def initialConfig_def)
  have "map m_Status (srv_Members demoServer) = [StatusAlive]" by code_simp
  then have "\<forall>m \<in> set (srv_Members demoServer) \<union> set [?r]. known_status m" by (auto simp: known_status_def)
  then have "Snapshot (srv_Members (mergeMembership initialConfig 62135596805000000000 demoServer [?r] ''p'')) ''b-0'' =
      merge_spec initialConfig 62135596805000000000 demoServer ''p'' (Snapshot (srv_Members demoServer) ''b-0'') ?r"
    using mergeMembership_refines_spec [OF demoServer_inv(1) cfg _ _ demoServer_inv(2), of "[?r]"
        62135596805000000000 "''p''"]
    by (simp add: id)
  then show ?thesis by (simp add: merge_spec_def new)
qed

end
