(* ===== verification/Service.thy ===== *)
theory Service imports Submission Stabilization MembershipMerge begin

text \<open>
  The methods of \<open>rpc_server.go\<close> with the messages of \<open>rpc_types.go\<close>. A system consists of the
  servers with their disks, by address, the package variables of each process, the leader with the node
  managers, and the commands that were handed to another goroutine. \<open>senv\<close> collects what the outside
  decides. A handler that dereferences a nil pointer ends its process: it returns no system.
  Whether the node has a node manager, and whether it is the leader, is looked up as the code does.
\<close>

subsection \<open>Messages\<close>

datatype Request =
    JoinRequest Member
  | GossipRequest string "Member list"
  | PingRequest string "Member list"
  | ProtocolSwitchRequest string ProtocolType SuspicionType
  | GetFilesMetadataRequest int int
  | GetFileMetadataRequest string
  | MultiAppendRequest string string
  | UpdateAppendOrderRequest string "AppendInfo list"
  | MergeRequest string
  | ExecuteCommandRequest string
  | InitializeTasksRequest string "Topology option" "string \<rightharpoonup> string" "JobSpec option" string int
  | SubmitJobRequest "JobSpec option"
  | AddTaskRequest "Task option" string "JobSpec option"
  | UpdateTopologyRequest "Topology option"
  | KillTaskRequest string
  | ReportMetricsRequest "report option"
  | MergeWalRequest string string
  | ListTasksRequest

datatype Response =
    JoinResponse bool string "Member list" ProtocolType SuspicionType string
  | GossipResponse bool
  | Ack string "Member list"
  | ProtocolSwitchResponse bool
  | GetFileMetadataResponse bool "string \<rightharpoonup> FileMetadata"
  | StatusResponse bool string
  | ListTasksResponse bool string "TaskProcessInfo list"

record Globals =
  gl_Config :: Config
  gl_MessageDropRate :: rat
  gl_globalServer :: bool
  gl_nodeOrder :: "string list"
  gl_currentPointer :: nat
  gl_lastMemberCount :: nat

definition initialGlobals :: Globals where
  "initialGlobals = \<lparr>gl_Config = initialConfig, gl_MessageDropRate = 0, gl_globalServer = False,
     gl_nodeOrder = [], gl_currentPointer = 0, gl_lastMemberCount = 0\<rparr>"

record System =
  sy_cluster :: cluster
  sy_globals :: "string \<Rightarrow> Globals"
  sy_world :: World
  sy_commands :: "(string \<times> string) list"

record senv =
  se_env :: env
  se_lenv :: lenv
  se_tasks :: "(string \<rightharpoonup> TaskInfo) \<Rightarrow> string list"
  se_members :: "(string \<rightharpoonup> Member) \<Rightarrow> string list"
  se_parseFloat :: "string \<Rightarrow> rat option"

subsection \<open>Membership\<close>

definition svc_Join :: "env \<Rightarrow> time \<Rightarrow> Globals \<Rightarrow> Member \<Rightarrow> HNode \<Rightarrow> Response \<times> HNode" where
  "svc_Join e now g m h =
     (let server = hn_srv h
      in if srv_IsIntroducer server then
           (let hashValue = HashToMbits (e_sha1 e) (gl_Config g) (m_Address m);
                m = m\<lparr>m_Hash := hashValue, m_LastUpdated := now\<rparr>;
                server = server\<lparr>srv_Members := AddOrUpdate (srv_Members server) m\<rparr>
            in (JoinResponse True ''Successfully joined the cluster'' (GetAll (srv_Members server))
                  (cfg_Protocol (gl_Config g)) (cfg_Suspicion (gl_Config g)) (ServerID server),
                h\<lparr>hn_srv := server\<rparr>))
         else (JoinResponse False ''Not an introducer'' [] (OtherProtocol []) (OtherSuspicion []) [], h))"

definition svc_Gossip :: "time \<Rightarrow> Globals \<Rightarrow> string \<Rightarrow> Member list \<Rightarrow> HNode \<Rightarrow> Response \<times> HNode" where
  "svc_Gossip now g senderID members h =
     (if gl_globalServer g
      then (GossipResponse True, h\<lparr>hn_srv := mergeMembership (gl_Config g) now (hn_srv h) members senderID\<rparr>)
      else (GossipResponse False, h))"

definition svc_Ping :: "time \<Rightarrow> Globals \<Rightarrow> string \<Rightarrow> Member list \<Rightarrow> HNode \<Rightarrow> Response \<times> HNode" where
  "svc_Ping now g senderID members h =
     (let h = (if gl_globalServer g
               then h\<lparr>hn_srv := mergeMembership (gl_Config g) now (hn_srv h) members senderID\<rparr> else h)
      in (Ack (ServerID (hn_srv h)) (GetAll (srv_Members (hn_srv h))), h))"

definition svc_ProtocolSwitch :: "ProtocolType \<Rightarrow> SuspicionType \<Rightarrow> Globals \<Rightarrow> Response \<times> Globals" where
  "svc_ProtocolSwitch protocol suspicion g =
     (ProtocolSwitchResponse True, g\<lparr>gl_Config := SwitchProtocol protocol suspicion (gl_Config g)\<rparr>)"

subsection \<open>Files\<close>

definition svc_MultiAppend :: "env \<Rightarrow> time \<Rightarrow> string \<Rightarrow> string \<Rightarrow> string \<Rightarrow> cluster \<Rightarrow> Response \<times> cluster" where
  "svc_MultiAppend e now self hydfsName localName cl =
     (StatusResponse True (''Append operation completed for '' @ hydfsName),
      snd (handleAppend e now self localName hydfsName cl))"

definition svc_Merge :: "env \<Rightarrow> string \<Rightarrow> string \<Rightarrow> cluster \<Rightarrow> Response \<times> cluster" where
  "svc_Merge e self hydfsName cl =
     (StatusResponse True (''Merge operation completed for file '' @ hydfsName), executeMerge e self hydfsName cl)"

subsection \<open>Tasks\<close>

text \<open>A call of the node manager of \<open>self\<close>, and the answer that reports its error.\<close>

definition with_manager ::
    "string \<Rightarrow> string \<Rightarrow> string \<Rightarrow> string \<Rightarrow> (NodeManager \<Rightarrow> NodeManager \<times> go_err option) \<Rightarrow> World \<Rightarrow> (Response \<times> World) go" where
  "with_manager self missing failed done f w =
     (case w_nodes w self of
        None \<Rightarrow> Inr (StatusResponse False missing, w)
      | Some nm \<Rightarrow>
          (case f nm of
             (_, Some (GoPanic p)) \<Rightarrow> Inl (GoPanic p)
           | (nm', Some (GoError msg)) \<Rightarrow>
               Inr (StatusResponse False (failed @ msg), w\<lparr>w_nodes := (w_nodes w)(self \<mapsto> nm')\<rparr>)
           | (nm', None) \<Rightarrow> Inr (StatusResponse True done, w\<lparr>w_nodes := (w_nodes w)(self \<mapsto> nm')\<rparr>)))"

definition svc_InitializeTasks_rpc ::
    "lenv \<Rightarrow> string \<Rightarrow> Topology option \<Rightarrow> JobSpec option \<Rightarrow> int \<Rightarrow> World \<Rightarrow> (Response \<times> World) go" where
  "svc_InitializeTasks_rpc le self topology jobSpec inputRate =
     with_manager self ''Server or NodeManager is nil'' ''Failed to initialize tasks: '' ''Tasks initialized successfully''
       (\<lambda>nm. case topology of
           None \<Rightarrow> (nm, Some (GoPanic ''nil pointer dereference''))
         | Some t \<Rightarrow> InitializeTasks (le_procs le self) (le_wals le) self (le_introducer le self)
             (le_tasks le (tp_Tasks t)) t jobSpec inputRate nm)"

definition svc_AddTask_rpc :: "lenv \<Rightarrow> string \<Rightarrow> Task option \<Rightarrow> JobSpec option \<Rightarrow> World \<Rightarrow> (Response \<times> World) go" where
  "svc_AddTask_rpc le self task jobSpec =
     with_manager self ''Server or NodeManager is nil'' ''Failed to initialize task: ''
       (''Task '' @ (case task of None \<Rightarrow> [] | Some t \<Rightarrow> tk_TaskID t) @ '' added and initialized successfully'')
       (\<lambda>nm. case task of
           None \<Rightarrow> (nm, Some (GoPanic ''nil pointer dereference''))
         | Some t \<Rightarrow> svc_AddTask (le_procs le self (tk_TaskID t)) (le_wals le (tk_TaskID t)) t jobSpec nm)"

definition svc_UpdateTopology_rpc :: "string \<Rightarrow> Topology option \<Rightarrow> World \<Rightarrow> (Response \<times> World) go" where
  "svc_UpdateTopology_rpc self topology =
     (case topology of
        None \<Rightarrow> (\<lambda>w. Inr (StatusResponse False
                   (if w_nodes w self = None then ''Server or NodeManager is nil'' else ''Topology is nil''), w))
      | Some t \<Rightarrow> with_manager self ''Server or NodeManager is nil'' ''Failed to update topology: ''
          ''Topology updated successfully'' (svc_UpdateTopology t))"

definition svc_KillTask_rpc :: "lenv \<Rightarrow> string \<Rightarrow> string \<Rightarrow> World \<Rightarrow> (Response \<times> World) go" where
  "svc_KillTask_rpc le self taskID =
     with_manager self ''Server or NodeManager is nil'' (if taskID = [] then [] else ''Failed to kill task: '')
       (''Task '' @ taskID @ '' process killed successfully'') (svc_KillTask (le_kill le self taskID) taskID)"

definition svc_MergeWal_rpc :: "lenv \<Rightarrow> string \<Rightarrow> string \<Rightarrow> string \<Rightarrow> World \<Rightarrow> Response \<times> World" where
  "svc_MergeWal_rpc le self oldTaskID keepTaskID w =
     (if w_nodes w self = None then (StatusResponse False ''server or NodeManager is nil'', w)
      else if oldTaskID = [] \<or> keepTaskID = [] then (StatusResponse False ''old_task_id or keep_task_id is empty'', w)
      else case call_MergeWal le self oldTaskID keepTaskID w of
          (True, w') \<Rightarrow> (StatusResponse True (''Merged WAL from '' @ oldTaskID @ '' into '' @ keepTaskID), w')
        | (False, w') \<Rightarrow> (StatusResponse False ''MergeWalForTask failed'', w'))"

definition svc_ListTasks :: "senv \<Rightarrow> string \<Rightarrow> System \<Rightarrow> Response" where
  "svc_ListTasks se self sys =
     (case (w_nodes (sy_world sys) self, sy_cluster sys self) of
        (Some nm, Some h) \<Rightarrow>
          let tasks = NM_ListTasks (srv_LocalDirectory (hn_srv h)) (se_tasks se (nm_TaskInfos nm)) nm
          in ListTasksResponse True (''Listed '' @ dec (int (length tasks)) @ '' tasks'') tasks
      | _ \<Rightarrow> ListTasksResponse False ''server or NodeManager not available'' [])"

subsection \<open>The leader\<close>

text \<open>
  Only the introducer has a leader, which reads the membership list of its server. Reports and
  submissions elsewhere are refused.
\<close>

definition is_leader :: "string \<Rightarrow> World \<Rightarrow> bool" where
  "is_leader self w \<longleftrightarrow> self = ld_addr (w_leader w)"

definition sync_members :: "System \<Rightarrow> World" where
  "sync_members sys =
     (case sy_cluster sys (ld_addr (w_leader (sy_world sys))) of
        None \<Rightarrow> sy_world sys
      | Some h \<Rightarrow> upd_leader (\<lambda>l. l\<lparr>ld_members := srv_Members (hn_srv h)\<rparr>) (sy_world sys))"

definition svc_ReportMetrics :: "bool \<Rightarrow> string \<Rightarrow> report option \<Rightarrow> World \<Rightarrow> Response \<times> World" where
  "svc_ReportMetrics isIntroducer self rep w =
     (if \<not> is_leader self w then (StatusResponse False ''Server or Leader is nil'', w)
      else case rep of
          None \<Rightarrow> (StatusResponse False ''Report is nil'', w)
        | Some r \<Rightarrow>
            if \<not> isIntroducer then (StatusResponse False ''This node is not the leader'', w)
            else (StatusResponse True ''Metrics received successfully'', upd_leader (UpdateMetrics r) w))"

definition svc_SubmitJob :: "lenv \<Rightarrow> bool \<Rightarrow> string \<Rightarrow> JobSpec option \<Rightarrow> World \<Rightarrow> (Response \<times> World) go" where
  "svc_SubmitJob le isIntroducer self jobSpec w =
     (if \<not> isIntroducer \<or> \<not> is_leader self w then Inr (StatusResponse False ''This node is not the leader'', w)
      else case jobSpec of
          None \<Rightarrow> Inl (GoPanic ''nil pointer dereference'')
        | Some job \<Rightarrow>
            (case SubmitJob le job w of
               (Some (GoPanic p), _) \<Rightarrow> Inl (GoPanic p)
             | (Some (GoError msg), w') \<Rightarrow> Inr (StatusResponse False (''Failed to submit job: '' @ msg), w')
             | (None, w') \<Rightarrow> Inr (StatusResponse True ''Job submitted successfully'', w')))"

definition svc_ExecuteCommand :: "string \<Rightarrow> string \<Rightarrow> System \<Rightarrow> Response \<times> System" where
  "svc_ExecuteCommand self command sys =
     (StatusResponse True (''Command '' @ [CHR 0x27] @ command @ [CHR 0x27] @ '' sent for execution''),
      sys\<lparr>sy_commands := sy_commands sys @ [(self, command)]\<rparr>)"

subsection \<open>Serving a request\<close>

definition on_store :: "string \<Rightarrow> (HNode \<Rightarrow> Response \<times> HNode) \<Rightarrow> HNode \<Rightarrow> System \<Rightarrow> (Response \<times> System) go" where
  "on_store self f h sys = (case f h of (r, h') \<Rightarrow> Inr (r, sys\<lparr>sy_cluster := (sy_cluster sys)(self \<mapsto> h')\<rparr>))"

definition on_cluster :: "(cluster \<Rightarrow> Response \<times> cluster) \<Rightarrow> System \<Rightarrow> (Response \<times> System) go" where
  "on_cluster f sys = (case f (sy_cluster sys) of (r, cl) \<Rightarrow> Inr (r, sys\<lparr>sy_cluster := cl\<rparr>))"

definition on_world :: "(World \<Rightarrow> (Response \<times> World) go) \<Rightarrow> System \<Rightarrow> (Response \<times> System) go" where
  "on_world f sys =
     (case f (sy_world sys) of Inl p \<Rightarrow> Inl p | Inr (r, w) \<Rightarrow> Inr (r, sys\<lparr>sy_world := w\<rparr>))"

definition serve_at :: "senv \<Rightarrow> string \<Rightarrow> Request \<Rightarrow> HNode \<Rightarrow> System \<Rightarrow> (Response \<times> System) go" where
  "serve_at se self req h sys =
     (let e = se_env se; le = se_lenv se; now = le_now le; g = sy_globals sys self
      in case req of
          JoinRequest m \<Rightarrow> on_store self (svc_Join e now g m) h sys
        | GossipRequest senderID ms \<Rightarrow> on_store self (svc_Gossip now g senderID ms) h sys
        | PingRequest senderID ms \<Rightarrow> on_store self (svc_Ping now g senderID ms) h sys
        | ProtocolSwitchRequest _ p s \<Rightarrow>
            (case svc_ProtocolSwitch p s g of (r, g') \<Rightarrow> Inr (r, sys\<lparr>sy_globals := (sy_globals sys)(self := g')\<rparr>))
        | GetFilesMetadataRequest a b \<Rightarrow> Inr (GetFileMetadataResponse True (svc_GetFilesMetadata e a b h), sys)
        | GetFileMetadataRequest name \<Rightarrow>
            (case svc_GetFileMetadata name h of (ok, files) \<Rightarrow> Inr (GetFileMetadataResponse ok files, sys))
        | MultiAppendRequest hydfsName localName \<Rightarrow> on_cluster (svc_MultiAppend e now self hydfsName localName) sys
        | UpdateAppendOrderRequest name appends \<Rightarrow>
            on_store self (\<lambda>h. case svc_UpdateAppendOrder name appends h of
              (ok, h') \<Rightarrow> (StatusResponse ok (if ok then ''Append order updated for file '' @ name
                              else ''File '' @ name @ '' not found''), h')) h sys
        | MergeRequest name \<Rightarrow> on_cluster (svc_Merge e self name) sys
        | ExecuteCommandRequest command \<Rightarrow> Inr (svc_ExecuteCommand self command sys)
        | InitializeTasksRequest _ topology _ job _ rate \<Rightarrow> on_world (svc_InitializeTasks_rpc le self topology job rate) sys
        | SubmitJobRequest job \<Rightarrow>
            on_world (svc_SubmitJob le (srv_IsIntroducer (hn_srv h)) self job) (sys\<lparr>sy_world := sync_members sys\<rparr>)
        | AddTaskRequest task _ job \<Rightarrow> on_world (svc_AddTask_rpc le self task job) sys
        | UpdateTopologyRequest topology \<Rightarrow> on_world (svc_UpdateTopology_rpc self topology) sys
        | KillTaskRequest taskID \<Rightarrow> on_world (svc_KillTask_rpc le self taskID) sys
        | ReportMetricsRequest rep \<Rightarrow>
            on_world (\<lambda>w. Inr (svc_ReportMetrics (srv_IsIntroducer (hn_srv h)) self rep w)) sys
        | MergeWalRequest old keep \<Rightarrow> on_world (\<lambda>w. Inr (svc_MergeWal_rpc le self old keep w)) sys
        | ListTasksRequest \<Rightarrow> Inr (svc_ListTasks se self sys, sys))"

text \<open>The process at an address that is not running does not answer.\<close>

definition serve :: "senv \<Rightarrow> string \<Rightarrow> Request \<Rightarrow> System \<Rightarrow> (Response \<times> System) go option" where
  "serve se self req sys =
     (case sy_cluster sys self of None \<Rightarrow> None | Some h \<Rightarrow> Some (serve_at se self req h sys))"

definition crash :: "string \<Rightarrow> System \<Rightarrow> System" where
  "crash a sys = sys\<lparr>sy_cluster := (sy_cluster sys)(a := None),
     sy_world := (sy_world sys)\<lparr>w_nodes := (w_nodes (sy_world sys))(a := None)\<rparr>\<rparr>"

text \<open>A call: the response of a process that answers; a process that panics is gone afterwards.\<close>

definition call :: "senv \<Rightarrow> string \<Rightarrow> Request \<Rightarrow> System \<Rightarrow> Response option \<times> System" where
  "call se addr req sys =
     (case serve se addr req sys of
        None \<Rightarrow> (None, sys)
      | Some (Inl _) \<Rightarrow> (None, crash addr sys)
      | Some (Inr (r, sys')) \<Rightarrow> (Some r, sys'))"


subsection \<open>Which requests end a process\<close>

definition no_panic :: "('a \<times> go_err option) \<Rightarrow> bool" where
  "no_panic r \<longleftrightarrow> (case snd r of Some (GoPanic _) \<Rightarrow> False | _ \<Rightarrow> True)"

lemma no_panic_simps [simp]:
  "no_panic (x, None)" "no_panic (x, Some (GoError m))" "\<not> no_panic (x, Some (GoPanic m))"
  by (simp_all add: no_panic_def)

lemma no_panic_InitializeTask: "no_panic (InitializeTask proc wal task job rate nm)"
  by (simp add: InitializeTask_def Let_def split: option.split sum.split)

lemma no_panic_init_loop: "no_panic (init_loop procs wals ts job rate nm)"
  by (induction ts arbitrary: nm) (auto split: prod.split option.split)

lemma no_panic_managers:
  "no_panic (svc_KillTask killed taskID nm)"
  "no_panic (svc_AddTask proc wal task job nm)"
  "no_panic (svc_UpdateTopology topology nm)"
  "no_panic (svc_InitializeTasks le addr topology job nm)"
  "no_panic (InitializeTasks procs wals addr intro ids topology job rate nm)"
  by (simp_all add: svc_KillTask_def KillTaskProcess_def GoErr_def svc_AddTask_def no_panic_InitializeTask
      svc_UpdateTopology_def svc_InitializeTasks_def InitializeTasks_def no_panic_init_loop split: option.split)

lemma with_manager_panics:
  "(\<exists>p. with_manager self missing failed done f w = Inl p) \<longleftrightarrow> (\<exists>nm. w_nodes w self = Some nm \<and> \<not> no_panic (f nm))"
  by (auto simp: with_manager_def no_panic_def split: option.splits prod.splits go_err.splits)

text \<open>A command whose failures, in the states it is used in, are ordinary errors.\<close>

definition safe_on :: "(World \<Rightarrow> bool) \<Rightarrow> cmd \<Rightarrow> (World \<Rightarrow> bool) \<Rightarrow> bool" where
  "safe_on P c Q \<longleftrightarrow> (\<forall>w. P w \<longrightarrow> (case c w of (Some (GoPanic _), _) \<Rightarrow> False | (Some (GoError _), _) \<Rightarrow> True | (None, w') \<Rightarrow> Q w'))"

lemma safe_onI:
  "(\<And>w p w'. P w \<Longrightarrow> c w = (Some (GoPanic p), w') \<Longrightarrow> False) \<Longrightarrow> (\<And>w w'. P w \<Longrightarrow> c w = (None, w') \<Longrightarrow> Q w') \<Longrightarrow> safe_on P c Q"
  by (auto simp: safe_on_def split: prod.split option.split go_err.split)

lemma safe_on_bind: "safe_on P a Q \<Longrightarrow> safe_on Q b R \<Longrightarrow> safe_on P (bind_cmd a b) R"
  by (simp add: safe_on_def bind_cmd_def split: prod.splits option.splits go_err.splits) blast

lemma safe_on_result: "safe_on P c Q \<Longrightarrow> P w \<Longrightarrow> fst (c w) \<noteq> Some (GoPanic p)"
  unfolding safe_on_def by (cases "c w") (force split: option.splits)

lemma with_manager_no_panic: "(\<And>nm. no_panic (f nm)) \<Longrightarrow> with_manager self missing failed done f w \<noteq> Inl p"
  by (metis with_manager_panics)

lemma SubmitJob_no_panic: "fst (SubmitJob le job w) \<noteq> Some (GoPanic p)"
proof -
  have a: "safe_on (\<lambda>w. ld_JobSpec (w_leader w) \<noteq> None) (submit_topology le job)
      (\<lambda>w. ld_JobSpec (w_leader w) \<noteq> None \<and> ld_Topology (w_leader w) \<noteq> None)"
    by (rule safe_onI) (auto simp: submit_topology_def GoErr_def upd_leader_def split: sum.splits)
  have b: "safe_on (\<lambda>w. ld_JobSpec (w_leader w) \<noteq> None \<and> ld_Topology (w_leader w) \<noteq> None) (submit_assign le)
      (\<lambda>w. ld_JobSpec (w_leader w) \<noteq> None)"
    by (rule safe_onI) (auto simp: submit_assign_def GoErr_def upd_leader_def split: sum.splits)
  have keep: "ld_JobSpec (w_leader w') = ld_JobSpec (w_leader w)" if "Leader_InitializeTasks le w = r" "snd r = w'" for w w' r
    using that Leader_InitializeTasks_leader [of le w] by auto
  have c: "safe_on (\<lambda>w. ld_JobSpec (w_leader w) \<noteq> None) (Leader_InitializeTasks le) (\<lambda>w. ld_JobSpec (w_leader w) \<noteq> None)"
  proof (rule safe_onI)
    fix w p w' assume "Leader_InitializeTasks le w = (Some (GoPanic p), w')"
    then show False
      by (auto simp: Leader_InitializeTasks_def call_all_def GoErr_def Let_def split: option.splits if_splits prod.splits)
  next
    fix w w' assume "ld_JobSpec (w_leader w) \<noteq> None" "Leader_InitializeTasks le w = (None, w')"
    with keep show "ld_JobSpec (w_leader w') \<noteq> None" by fastforce
  qed
  have d: "safe_on (\<lambda>w. ld_JobSpec (w_leader w) \<noteq> None) StartStreaming (\<lambda>_. True)"
    by (rule safe_onI) (auto simp: StartStreaming_def Let_def split: if_splits)
  have "safe_on (\<lambda>w. ld_JobSpec (w_leader w) \<noteq> None)
      (bind_cmd (submit_topology le job) (bind_cmd (submit_assign le) (bind_cmd (Leader_InitializeTasks le) StartStreaming))) (\<lambda>_. True)"
    by (rule safe_on_bind [OF a safe_on_bind [OF b safe_on_bind [OF c d]]])
  then show ?thesis by (simp add: SubmitJob_def safe_on_result upd_leader_def)
qed

lemma svc_SubmitJob_panics:
  "(\<exists>p. svc_SubmitJob le intro self job w = Inl p) \<longleftrightarrow> intro \<and> is_leader self w \<and> job = None"
proof (cases job)
  case (Some j)
  obtain r w' where s: "SubmitJob le j w = (r, w')" by fastforce
  have "r \<noteq> Some (GoPanic p)" for p using SubmitJob_no_panic [of le j w p] s by simp
  with s Some show ?thesis by (auto simp: svc_SubmitJob_def split: option.split go_err.split)
qed (simp add: svc_SubmitJob_def)

lemma on_world_panics: "(\<exists>p. on_world f sys = Inl p) \<longleftrightarrow> (\<exists>p. f (sy_world sys) = Inl p)"
  by (auto simp: on_world_def split: sum.splits)

lemma on_store_no_panic [simp]: "on_store self f h sys \<noteq> Inl p" "on_cluster g sys \<noteq> Inl p"
  by (simp_all add: on_store_def on_cluster_def split: prod.split)

lemma sync_members_leader [simp]: "is_leader self (sync_members sys) = is_leader self (sy_world sys)"
  by (simp add: is_leader_def sync_members_def upd_leader_def split: option.split)

lemma svc_rpc_panics:
  "(\<exists>p. svc_InitializeTasks_rpc le self topo job rate w = Inl p) \<longleftrightarrow> topo = None \<and> w_nodes w self \<noteq> None"
  "(\<exists>p. svc_AddTask_rpc le self task job w = Inl p) \<longleftrightarrow> task = None \<and> w_nodes w self \<noteq> None"
  "svc_UpdateTopology_rpc self topo w \<noteq> Inl p"
  "svc_KillTask_rpc le self i w \<noteq> Inl p"
proof -
  show "(\<exists>p. svc_InitializeTasks_rpc le self topo job rate w = Inl p) \<longleftrightarrow> topo = None \<and> w_nodes w self \<noteq> None"
    by (cases topo) (auto simp: svc_InitializeTasks_rpc_def with_manager_panics no_panic_managers)
  show "(\<exists>p. svc_AddTask_rpc le self task job w = Inl p) \<longleftrightarrow> task = None \<and> w_nodes w self \<noteq> None"
    by (cases task) (auto simp: svc_AddTask_rpc_def with_manager_panics no_panic_managers)
  show "svc_UpdateTopology_rpc self topo w \<noteq> Inl p"
    by (cases topo) (simp_all add: svc_UpdateTopology_rpc_def with_manager_no_panic no_panic_managers)
  show "svc_KillTask_rpc le self i w \<noteq> Inl p"
    by (simp add: svc_KillTask_rpc_def with_manager_no_panic no_panic_managers)
qed

definition nil_request :: "bool \<Rightarrow> string \<Rightarrow> World \<Rightarrow> Request \<Rightarrow> bool" where
  "nil_request isIntroducer self w req \<longleftrightarrow>
     (case req of
        InitializeTasksRequest _ None _ _ _ _ \<Rightarrow> w_nodes w self \<noteq> None
      | AddTaskRequest None _ _ \<Rightarrow> w_nodes w self \<noteq> None
      | SubmitJobRequest None \<Rightarrow> isIntroducer \<and> is_leader self w
      | _ \<Rightarrow> False)"


subsection \<open>The leader's calls\<close>

text \<open>The outcome of a call as the leader's model sees it: success, and the node managers afterwards.\<close>

definition succeeded :: "Response option \<Rightarrow> bool" where
  "succeeded r \<longleftrightarrow> (case r of Some (StatusResponse ok _) \<Rightarrow> ok | _ \<Rightarrow> False)"

lemma call_with_manager:
  assumes "sy_cluster sys addr = Some h" and "\<And>nm. no_panic (f nm)"
    and "serve_at se addr req h sys = on_world (with_manager addr missing failed done f) sys"
    and "call_nm addr f (sy_world sys) = (ok, w)"
  shows "succeeded (fst (call se addr req sys)) = ok \<and> snd (call se addr req sys) = sys\<lparr>sy_world := w\<rparr>"
proof (cases "w_nodes (sy_world sys) addr")
  case None
  with assms show ?thesis by (simp add: call_def serve_def on_world_def with_manager_def succeeded_def call_nm_def)
next
  case (Some nm)
  obtain nm' err where f: "f nm = (nm', err)" by fastforce
  then have "err \<noteq> Some (GoPanic p)" for p using assms(2) [of nm] by auto
  with f Some assms show ?thesis
    by (auto simp: call_def serve_def on_world_def with_manager_def succeeded_def call_nm_def split: option.splits go_err.splits)
qed

text \<open>An answered call against the leader's model of it.\<close>

definition runs_as :: "System \<Rightarrow> Response option \<times> System \<Rightarrow> bool \<times> World \<Rightarrow> bool" where
  "runs_as sys rpc model \<longleftrightarrow> succeeded (fst rpc) = fst model \<and> snd rpc = sys\<lparr>sy_world := snd model\<rparr>"

lemma call_runs_as:
  assumes "sy_cluster sys addr = Some h" and "\<And>nm. no_panic (f nm)"
    and "serve_at se addr req h sys = on_world (with_manager addr missing failed done f) sys"
  shows "runs_as sys (call se addr req sys) (call_nm addr f (sy_world sys))"
  using call_with_manager [OF assms] by (cases "call_nm addr f (sy_world sys)") (simp add: runs_as_def)

lemma svc_InitializeTasks_fun:
  "svc_InitializeTasks le addr topo job = InitializeTasks (le_procs le addr) (le_wals le) addr (le_introducer le addr)
     (le_tasks le (tp_Tasks topo)) topo job (case job of None \<Rightarrow> 0 | Some j \<Rightarrow> js_InputRate j)"
  by (rule ext) (simp add: svc_InitializeTasks_def)

text \<open>
  A remote procedure call that is answered does on the node exactly what the leader's model
  of the call does to the node manager there, and reports success in the same cases.
\<close>

theorem leader_calls_run_the_handlers:
  assumes "sy_cluster sys addr \<noteq> None"
  shows "runs_as sys (call se addr (KillTaskRequest taskID) sys)
      (call_nm addr (svc_KillTask (le_kill (se_lenv se) addr taskID) taskID) (sy_world sys)) \<and>
    runs_as sys (call se addr (AddTaskRequest (Some task) addr job) sys)
      (call_nm addr (svc_AddTask (le_procs (se_lenv se) addr (tk_TaskID task))
         (le_wals (se_lenv se) (tk_TaskID task)) task job) (sy_world sys)) \<and>
    runs_as sys (call se addr (UpdateTopologyRequest (Some topo)) sys)
      (call_nm addr (svc_UpdateTopology topo) (sy_world sys)) \<and>
    runs_as sys (call se addr (InitializeTasksRequest jobID (Some topo) asg job src (case job of None \<Rightarrow> 0 | Some j \<Rightarrow> js_InputRate j)) sys)
      (call_nm addr (svc_InitializeTasks (se_lenv se) addr topo job) (sy_world sys))"
proof -
  obtain h where h: "sy_cluster sys addr = Some h" using assms by blast
  note run = call_runs_as [OF h, of _ se] no_panic_managers
  have "runs_as sys (call se addr (KillTaskRequest taskID) sys)
      (call_nm addr (svc_KillTask (le_kill (se_lenv se) addr taskID) taskID) (sy_world sys))"
    by (rule run(1)) (simp_all add: run serve_at_def svc_KillTask_rpc_def Let_def)
  moreover have "runs_as sys (call se addr (AddTaskRequest (Some task) addr job) sys)
      (call_nm addr (svc_AddTask (le_procs (se_lenv se) addr (tk_TaskID task))
         (le_wals (se_lenv se) (tk_TaskID task)) task job) (sy_world sys))"
    by (rule run(1)) (simp_all add: run serve_at_def svc_AddTask_rpc_def Let_def)
  moreover have "runs_as sys (call se addr (UpdateTopologyRequest (Some topo)) sys)
      (call_nm addr (svc_UpdateTopology topo) (sy_world sys))"
    by (rule run(1)) (simp_all add: run serve_at_def svc_UpdateTopology_rpc_def Let_def)
  moreover have "runs_as sys (call se addr (InitializeTasksRequest jobID (Some topo) asg job src (case job of None \<Rightarrow> 0 | Some j \<Rightarrow> js_InputRate j)) sys)
      (call_nm addr (svc_InitializeTasks (se_lenv se) addr topo job) (sy_world sys))"
    by (rule run(1)) (simp_all add: run serve_at_def svc_InitializeTasks_rpc_def svc_InitializeTasks_fun Let_def)
  ultimately show ?thesis by blast
qed


text \<open>A process on node \<open>n\<close> with the task \<open>a\<close>, for the concrete instances.\<close>

definition rpcSystem :: System where
  "rpcSystem = \<lparr>sy_cluster = [''n'' \<mapsto> demoNode\<lparr>hn_srv := demoServer\<lparr>srv_Addr := ''n''\<rparr>\<rparr>],
     sy_globals = (\<lambda>_. initialGlobals\<lparr>gl_globalServer := True\<rparr>),
     sy_world = scaleWorld, sy_commands = []\<rparr>"

definition rpcEnv :: senv where
  "rpcEnv = \<lparr>se_env = ringEnv, se_lenv = scaleEnv, se_tasks = (\<lambda>m. sorted_list_of_set (dom m)),
     se_members = (\<lambda>m. sorted_list_of_set (dom m)), se_parseFloat = (\<lambda>_. None)\<rparr>"

lemma scaleNode_a: "\<exists>ti. nm_TaskInfos (scaleNode ''a'' ''n'') = [''a'' \<mapsto> ti] \<and> ti_PID ti = 7 \<and> ti_TaskID ti = ''a''"
proof -
  have "\<exists>ti. nm_TaskInfos (scaleNode ''a'' ''n'') ''a'' = Some ti \<and> ti_PID ti = 7 \<and> ti_TaskID ti = ''a''"
    and "\<forall>k. k \<noteq> ''a'' \<longrightarrow> nm_TaskInfos (scaleNode ''a'' ''n'') k = None"
    by (simp_all add: scaleNode_def node_eval scaleTask_def NewTask_def scaleJob_def)
  then show ?thesis by (auto simp: fun_eq_iff)
qed

theorem leader_calls_run_the_handlers_witness:
  "succeeded (fst (call rpcEnv ''n'' (KillTaskRequest ''a'') rpcSystem))"
proof -
  obtain ti where "nm_TaskInfos (scaleNode ''a'' ''n'') = [''a'' \<mapsto> ti]" using scaleNode_a by blast
  then have "fst (call_nm ''n'' (svc_KillTask (le_kill scaleEnv ''n'' ''a'') ''a'') scaleWorld)"
    by (simp add: call_nm_def scaleWorld_def svc_KillTask_def KillTaskProcess_def scaleEnv_def)
  moreover have "sy_cluster rpcSystem ''n'' \<noteq> None" by (simp add: rpcSystem_def)
  ultimately show ?thesis
    using leader_calls_run_the_handlers [of rpcSystem "''n''" rpcEnv "''a''"] by (simp add: runs_as_def rpcSystem_def rpcEnv_def)
qed

end
