(* ===== verification/Cli.thy ===== *)
theory Cli imports Submission Stabilization begin

text \<open>
  \<open>cli.go\<close>: splitting a command line and parsing the arguments of the commands. What the commands do
  to the system is the theory \<open>Commands\<close>. Complaints to the user are error values.
\<close>

subsection \<open>Splitting a command line\<close>

definition split_step :: "char \<Rightarrow> string list \<times> string \<times> bool \<Rightarrow> string list \<times> string \<times> bool" where
  "split_step r st =
     (case st of (args, current, inQuotes) \<Rightarrow>
        if r = CHR 0x22 then (args, current, \<not> inQuotes)
        else if r = CHR '' '' \<or> r = CHR 0x09 then
          (if inQuotes then (args, current @ [r], inQuotes)
           else if current \<noteq> [] then (args @ [current], [], inQuotes)
           else (args, current, inQuotes))
        else (args, current @ [r], inQuotes))"

definition splitCommandLine :: "string \<Rightarrow> string list" where
  "splitCommandLine cmd =
     (case fold split_step cmd ([], [], False) of
        (args, current, _) \<Rightarrow> if current \<noteq> [] then args @ [current] else args)"

text \<open>The command line whose arguments are given, each in quotes.\<close>

fun quoted_line :: "string list \<Rightarrow> string" where
  "quoted_line [] = []"
| "quoted_line (a # as) = [CHR 0x22] @ a @ [CHR 0x22, CHR '' ''] @ quoted_line as"

lemma split_step_simps:
  "split_step (CHR 0x22) (args, cur, b) = (args, cur, \<not> b)"
  "cur \<noteq> [] \<Longrightarrow> split_step (CHR '' '') (args, cur, False) = (args @ [cur], [], False)"
  by (simp_all add: split_step_def)

lemma split_inside: "CHR 0x22 \<notin> set a \<Longrightarrow> fold split_step a (args, cur, True) = (args, cur @ a, True)"
  by (induction a arbitrary: cur) (auto simp: split_step_def)

lemma split_quoted:
  "\<forall>a \<in> set as. a \<noteq> [] \<and> CHR 0x22 \<notin> set a \<Longrightarrow>
    fold split_step (quoted_line as) (args, [], False) = (args @ as, [], False)"
proof (induction as arbitrary: args)
  case (Cons a as)
  then have "fold split_step a (args, [], True) = (args, a, True)" using split_inside [of a args "[]"] by simp
  with Cons show ?case by (simp add: split_step_simps)
qed simp

text \<open>
  Arguments survive the command line: any non-empty arguments without double quotes,
  spaces and tabs included, are read back unchanged when each is written in double quotes.
\<close>

theorem quoted_arguments_read_back:
  assumes "\<forall>a \<in> set as. a \<noteq> [] \<and> CHR 0x22 \<notin> set a"
  shows "splitCommandLine (quoted_line as) = as"
  using split_quoted [OF assms, of "[]"] by (simp add: splitCommandLine_def)

theorem quoted_arguments_read_back_witness:
  "splitCommandLine (quoted_line [''RainStorm'', ''./filter::JANEY DR'']) = [''RainStorm'', ''./filter::JANEY DR'']"
  by (rule quoted_arguments_read_back) simp

subsection \<open>multiappend\<close>

definition is_vm :: "string \<Rightarrow> bool" where
  "is_vm a \<longleftrightarrow> HasPrefix (ToLower a) ''vm''"

definition parseMultiAppend :: "string list \<Rightarrow> string \<times> string list \<times> string list" where
  "parseMultiAppend args =
     (let bad = ([], [], [])
      in if length args < 3 then bad
         else
           let hyDFSfilename = hd args
           in if is_vm hyDFSfilename then bad
              else
                let vmNames = takeWhile is_vm (tl args); localFiles = dropWhile is_vm (tl args)
                in if localFiles = [] then bad
                   else if length vmNames \<noteq> length localFiles then bad
                   else if vmNames = [] then bad
                   else (hyDFSfilename, vmNames, localFiles))"

lemma parseMultiAppend_pairs:
  assumes "parseMultiAppend args = (f, vms, files)" "vms \<noteq> []"
  shows "args = f # vms @ files \<and> length vms = length files \<and> list_all is_vm vms \<and> \<not> is_vm f \<and> \<not> is_vm (hd files)"
proof -
  have "args = hd args # tl args" using assms by (cases args) (auto simp: parseMultiAppend_def)
  moreover have "tl args = takeWhile is_vm (tl args) @ dropWhile is_vm (tl args)" by simp
  moreover have "list_all is_vm (takeWhile is_vm (tl args))" by (auto simp: list_all_iff dest: set_takeWhileD)
  ultimately show ?thesis
    using assms hd_dropWhile [of is_vm "tl args"] by (auto simp: parseMultiAppend_def Let_def split: if_splits)
qed

subsection \<open>RainStorm\<close>

definition ParseBool :: "string \<Rightarrow> bool option" where
  "ParseBool s =
     (if s \<in> {''1'', ''t'', ''T'', ''true'', ''TRUE'', ''True''} then Some True
      else if s \<in> {''0'', ''f'', ''F'', ''false'', ''FALSE'', ''False''} then Some False
      else None)"

definition stage_op :: "string \<Rightarrow> StageOp" where
  "stage_op exeWithArgs = (let parts = Split exeWithArgs ''::'' in \<lparr>so_Exe = hd parts, so_Args = tl parts\<rparr>)"

text \<open>The pass that moves the first argument of an aggregate after a filter to that filter.\<close>

definition move_arg :: "nat \<Rightarrow> StageOp list \<Rightarrow> StageOp list" where
  "move_arg i ops =
     (let curr = ops ! i; nxt = ops ! (i + 1)
      in if Contains (so_Exe curr) ''filter'' \<and> Contains (so_Exe nxt) ''aggregate'' \<and> so_Args nxt \<noteq> [] then
           (let ops = (if length (so_Args curr) < 2
                       then ops[i := curr\<lparr>so_Args := so_Args curr @ [hd (so_Args nxt)]\<rparr>] else ops)
            in ops[i + 1 := nxt\<lparr>so_Args := tl (so_Args nxt)\<rparr>])
         else ops)"

definition buildStageOps :: "string list \<Rightarrow> int \<Rightarrow> StageOp list go" where
  "buildStageOps operationExes nStages =
     (if nStages < 0 then Inl (GoPanic ''makeslice: len out of range'')
      else if length operationExes < nat nStages then Inl (GoPanic ''index out of range'')
      else Inr (fold move_arg [0..<nat nStages - 1] (map stage_op (take (nat nStages) operationExes))))"

text \<open>The arguments of the command up to the job specification; a complaint to the user is an error.\<close>

definition parse_int :: "string \<Rightarrow> string \<Rightarrow> int go" where
  "parse_int what s = (case Atoi s of (n, ok) \<Rightarrow> if ok then Inr n else Inl (GoError (''Invalid '' @ what @ '': '' @ s)))"

definition parse_flag :: "string \<Rightarrow> string \<Rightarrow> bool go" where
  "parse_flag what s =
     (case ParseBool s of Some b \<Rightarrow> Inr b | None \<Rightarrow> Inl (GoError (''Invalid '' @ what @ '': '' @ s)))"

definition bind_go :: "'a go \<Rightarrow> ('a \<Rightarrow> 'b go) \<Rightarrow> 'b go" where
  "bind_go r f = (case r of Inl e \<Rightarrow> Inl e | Inr x \<Rightarrow> f x)"

lemma bind_go_Inr [simp]: "bind_go r f = Inr y \<longleftrightarrow> (\<exists>x. r = Inr x \<and> f x = Inr y)"
  by (auto simp: bind_go_def split: sum.split)

definition source_address :: "string \<Rightarrow> string go" where
  "source_address introducerAddr =
     (case SplitHostPort introducerAddr of
        None \<Rightarrow> Inl (GoError ''Failed to parse UDP address'')
      | Some (host, portStr) \<Rightarrow> bind_go (parse_int ''port'' portStr) (\<lambda>port. Inr (host @ '':'' @ dec (port + 2000))))"

definition parseRainStorm :: "string \<Rightarrow> string list \<Rightarrow> JobSpec go" where
  "parseRainStorm introducerAddr args =
     (if length args < 9 then Inl (GoError ''Invalid RainStorm command format'')
      else
        let last7 = drop (length args - 7) args
        in bind_go (parse_int ''NStages'' (args ! 0)) (\<lambda>nStages.
           bind_go (parse_int ''NTasksPerStage'' (args ! 1)) (\<lambda>nTasksPerStage.
           bind_go (parse_flag ''exactly_once'' (last7 ! 2)) (\<lambda>exactlyOnce.
           bind_go (parse_flag ''autoscale_enabled'' (last7 ! 3)) (\<lambda>autoscaleEnabled.
           bind_go (parse_int ''INPUT_RATE'' (last7 ! 4)) (\<lambda>inputRate.
           bind_go (parse_int ''LW'' (last7 ! 5)) (\<lambda>lw.
           bind_go (parse_int ''HW'' (last7 ! 6)) (\<lambda>hw.
             let operationExes = take (length args - 7 - 2) (drop 2 args)
             in if int (length operationExes) < nStages then Inl (GoError ''not enough operation executables'')
                else
                  bind_go (buildStageOps operationExes nStages) (\<lambda>stageOps.
                  bind_go (source_address introducerAddr) (\<lambda>sourceAddress.
                    Inr \<lparr>js_NStages = nStages, js_TasksPerStage = nTasksPerStage, js_StageOps = stageOps,
                         js_SourceDir = last7 ! 0, js_DestFile = last7 ! 1, js_SourceAddress = sourceAddress,
                         js_ExactlyOnce = exactlyOnce, js_Autoscale = autoscaleEnabled, js_InputRate = inputRate,
                         js_LW = lw, js_HW = hw\<rparr>))))))))))"

lemma length_move_args [simp]: "length (fold move_arg is ops) = length ops"
  by (induction "is" arbitrary: ops) (simp_all add: move_arg_def Let_def)

lemma buildStageOps_length: "buildStageOps exes n = Inr ops \<Longrightarrow> 0 \<le> n \<and> int (length ops) = n"
  by (auto simp: buildStageOps_def split: if_splits)

lemma Atoi_range: "Atoi s = (n, True) \<Longrightarrow> int_min \<le> n \<and> n \<le> int_max"
  by (auto simp: Atoi_def Let_def split: list.splits if_splits)

lemma parse_int_range: "parse_int what s = Inr n \<Longrightarrow> int_min \<le> n \<and> n \<le> int_max"
  using Atoi_range by (auto simp: parse_int_def split: prod.splits if_splits)

text \<open>What a job specification that came from the command line satisfies.\<close>

definition job_ok :: "JobSpec \<Rightarrow> bool" where
  "job_ok job \<longleftrightarrow> 0 \<le> js_NStages job \<and> int (length (js_StageOps job)) = js_NStages job \<and> js_SourceAddress job \<noteq> [] \<and>
     (\<forall>n \<in> {js_NStages job, js_TasksPerStage job, js_InputRate job, js_LW job, js_HW job}. int_min \<le> n \<and> n \<le> int_max)"

lemma parseRainStorm_ok: "parseRainStorm intro args = Inr job \<Longrightarrow> job_ok job"
  by (auto simp: parseRainStorm_def Let_def job_ok_def source_address_def bind_go_def split: if_splits sum.splits option.splits
      dest!: parse_int_range buildStageOps_length)

text \<open>
  C39: an accepted job is well formed: it has one operation per stage and numbers in the
  range of an \<open>int\<close>, so every task of its topology finds its operation, and a task has no downstream task
  exactly when the node manager treats its stage as the final one.
\<close>

theorem accepted_job_is_well_formed:
  assumes "parseRainStorm intro args = Inr job"
    and "CreateTopology members self now job = Inr topo" "tp_Tasks topo i = Some t"
  shows "job_ok job \<and> stageOpOf (Some job) (tk_Stage t) \<noteq> None \<and>
    (dom (tk_OutputTargets t) = {} \<longleftrightarrow> tk_Stage t = js_NStages job)"
proof -
  have ok: "job_ok job" using assms(1) by (rule parseRainStorm_ok)
  obtain s k where s: "1 \<le> s" "s \<le> js_NStages job" "0 \<le> k" "k < js_TasksPerStage job" "t = stage_task job (Unix now) s k"
    using assms(3) CreateTopology_tasks [OF assms(2)] by blast
  have st: "tk_Stage t = s" by (simp add: s(5))
  have "stageOpOf (Some job) s \<noteq> None" using ok s(1,2) by (simp add: job_ok_def stageOpOf_def)
  moreover have "dom (tk_OutputTargets t) = stage_names job (Unix now) (s + 1)"
    using stage_task_links(1) [OF s(1,2)] s(5) by simp
  moreover have "stage_names job (Unix now) (s + 1) = {} \<longleftrightarrow> s = js_NStages job"
    using s(1-4) by (auto simp: stage_names_def)
  ultimately show ?thesis using ok st by simp
qed

theorem accepted_job_is_well_formed_witness:
  "\<exists>job topo t. parseRainStorm ''h:80'' [''1'', ''1'', ''f::x'', ''d'', ''o'', ''true'', ''0'', ''5'', ''1'', ''9''] = Inr job \<and>
     CreateTopology (ld_members (w_leader submitWorld)) (ld_addr (w_leader submitWorld)) (le_now submitEnv) job = Inr topo \<and>
     tp_Tasks topo (task_name 1 0 0) = Some t \<and> job_ok job \<and> dom (tk_OutputTargets t) = {}"
proof -
  let ?args = "[''1'', ''1'', ''f::x'', ''d'', ''o'', ''true'', ''0'', ''5'', ''1'', ''9'']"
  let ?job = "\<lparr>js_NStages = 1, js_TasksPerStage = 1, js_StageOps = [\<lparr>so_Exe = ''f'', so_Args = [''x'']\<rparr>],
     js_SourceDir = ''d'', js_DestFile = ''o'', js_SourceAddress = ''h:2080'', js_ExactlyOnce = True, js_Autoscale = False,
     js_InputRate = 5, js_LW = 1, js_HW = 9\<rparr>"
  have parse: "parseRainStorm ''h:80'' ?args = Inr ?job" by code_simp
  have "\<exists>topo t. CreateTopology (ld_members (w_leader submitWorld)) (ld_addr (w_leader submitWorld)) (le_now submitEnv) ?job =
      Inr topo \<and> tp_Tasks topo (task_name 1 0 0) = Some t \<and> tk_Stage t = 1"
    by (simp add: CreateTopology_def submitWorld_def NewLeader_def GetAliveMembers_def IsAlive_def submitEnv_def Unix_def
        NewTopology_def Topology_AddTask_def stage_task_def NewTask_def AddInputTask_def)
  then obtain topo t where topo: "CreateTopology (ld_members (w_leader submitWorld)) (ld_addr (w_leader submitWorld))
      (le_now submitEnv) ?job = Inr topo" "tp_Tasks topo (task_name 1 0 0) = Some t" "tk_Stage t = 1" by blast
  from accepted_job_is_well_formed [OF parse topo(1,2)] parse topo show ?thesis by auto
qed

text \<open>A negative number of stages passes every check of the command and takes the process down.\<close>

lemma negative_stages_panic:
  "parseRainStorm intro [''-1'', ''1'', ''d'', ''o'', ''true'', ''true'', ''1'', ''1'', ''1''] =
    Inl (GoPanic ''makeslice: len out of range'')"
  by code_simp

end
