(* ===== verification/Commands.thy ===== *)
theory Commands imports Service Cli begin

text \<open>
  \<open>cli.go\<close>: what the commands do to the system, and the dispatch of a command line. Commands that
  only print leave the system as it is; what the listing commands print is returned by \<open>handleListTasks\<close>, and
  by \<open>handleLS\<close> and \<open>handleListStore\<close> of the file operations. A command that panics ends its process.
\<close>

definition set_globals :: "string \<Rightarrow> (Globals \<Rightarrow> Globals) \<Rightarrow> System \<Rightarrow> System" where
  "set_globals a f sys = sys\<lparr>sy_globals := (sy_globals sys)(a := f (sy_globals sys a))\<rparr>"

definition set_cluster :: "cluster \<Rightarrow> System \<Rightarrow> System" where
  "set_cluster cl sys = sys\<lparr>sy_cluster := cl\<rparr>"

subsection \<open>The membership commands\<close>

definition leaveCommand :: "senv \<Rightarrow> string \<Rightarrow> System \<Rightarrow> System" where
  "leaveCommand se self sys =
     set_cluster (on_node self (\<lambda>h. h\<lparr>hn_srv := leaveGroup (le_now (se_lenv se)) (hn_srv h)\<rparr>) (sy_cluster sys)) sys"

definition switch_member :: "senv \<Rightarrow> HNode \<Rightarrow> ProtocolType \<Rightarrow> SuspicionType \<Rightarrow> Member \<Rightarrow> System \<Rightarrow> System" where
  "switch_member se h protocol suspicion m sys =
     (if m_Address m \<noteq> srv_Addr (hn_srv h)
      then snd (call se (m_Address m) (ProtocolSwitchRequest (ServerID (hn_srv h)) protocol suspicion) sys) else sys)"

definition handleSwitch :: "senv \<Rightarrow> string \<Rightarrow> string \<Rightarrow> string \<Rightarrow> HNode \<Rightarrow> System \<Rightarrow> System" where
  "handleSwitch se self protocolStr suspicionStr h sys =
     (case ProtocolMap (ToLower protocolStr) of
        None \<Rightarrow> sys
      | Some protocol \<Rightarrow>
          (case SuspicionMap (ToLower suspicionStr) of
             None \<Rightarrow> sys
           | Some suspicion \<Rightarrow>
               let snapshot = Snapshot (srv_Members (hn_srv h))
               in fold (\<lambda>(_, m). switch_member se h protocol suspicion m)
                    (entries (se_members se snapshot) snapshot)
                    (set_globals self (\<lambda>g. g\<lparr>gl_Config := SwitchProtocol protocol suspicion (gl_Config g)\<rparr>) sys)))"

subsection \<open>The task commands\<close>

definition tasks_of :: "senv \<Rightarrow> string \<Rightarrow> System \<Rightarrow> TaskProcessInfo list option" where
  "tasks_of se addr sys =
     (case fst (call se addr ListTasksRequest sys) of Some (ListTasksResponse True _ tasks) \<Rightarrow> Some tasks | _ \<Rightarrow> None)"

definition handleListTasks :: "senv \<Rightarrow> string \<Rightarrow> System \<Rightarrow> (string \<times> TaskProcessInfo list option) list option" where
  "handleListTasks se self sys =
     (if \<not> is_leader self (sy_world sys) then None
      else Some (map (\<lambda>a. (a, tasks_of se a sys)) (node_set (se_lenv se) (ld_Assignments (w_leader (sy_world sys))))))"

definition handleKillTask :: "senv \<Rightarrow> string \<Rightarrow> string \<Rightarrow> HNode \<Rightarrow> System \<Rightarrow> bool \<times> System" where
  "handleKillTask se vmName pidStr h sys =
     (case Atoi pidStr of (pid, ok) \<Rightarrow>
        if \<not> ok \<or> pid \<le> 0 then (False, sys)
        else
          case find (\<lambda>m. AddressToVMName (m_Address m) = vmName) (GetAll (srv_Members (hn_srv h))) of
            None \<Rightarrow> (False, sys)
          | Some m \<Rightarrow>
              if m_Address m = [] then (False, sys)
              else
                (case tasks_of se (m_Address m) sys of
                   None \<Rightarrow> (False, sys)
                 | Some tasks \<Rightarrow>
                     (case find (\<lambda>t. pi_PID t = pid \<and> (pi_VM t = [] \<or> pi_VM t = vmName)) tasks of
                        None \<Rightarrow> (False, sys)
                      | Some t \<Rightarrow>
                          if pi_TaskID t = [] then (False, sys)
                          else
                            case call se (m_Address m) (KillTaskRequest (pi_TaskID t)) sys of
                              (r, sys') \<Rightarrow> (succeeded r, sys'))))"

subsection \<open>Submitting a job\<close>

definition sendSubmitJobToLeader :: "senv \<Rightarrow> string \<Rightarrow> JobSpec \<Rightarrow> System \<Rightarrow> go_err option \<times> System" where
  "sendSubmitJobToLeader se introducerAddr jobSpec sys =
     (case call se introducerAddr (SubmitJobRequest (Some jobSpec)) sys of
        (Some (StatusResponse True _), sys') \<Rightarrow> (None, sys')
      | (Some (StatusResponse False msg), sys') \<Rightarrow> (GoErr (''leader returned error: '' @ msg), sys')
      | (_, sys') \<Rightarrow> (GoErr ''RPC call failed'', sys'))"

definition handleRainStorm :: "senv \<Rightarrow> string \<Rightarrow> string list \<Rightarrow> HNode \<Rightarrow> System \<Rightarrow> go_err option \<times> System" where
  "handleRainStorm se self args h sys =
     (case parseRainStorm (srv_IntroducerAddr (hn_srv h)) args of
        Inl err \<Rightarrow> (Some err, sys)
      | Inr jobSpec \<Rightarrow>
          if srv_IsIntroducer (hn_srv h) \<and> is_leader self (sy_world sys) then
            (case SubmitJob (se_lenv se) jobSpec (sync_members sys) of (err, w) \<Rightarrow> (err, sys\<lparr>sy_world := w\<rparr>))
          else sendSubmitJobToLeader se (srv_IntroducerAddr (hn_srv h)) jobSpec sys)"

subsection \<open>Dispatch\<close>

definition file_command :: "senv \<Rightarrow> string \<Rightarrow> string \<Rightarrow> string list \<Rightarrow> cluster \<Rightarrow> cluster" where
  "file_command se self command args cl =
     (let e = se_env se; now = le_now (se_lenv se)
      in if command = ''create'' then snd (handleCreate e now self (args ! 0) (args ! 1) cl)
         else if command = ''get'' then snd (handleGet e self (args ! 0) (args ! 1) cl)
         else if command = ''append'' then snd (handleAppend e now self (args ! 0) (args ! 1) cl)
         else if command = ''merge'' then handleMergeCommand e self (args ! 0) cl
         else if command = ''getfromreplica'' then snd (handleGetFromReplica self (args ! 0) (args ! 1) (args ! 2) cl)
         else if command = ''multiappend'' then
           (case parseMultiAppend args of (f, vms, files) \<Rightarrow> snd (handleMultiAppend e (\<lambda>_. now) f vms files cl))
         else cl)"

definition printing_commands :: "string set" where
  "printing_commands = {''list_self'', ''display_suspects'', ''display_protocol'', ''printmeta'', ''ls'', ''liststore'',
     ''list_mem_ids'', ''list_tasks'', ''print_topology'', ''print_stage_rates''}"

text \<open>The number of arguments each command that changes the system insists on.\<close>

definition arity_ok :: "string \<Rightarrow> nat \<Rightarrow> bool" where
  "arity_ok command n \<longleftrightarrow>
     (if command \<in> {''leave'', ''RainStorm''} then True
      else if command \<in> {''switch'', ''create'', ''get'', ''append'', ''kill_task''} then n = 2
      else if command \<in> {''drop'', ''merge''} then n = 1
      else if command = ''getfromreplica'' then n = 3
      else if command = ''multiappend'' then 3 \<le> n
      else False)"

definition run_command :: "senv \<Rightarrow> string \<Rightarrow> string \<Rightarrow> string list \<Rightarrow> HNode \<Rightarrow> System \<Rightarrow> System go" where
  "run_command se self command args h sys =
     (if command \<in> printing_commands then Inr sys
      else if \<not> arity_ok command (length args) then Inr sys
      else if command = ''leave'' then Inr (leaveCommand se self sys)
      else if command = ''switch'' then Inr (handleSwitch se self (args ! 0) (args ! 1) h sys)
      else if command = ''drop'' then
        Inr (set_globals self (\<lambda>g. g\<lparr>gl_MessageDropRate :=
          SetMessageDropRate (se_parseFloat se) (args ! 0) (gl_MessageDropRate g)\<rparr>) sys)
      else if command = ''kill_task'' then Inr (snd (handleKillTask se (args ! 0) (args ! 1) h sys))
      else if command = ''RainStorm'' then
        (case handleRainStorm se self args h sys of
           (Some (GoPanic p), _) \<Rightarrow> Inl (GoPanic p)
         | (_, sys') \<Rightarrow> Inr sys')
      else Inr (set_cluster (file_command se self command args (sy_cluster sys)) sys))"

definition handleCommand :: "senv \<Rightarrow> string \<Rightarrow> string \<Rightarrow> System \<Rightarrow> System" where
  "handleCommand se self cmd sys =
     (case (splitCommandLine (TrimSpace cmd), sy_cluster sys self) of
        (command # args, Some h) \<Rightarrow>
          (case run_command se self command args h sys of Inl _ \<Rightarrow> crash self sys | Inr sys' \<Rightarrow> sys')
      | _ \<Rightarrow> sys)"

text \<open>The commands handed over by \<open>ExecuteCommand\<close> are executed by goroutines of their own.\<close>

definition run_pending :: "senv \<Rightarrow> System \<Rightarrow> System" where
  "run_pending se sys = fold (\<lambda>(a, cmd). handleCommand se a cmd) (sy_commands sys) (sys\<lparr>sy_commands := []\<rparr>)"


subsection \<open>Rejected command lines\<close>

definition rejected :: "string \<Rightarrow> string list \<Rightarrow> bool" where
  "rejected introducerAddr parts \<longleftrightarrow>
     (case parts of
        [] \<Rightarrow> True
      | command # args \<Rightarrow>
          command \<in> printing_commands \<or> \<not> arity_ok command (length args) \<or>
          command = ''switch'' \<and> (ProtocolMap (ToLower (args ! 0)) = None \<or> SuspicionMap (ToLower (args ! 1)) = None) \<or>
          command = ''kill_task'' \<and> (case Atoi (args ! 1) of (pid, ok) \<Rightarrow> \<not> ok \<or> pid \<le> 0) \<or>
          command = ''multiappend'' \<and> parseMultiAppend args = ([], [], []) \<or>
          command = ''RainStorm'' \<and> (\<exists>m. parseRainStorm introducerAddr args = Inl (GoError m)))"

lemma set_cluster_same [simp]: "set_cluster (sy_cluster sys) sys = sys"
  by (simp add: set_cluster_def)

lemma run_command_rejected:
  assumes "rejected (srv_IntroducerAddr (hn_srv h)) (command # args)"
  shows "run_command se self command args h sys = Inr sys"
  using assms unfolding rejected_def list.case
proof (elim disjE conjE exE)
  assume "command \<in> printing_commands"
  then show ?thesis by (simp add: run_command_def)
next
  assume "\<not> arity_ok command (length args)"
  then show ?thesis by (simp add: run_command_def)
next
  assume c: "command = ''switch''" and "ProtocolMap (ToLower (args ! 0)) = None"
  then have "handleSwitch se self (args ! 0) (args ! 1) h sys = sys" by (simp add: handleSwitch_def)
  with c show ?thesis by (simp add: run_command_def)
next
  assume c: "command = ''switch''" and "SuspicionMap (ToLower (args ! 1)) = None"
  then have "handleSwitch se self (args ! 0) (args ! 1) h sys = sys" by (simp add: handleSwitch_def split: option.split)
  with c show ?thesis by (simp add: run_command_def)
next
  assume c: "command = ''kill_task''" and "case Atoi (args ! 1) of (pid, ok) \<Rightarrow> \<not> ok \<or> pid \<le> 0"
  then have "snd (handleKillTask se (args ! 0) (args ! 1) h sys) = sys"
    by (cases "Atoi (args ! 1)") (simp add: handleKillTask_def)
  with c show ?thesis by (simp add: run_command_def)
next
  assume c: "command = ''multiappend''" and "parseMultiAppend args = ([], [], [])"
  then have "file_command se self command args (sy_cluster sys) = sy_cluster sys"
    by (simp add: file_command_def Let_def handleMultiAppend_def)
  with c show ?thesis by (simp add: run_command_def)
next
  fix m assume "command = ''RainStorm''" "parseRainStorm (srv_IntroducerAddr (hn_srv h)) args = Inl (GoError m)"
  then show ?thesis by (simp add: run_command_def handleRainStorm_def)
qed

text \<open>
  A command line that is empty, unknown, has the wrong number of arguments, names no
  protocol, gives no positive process ID, pairs VMs with files wrongly or is no job specification, changes
  nothing in the system; neither does a command that only prints.
\<close>

theorem rejected_commands_change_nothing:
  assumes "\<And>h. sy_cluster sys self = Some h \<Longrightarrow>
    rejected (srv_IntroducerAddr (hn_srv h)) (splitCommandLine (TrimSpace cmd))"
  shows "handleCommand se self cmd sys = sys"
  using assms run_command_rejected
  by (auto simp: handleCommand_def split: list.split option.split)

theorem rejected_commands_change_nothing_witness:
  "handleCommand rpcEnv ''n'' ''switch gossip maybe'' rpcSystem = rpcSystem \<and>
   handleCommand rpcEnv ''n'' ''kill_task vm1 -3'' rpcSystem = rpcSystem \<and>
   handleCommand rpcEnv ''n'' ''RainStorm 1 1 a b c'' rpcSystem = rpcSystem"
proof (intro conjI)
  have "rejected i (splitCommandLine (TrimSpace ''switch gossip maybe''))" for i
  proof -
    have "splitCommandLine (TrimSpace ''switch gossip maybe'') = [''switch'', ''gossip'', ''maybe'']"
      "SuspicionMap (ToLower ''maybe'') = None" by code_simp+
    then show ?thesis by (simp add: rejected_def)
  qed
  then show "handleCommand rpcEnv ''n'' ''switch gossip maybe'' rpcSystem = rpcSystem"
    by (rule rejected_commands_change_nothing)
  have "rejected i (splitCommandLine (TrimSpace ''kill_task vm1 -3''))" for i
  proof -
    have "splitCommandLine (TrimSpace ''kill_task vm1 -3'') = [''kill_task'', ''vm1'', ''-3'']" "Atoi ''-3'' = (-3, True)"
      by code_simp+
    then show ?thesis by (simp add: rejected_def)
  qed
  then show "handleCommand rpcEnv ''n'' ''kill_task vm1 -3'' rpcSystem = rpcSystem"
    by (rule rejected_commands_change_nothing)
  have "rejected i (splitCommandLine (TrimSpace ''RainStorm 1 1 a b c''))" for i
  proof -
    have "splitCommandLine (TrimSpace ''RainStorm 1 1 a b c'') = [''RainStorm'', ''1'', ''1'', ''a'', ''b'', ''c'']" by code_simp
    moreover have "parseRainStorm i [''1'', ''1'', ''a'', ''b'', ''c''] = Inl (GoError ''Invalid RainStorm command format'')"
      by (simp add: parseRainStorm_def)
    ultimately show ?thesis by (auto simp: rejected_def)
  qed
  then show "handleCommand rpcEnv ''n'' ''RainStorm 1 1 a b c'' rpcSystem = rpcSystem"
    by (rule rejected_commands_change_nothing)
qed

subsection \<open>Switching the protocol\<close>

definition switched :: "ProtocolType \<Rightarrow> SuspicionType \<Rightarrow> string set \<Rightarrow> System \<Rightarrow> System" where
  "switched p s as sys = sys\<lparr>sy_globals := (\<lambda>a. if a \<in> as
     then (sy_globals sys a)\<lparr>gl_Config := SwitchProtocol p s (gl_Config (sy_globals sys a))\<rparr> else sy_globals sys a)\<rparr>"

lemma SwitchProtocol_idem [simp]: "SwitchProtocol p s (SwitchProtocol p s c) = SwitchProtocol p s c"
  by (simp add: SwitchProtocol_def)

lemma switched_switched [simp]: "switched p s as (switched p s bs sys) = switched p s (bs \<union> as) sys"
  by (auto simp: switched_def fun_eq_iff)

lemma switched_fields [simp]: "sy_cluster (switched p s as sys) = sy_cluster sys"
  by (simp add: switched_def)

lemma set_globals_switched:
  "set_globals a (\<lambda>g. g\<lparr>gl_Config := SwitchProtocol p s (gl_Config g)\<rparr>) sys = switched p s {a} sys"
  by (auto simp: set_globals_def switched_def fun_eq_iff)

text \<open>The members of a node that a broadcast reaches: the others that are running.\<close>

definition reached :: "HNode \<Rightarrow> System \<Rightarrow> Member set \<Rightarrow> string set" where
  "reached h sys ms = {a. a \<noteq> srv_Addr (hn_srv h) \<and> sy_cluster sys a \<noteq> None \<and> a \<in> m_Address ` ms}"

lemma switch_member_switched: "switch_member se h p s m sys = switched p s (reached h sys {m}) sys"
proof (cases "m_Address m \<noteq> srv_Addr (hn_srv h) \<and> sy_cluster sys (m_Address m) \<noteq> None")
  case True
  then have r: "reached h sys {m} = {m_Address m}" by (auto simp: reached_def)
  from True obtain n where "sy_cluster sys (m_Address m) = Some n" by blast
  then have "snd (call se (m_Address m) (ProtocolSwitchRequest i p s) sys) =
      set_globals (m_Address m) (\<lambda>g. g\<lparr>gl_Config := SwitchProtocol p s (gl_Config g)\<rparr>) sys" for i
    by (simp add: call_def serve_def serve_at_def svc_ProtocolSwitch_def Let_def set_globals_def)
  with True r show ?thesis by (simp add: switch_member_def set_globals_switched)
next
  case False
  then have "reached h sys {m} = {}" by (auto simp: reached_def)
  with False show ?thesis by (auto simp: switch_member_def call_def serve_def switched_def)
qed

lemma switch_all_switched:
  "fold (\<lambda>(_, m). switch_member se h p s m) ms (switched p s as sys) = switched p s (as \<union> reached h sys (snd ` set ms)) sys"
proof (induction ms arbitrary: as)
  case (Cons m ms)
  have r: "reached h (switched p s as sys) {snd m} \<union> reached h sys (snd ` set ms) = reached h sys (snd ` set (m # ms))"
    by (auto simp: reached_def)
  have "fold (\<lambda>(_, m). switch_member se h p s m) (m # ms) (switched p s as sys) =
      fold (\<lambda>(_, m). switch_member se h p s m) ms (switched p s (as \<union> reached h (switched p s as sys) {snd m}) sys)"
    by (simp add: case_prod_unfold switch_member_switched)
  with Cons.IH r show ?case by (simp add: Un_assoc)
qed (simp add: reached_def)

lemma finite_Snapshot: "finite (dom (Snapshot nodes))"
proof (induction nodes rule: rev_induct)
  case (snoc x xs)
  then show ?case by (simp only: Snapshot_snoc dom_fun_upd option.simps if_False finite_insert)
qed simp

lemma entries_values: "set ids = dom m \<Longrightarrow> snd ` set (entries ids m) = ran m"
  by (force simp: entries_def List.map_filter_def ran_def image_def dom_def)




subsection \<open>Killing a task by its process\<close>

lemma find_SomeD: "find P xs = Some x \<Longrightarrow> x \<in> set xs \<and> P x"
  by (auto simp: find_Some_iff)

lemma tasks_of_entry:
  assumes "tasks_of se a sys = Some tasks" "t \<in> set tasks"
  shows "\<exists>nm i ti. w_nodes (sy_world sys) a = Some nm \<and> nm_TaskInfos nm i = Some ti \<and> pi_TaskID t = ti_TaskID ti \<and> pi_PID t = ti_PID ti"
proof -
  obtain h nm where hn: "sy_cluster sys a = Some h" "w_nodes (sy_world sys) a = Some nm"
      "tasks = NM_ListTasks (srv_LocalDirectory (hn_srv h)) (se_tasks se (nm_TaskInfos nm)) nm"
    using assms(1) by (auto simp: tasks_of_def call_def serve_def serve_at_def svc_ListTasks_def Let_def
        split: option.splits Response.splits bool.splits)
  from assms(2) obtain i ti where "(i, ti) \<in> set (entries (se_tasks se (nm_TaskInfos nm)) (nm_TaskInfos nm))"
      "t = task_process_info (srv_LocalDirectory (hn_srv h)) nm ti"
    by (auto simp: hn(3) NM_ListTasks_def)
  then show ?thesis using hn(2) by (auto simp: entries_set task_process_info_def)
qed

text \<open>The node manager after its task has been killed.\<close>

definition without_task :: "string \<Rightarrow> NodeManager \<Rightarrow> NodeManager" where
  "without_task i nm = nm\<lparr>nm_TaskInfos := (nm_TaskInfos nm)(i := None), nm_Metrics := (nm_Metrics nm)(i := None),
     nm_TaskStatus := (nm_TaskStatus nm)(i \<mapsto> TaskStopped)\<rparr>"

lemma killed_by_call:
  assumes "call se a (KillTaskRequest i) sys = (r, sys')" "succeeded r" "w_nodes (sy_world sys) a = Some nm"
  shows "sys' = sys\<lparr>sy_world := (sy_world sys)\<lparr>w_nodes := (w_nodes (sy_world sys))(a \<mapsto> without_task i nm)\<rparr>\<rparr>"
  using assms
  by (auto simp: call_def serve_def serve_at_def Let_def on_world_def svc_KillTask_rpc_def with_manager_def svc_KillTask_def
      KillTaskProcess_def GoErr_def succeeded_def without_task_def split: option.splits if_splits)

text \<open>
  When the kill command reports success, it killed the task with the given process ID on a
  member with the given VM name, and left every other task and node as it was.
\<close>

theorem kill_command_kills_the_process:
  assumes "handleKillTask se vmName pidStr h sys = (True, sys')"
  shows "\<exists>m pid nm k ti. m \<in> set (srv_Members (hn_srv h)) \<and> AddressToVMName (m_Address m) = vmName \<and>
    Atoi pidStr = (pid, True) \<and> w_nodes (sy_world sys) (m_Address m) = Some nm \<and>
    nm_TaskInfos nm k = Some ti \<and> ti_PID ti = pid \<and>
    sys' = sys\<lparr>sy_world := (sy_world sys)\<lparr>w_nodes := (w_nodes (sy_world sys))(m_Address m \<mapsto> without_task (ti_TaskID ti) nm)\<rparr>\<rparr>"
proof -
  obtain pid m tasks t r where p: "Atoi pidStr = (pid, True)"
      "find (\<lambda>m. AddressToVMName (m_Address m) = vmName) (GetAll (srv_Members (hn_srv h))) = Some m"
      "tasks_of se (m_Address m) sys = Some tasks"
      "find (\<lambda>t. pi_PID t = pid \<and> (pi_VM t = [] \<or> pi_VM t = vmName)) tasks = Some t"
      "call se (m_Address m) (KillTaskRequest (pi_TaskID t)) sys = (r, sys')" "succeeded r"
    using assms by (auto simp: handleKillTask_def split: prod.splits if_splits option.splits)
  from find_SomeD [OF p(2)] have m: "m \<in> set (srv_Members (hn_srv h))" "AddressToVMName (m_Address m) = vmName"
    by (simp_all add: GetAll_def)
  from find_SomeD [OF p(4)] have t: "t \<in> set tasks" "pi_PID t = pid" by blast+
  from tasks_of_entry [OF p(3) t(1)] obtain nm k ti where n: "w_nodes (sy_world sys) (m_Address m) = Some nm"
      "nm_TaskInfos nm k = Some ti" "pi_TaskID t = ti_TaskID ti" "pi_PID t = ti_PID ti" by blast
  from killed_by_call [OF p(5,6) n(1)] m t p(1) n show ?thesis by (auto simp: n(3))
qed


text \<open>The first virtual machine with one task.\<close>

definition vm1Node :: HNode where
  "vm1Node = demoNode\<lparr>hn_srv := demoServer\<lparr>srv_Addr := NodeMap ''vm1'', srv_LocalDirectory := ''./localdirectory/vm1'',
     srv_Members := [zeroMember\<lparr>m_Address := NodeMap ''vm1''\<rparr>]\<rparr>\<rparr>"

definition vm1System :: System where
  "vm1System = rpcSystem\<lparr>sy_cluster := [NodeMap ''vm1'' \<mapsto> vm1Node],
     sy_world := scaleWorld\<lparr>w_nodes := [NodeMap ''vm1'' \<mapsto> scaleNode ''a'' ''n'']\<rparr>\<rparr>"

lemma vm1_tasks:
  "\<exists>t. tasks_of rpcEnv (NodeMap ''vm1'') vm1System = Some [t] \<and> pi_PID t = 7 \<and> pi_VM t = ''vm1'' \<and> pi_TaskID t = ''a''"
proof -
  obtain ti where ti: "nm_TaskInfos (scaleNode ''a'' ''n'') = [''a'' \<mapsto> ti]" "ti_PID ti = 7" "ti_TaskID ti = ''a''"
    using scaleNode_a by blast
  have "Base ''./localdirectory/vm1'' = ''vm1''" by code_simp
  then show ?thesis
    by (simp add: tasks_of_def call_def serve_def serve_at_def svc_ListTasks_def vm1System_def rpcSystem_def vm1Node_def
        NM_ListTasks_def entries_def List.map_filter_def rpcEnv_def task_process_info_def ti)
qed

lemma vm1_kill: "\<exists>sys'. handleKillTask rpcEnv ''vm1'' ''7'' vm1Node vm1System = (True, sys')"
proof -
  have vm: "AddressToVMName (NodeMap ''vm1'') = ''vm1''" "NodeMap ''vm1'' \<noteq> []" "Atoi ''7'' = (7, True)" by code_simp+
  obtain t where t: "tasks_of rpcEnv (NodeMap ''vm1'') vm1System = Some [t]" "pi_PID t = 7" "pi_VM t = ''vm1''" "pi_TaskID t = ''a''"
    using vm1_tasks by blast
  obtain ti where ti: "nm_TaskInfos (scaleNode ''a'' ''n'') = [''a'' \<mapsto> ti]" using scaleNode_a by blast
  have "succeeded (fst (call rpcEnv (NodeMap ''vm1'') (KillTaskRequest ''a'') vm1System))"
    by (simp add: call_def serve_def serve_at_def Let_def on_world_def svc_KillTask_rpc_def with_manager_def svc_KillTask_def
        KillTaskProcess_def vm1System_def rpcSystem_def scaleWorld_def ti rpcEnv_def scaleEnv_def succeeded_def)
  then show ?thesis
    by (cases "call rpcEnv (NodeMap ''vm1'') (KillTaskRequest ''a'') vm1System")
      (simp add: handleKillTask_def vm1Node_def GetAll_def vm t)
qed

theorem kill_command_kills_the_process_witness:
  "\<exists>m pid nm k ti (sys' :: System). m \<in> set (srv_Members (hn_srv vm1Node)) \<and> Atoi ''7'' = (pid, True) \<and>
     w_nodes (sy_world vm1System) (m_Address m) = Some nm \<and> nm_TaskInfos nm k = Some ti \<and> ti_PID ti = pid \<and>
     w_nodes (sy_world sys') (m_Address m) = Some (without_task (ti_TaskID ti) nm)"
proof -
  obtain sys' where "handleKillTask rpcEnv ''vm1'' ''7'' vm1Node vm1System = (True, sys')" using vm1_kill by blast
  from kill_command_kills_the_process [OF this] obtain m pid nm k ti where k: "m \<in> set (srv_Members (hn_srv vm1Node))"
    "Atoi ''7'' = (pid, True)" "w_nodes (sy_world vm1System) (m_Address m) = Some nm" "nm_TaskInfos nm k = Some ti" "ti_PID ti = pid"
    "sys' = vm1System\<lparr>sy_world := (sy_world vm1System)\<lparr>w_nodes :=
       (w_nodes (sy_world vm1System))(m_Address m \<mapsto> without_task (ti_TaskID ti) nm)\<rparr>\<rparr>" by blast
  have "w_nodes (sy_world sys') (m_Address m) = Some (without_task (ti_TaskID ti) nm)" by (simp add: k(6))
  with k(1-5) show ?thesis by (intro exI conjI)
qed

end
