(* ===== verification/RpcServer.thy ===== *)
theory RpcServer imports Commands begin

text \<open>
  The RPC framing of \<open>rpc_server.go\<close> and \<open>rpc_client.go\<close>: receiving a datagram, decoding, dispatch by method
  name, responses and errors, the client's call, and the start of a server with the join. A datagram holds
  a message or does not parse; its parameters are a JSON value. The environment \<open>net\<close> holds the JSON mapping
  of the request structs (\<open>nt_encode\<close> and, by method, \<open>nt_params\<close>), the sizes of messages on the wire, which
  datagrams the network loses, and the random numbers drawn to simulate losses.
\<close>

record RPCMessage =
  rm_Method :: string
  rm_Params :: json
  rm_ID :: "64 word"

record RPCResponse =
  rr_Result :: "Response option"
  rr_Error :: string
  rr_ID :: "64 word"

record net =
  nt_encode :: "Request \<Rightarrow> json"
  nt_params :: "string \<Rightarrow> json \<Rightarrow> string + Request"
  nt_size :: "RPCMessage \<Rightarrow> nat"
  nt_rsize :: "RPCResponse \<Rightarrow> nat"
  nt_lost :: "RPCMessage \<Rightarrow> bool"
  nt_rlost :: "RPCResponse \<Rightarrow> bool"
  nt_draw :: rat
  nt_ack_draw :: rat

definition method_of :: "Request \<Rightarrow> string" where
  "method_of req =
     (case req of
        JoinRequest _ \<Rightarrow> ''Join''
      | GossipRequest _ _ \<Rightarrow> ''Gossip''
      | PingRequest _ _ \<Rightarrow> ''Ping''
      | ProtocolSwitchRequest _ _ _ \<Rightarrow> ''ProtocolSwitch''
      | GetFilesMetadataRequest _ _ \<Rightarrow> ''GetFilesMetadata''
      | GetFileMetadataRequest _ \<Rightarrow> ''GetFileMetadata''
      | MultiAppendRequest _ _ \<Rightarrow> ''MultiAppend''
      | UpdateAppendOrderRequest _ _ \<Rightarrow> ''UpdateAppendOrder''
      | MergeRequest _ \<Rightarrow> ''Merge''
      | ExecuteCommandRequest _ \<Rightarrow> ''ExecuteCommand''
      | InitializeTasksRequest _ _ _ _ _ _ \<Rightarrow> ''InitializeTasks''
      | SubmitJobRequest _ \<Rightarrow> ''SubmitJob''
      | AddTaskRequest _ _ _ \<Rightarrow> ''AddTask''
      | UpdateTopologyRequest _ \<Rightarrow> ''UpdateTopology''
      | KillTaskRequest _ \<Rightarrow> ''KillTask''
      | ReportMetricsRequest _ \<Rightarrow> ''ReportMetrics''
      | MergeWalRequest _ _ \<Rightarrow> ''MergeWal''
      | ListTasksRequest \<Rightarrow> ''ListTasks'')"

definition rpc_methods :: "string set" where
  "rpc_methods = {''Join'', ''Gossip'', ''Ping'', ''ProtocolSwitch'', ''GetFilesMetadata'', ''GetFileMetadata'',
     ''MultiAppend'', ''UpdateAppendOrder'', ''Merge'', ''ExecuteCommand'', ''InitializeTasks'', ''SubmitJob'',
     ''AddTask'', ''UpdateTopology'', ''KillTask'', ''ReportMetrics'', ''ListTasks'', ''MergeWal''}"

lemma method_of_rpc_methods [simp]: "method_of req \<in> rpc_methods"
  by (cases req) (simp_all add: method_of_def rpc_methods_def)

subsection \<open>The server side\<close>

definition charge :: "string \<Rightarrow> (HNode \<Rightarrow> HNode) \<Rightarrow> System \<Rightarrow> System" where
  "charge a f sys = set_cluster (on_node a f (sy_cluster sys)) sys"

definition sendRPCResponse :: "net \<Rightarrow> string \<Rightarrow> 64 word \<Rightarrow> Response \<Rightarrow> System \<Rightarrow> RPCResponse \<times> System" where
  "sendRPCResponse nt self rid result sys =
     (let resp = \<lparr>rr_Result = Some result, rr_Error = [], rr_ID = rid\<rparr>
      in (resp, charge self (count_sent (nt_rsize nt resp)) sys))"

definition sendRPCError :: "net \<Rightarrow> string \<Rightarrow> 64 word \<Rightarrow> string \<Rightarrow> System \<Rightarrow> RPCResponse \<times> System" where
  "sendRPCError nt self rid errMsg sys =
     (let resp = \<lparr>rr_Result = None, rr_Error = errMsg, rr_ID = rid\<rparr>
      in (resp, charge self (count_sent (nt_rsize nt resp)) sys))"

definition handleRPCRequest :: "net \<Rightarrow> senv \<Rightarrow> string \<Rightarrow> RPCMessage option \<Rightarrow> System \<Rightarrow> (RPCResponse \<times> System) go option" where
  "handleRPCRequest nt se self data sys =
     (case data of
        None \<Rightarrow> Some (Inr (sendRPCError nt self 0 ''unmarshal error'' sys))
      | Some msg \<Rightarrow>
          if rm_Method msg \<notin> rpc_methods then
            Some (Inr (sendRPCError nt self (rm_ID msg) (''unknown method: '' @ rm_Method msg) sys))
          else
            (case nt_params nt (rm_Method msg) (rm_Params msg) of
               Inl err \<Rightarrow> Some (Inr (sendRPCError nt self (rm_ID msg) (''invalid params: '' @ err) sys))
             | Inr req \<Rightarrow>
                 (case serve se self req sys of
                    None \<Rightarrow> None
                  | Some (Inl p) \<Rightarrow> Some (Inl p)
                  | Some (Inr (result, sys')) \<Rightarrow> Some (Inr (sendRPCResponse nt self (rm_ID msg) result sys')))))"

text \<open>
  One round of \<open>listenForMessages\<close>: the receive buffer has 4096 bytes; a longer datagram is cut off and no
  longer parses. \<open>None\<close>: no response.
\<close>

definition bufferSize :: nat where "bufferSize = 4096"

definition listenForMessages :: "net \<Rightarrow> senv \<Rightarrow> string \<Rightarrow> RPCMessage \<Rightarrow> System \<Rightarrow> RPCResponse option \<times> System" where
  "listenForMessages nt se self msg sys =
     (if sy_cluster sys self = None then (None, sys)
      else
        let n = min (nt_size nt msg) bufferSize;
            sys = charge self (count_received n) sys;
            rate = gl_MessageDropRate (sy_globals sys self);
            data = (if nt_size nt msg \<le> bufferSize then Some msg else None)
        in if rate > 0 \<and> nt_draw nt < rate then (None, sys)
           else
             (case handleRPCRequest nt se self data sys of
                None \<Rightarrow> (None, sys)
              | Some (Inl _) \<Rightarrow> (None, crash self sys)
              | Some (Inr (resp, sys')) \<Rightarrow> (Some resp, sys')))"

subsection \<open>The client side\<close>

definition UnixNano :: "time \<Rightarrow> int" where
  "UnixNano t = t - 62135596800 * 1000000000"

definition makeRPCCall :: "net \<Rightarrow> senv \<Rightarrow> string \<Rightarrow> string \<Rightarrow> Request \<Rightarrow> System \<Rightarrow> (string + Response) \<times> System" where
  "makeRPCCall nt se caller address req sys =
     (let rpcMsg = \<lparr>rm_Method = method_of req, rm_Params = nt_encode nt req, rm_ID = of_int (UnixNano (le_now (se_lenv se)))\<rparr>;
          sys = charge caller (count_sent (nt_size nt rpcMsg)) sys;
          timeout = Inl ''read error: i/o timeout''
      in if nt_lost nt rpcMsg then (timeout, sys)
         else
           case listenForMessages nt se address rpcMsg sys of
             (None, sys') \<Rightarrow> (timeout, sys')
           | (Some resp, sys') \<Rightarrow>
               if nt_rlost nt resp then (timeout, sys')
               else
                 let sys' = charge caller (count_received (nt_rsize nt resp)) sys'
                 in if rr_Error resp \<noteq> [] then (Inl (''RPC error: '' @ rr_Error resp), sys')
                    else (case rr_Result resp of Some r \<Rightarrow> (Inr r, sys') | None \<Rightarrow> (Inl ''unmarshal result error'', sys')))"

text \<open>The caller of \<open>CallPing\<close> may drop the acknowledgement it received.\<close>

definition CallPing :: "net \<Rightarrow> senv \<Rightarrow> string \<Rightarrow> string \<Rightarrow> string \<Rightarrow> Member list \<Rightarrow> System \<Rightarrow> (string + Response) \<times> System" where
  "CallPing nt se self address senderId membersList sys =
     (case makeRPCCall nt se self address (PingRequest senderId membersList) sys of
        (Inr resp, sys') \<Rightarrow>
          let rate = gl_MessageDropRate (sy_globals sys' self)
          in if rate > 0 \<and> nt_ack_draw nt < rate then (Inl ''ACK dropped'', sys') else (Inr resp, sys')
      | (Inl err, sys') \<Rightarrow> (Inl err, sys'))"

text \<open>The calls of the other methods.\<close>

definition CallJoin where
  "CallJoin nt se self address m = makeRPCCall nt se self address (JoinRequest m)"

definition CallGossip where
  "CallGossip nt se self address senderId membersList = makeRPCCall nt se self address (GossipRequest senderId membersList)"

definition CallProtocolSwitch where
  "CallProtocolSwitch nt se self address senderID protocol suspicion =
     makeRPCCall nt se self address (ProtocolSwitchRequest senderID protocol suspicion)"

definition GetKeysMetadata where
  "GetKeysMetadata nt se self address startRange endRange =
     makeRPCCall nt se self address (GetFilesMetadataRequest startRange endRange)"

definition GetFileMetadata where
  "GetFileMetadata nt se self address filename = makeRPCCall nt se self address (GetFileMetadataRequest filename)"

definition CallMultiAppend where
  "CallMultiAppend nt se self address hyDFSfilename localFilename =
     makeRPCCall nt se self address (MultiAppendRequest hyDFSfilename localFilename)"

definition CallUpdateAppendOrder where
  "CallUpdateAppendOrder nt se self address filename appends =
     makeRPCCall nt se self address (UpdateAppendOrderRequest filename appends)"

definition CallMerge where
  "CallMerge nt se self address hyDFSfilename = makeRPCCall nt se self address (MergeRequest hyDFSfilename)"

definition CallInitializeTasks where
  "CallInitializeTasks nt se self address jobID topology assignments jobSpec sourceDir inputRate =
     makeRPCCall nt se self address (InitializeTasksRequest jobID topology assignments jobSpec sourceDir inputRate)"

definition CallSubmitJob where
  "CallSubmitJob nt se self address jobSpec = makeRPCCall nt se self address (SubmitJobRequest jobSpec)"

text \<open>\<open>CallAddTask\<close> and \<open>CallUpdateTopology\<close> print a field of their argument first, which must not be nil.\<close>

definition CallAddTask where
  "CallAddTask nt se self address task jobSpec = makeRPCCall nt se self address (AddTaskRequest (Some task) address jobSpec)"

definition CallUpdateTopology where
  "CallUpdateTopology nt se self address topology = makeRPCCall nt se self address (UpdateTopologyRequest (Some topology))"

definition CallKillTask where
  "CallKillTask nt se self address taskID = makeRPCCall nt se self address (KillTaskRequest taskID)"

definition CallListTasks where
  "CallListTasks nt se self address = makeRPCCall nt se self address ListTasksRequest"

definition CallReportMetrics where
  "CallReportMetrics nt se self address report = makeRPCCall nt se self address (ReportMetricsRequest (Some report))"

definition CallMergeWal where
  "CallMergeWal nt se self address oldTaskID keepTaskID =
     makeRPCCall nt se self address (MergeWalRequest oldTaskID keepTaskID)"

subsection \<open>Starting a server\<close>

definition notifyIntroducer :: "net \<Rightarrow> senv \<Rightarrow> string \<Rightarrow> System \<Rightarrow> string option \<times> System" where
  "notifyIntroducer nt se self sys =
     (case sy_cluster sys self of
        None \<Rightarrow> (Some ''not running'', sys)
      | Some h \<Rightarrow>
          let s = hn_srv h; now = le_now (se_lenv se);
              member = \<lparr>m_Address = srv_Addr s, m_Created = srv_Created s, m_Status = StatusAlive,
                m_Heartbeat = srv_Heartbeat s, m_Incarnation = srv_Incarnation s, m_LastUpdated = now, m_Hash = srv_Hash s\<rparr>
          in case CallJoin nt se self (srv_IntroducerAddr s) member sys of
               (Inl err, sys') \<Rightarrow> (Some err, sys')
             | (Inr (JoinResponse _ _ members protocol suspicion introducerID), sys') \<Rightarrow>
                 let sys' = set_globals self (\<lambda>g. g\<lparr>gl_Config := (gl_Config g)\<lparr>cfg_Protocol := protocol,
                              cfg_Suspicion := suspicion\<rparr>\<rparr>) sys'
                 in (None, charge self (\<lambda>h. h\<lparr>hn_srv := mergeMembership (gl_Config (sy_globals sys' self)) now (hn_srv h)
                              members introducerID\<rparr>) sys')
             | (Inr _, sys') \<Rightarrow> (Some ''unmarshal result error'', sys'))"

text \<open>What the operating system finds at the HyDFS directory; \<open>stuck\<close> files cannot be removed.\<close>

datatype dirstat = DirMissing "string option" | StatError string | NotADirectory | ReadDirError string | DirEntries "string list"

definition clearHydfsFolder :: "dirstat \<Rightarrow> (string \<Rightarrow> bool) \<Rightarrow> HNode \<Rightarrow> go_err option \<times> HNode" where
  "clearHydfsFolder st stuck h =
     (case st of
        DirMissing None \<Rightarrow> (None, h)
      | DirMissing (Some e) \<Rightarrow> (GoErr (''failed to create hydfs directory: '' @ e), h)
      | StatError e \<Rightarrow> (GoErr (''failed to stat hydfs directory: '' @ e), h)
      | NotADirectory \<Rightarrow> (GoErr (''FileDirectory is not a directory: '' @ srv_FileDirectory (hn_srv h)), h)
      | ReadDirError e \<Rightarrow> (GoErr (''failed to read hydfs directory: '' @ e), h)
      | DirEntries names \<Rightarrow> (None, remove_names (filter (\<lambda>n. \<not> stuck n) names) h))"

text \<open>\<open>StartRPCServer\<close> up to the start of the background loops.\<close>

definition StartRPCServer :: "net \<Rightarrow> senv \<Rightarrow> dirstat \<Rightarrow> (string \<Rightarrow> bool) \<Rightarrow> string \<Rightarrow> System \<Rightarrow> string option \<times> System" where
  "StartRPCServer nt se st stuck self sys =
     (case sy_cluster sys self of
        None \<Rightarrow> (Some ''not running'', sys)
      | Some h \<Rightarrow>
          let sys = set_globals self (\<lambda>g. g\<lparr>gl_globalServer := True\<rparr>) sys;
              (err, sys) = (if srv_IsIntroducer (hn_srv h) then (None, sys) else notifyIntroducer nt se self sys)
          in case err of
               Some e \<Rightarrow> (Some e, sys)
             | None \<Rightarrow> (None, charge self (\<lambda>h. snd (clearHydfsFolder st stuck h)) sys))"


subsection \<open>Byte counters\<close>

text \<open>A system without its byte counters.\<close>

definition strip_node :: "HNode \<Rightarrow> HNode" where
  "strip_node h = h\<lparr>hn_srv := (hn_srv h)\<lparr>srv_Bandwidth := \<lparr>bs_BytesSent = 0, bs_BytesReceived = 0\<rparr>\<rparr>\<rparr>"

definition strip :: "System \<Rightarrow> System" where
  "strip sys = sys\<lparr>sy_cluster := map_option strip_node \<circ> sy_cluster sys\<rparr>"

lemma strip_node_count [simp]: "strip_node (count_sent n h) = strip_node h" "strip_node (count_received n h) = strip_node h"
  by (simp_all add: strip_node_def count_sent_def count_received_def)

lemma strip_charge: "(\<And>h. strip_node (f h) = strip_node h) \<Longrightarrow> strip (charge a f sys) = strip sys"
  by (auto simp: strip_def charge_def set_cluster_def on_node_def fun_eq_iff split: option.split)

lemma strip_count [simp]:
  "strip (charge a (count_sent n) sys) = strip sys" "strip (charge a (count_received n) sys) = strip sys"
  by (rule strip_charge, simp)+

lemma strip_send [simp]:
  "strip (snd (sendRPCError nt a i e sys)) = strip sys" "strip (snd (sendRPCResponse nt a i r sys)) = strip sys"
  by (simp_all add: sendRPCError_def sendRPCResponse_def Let_def)

lemma send_fields [simp]:
  "rr_Error (fst (sendRPCResponse nt a i r sys)) = []" "rr_Result (fst (sendRPCResponse nt a i r sys)) = Some r"
  "rr_ID (fst (sendRPCResponse nt a i r sys)) = i" "rr_Error (fst (sendRPCError nt a i e sys)) = e"
  "rr_Result (fst (sendRPCError nt a i e sys)) = None" "rr_ID (fst (sendRPCError nt a i e sys)) = i"
  by (simp_all add: sendRPCError_def sendRPCResponse_def Let_def)

lemma charge_running [simp]: "sy_cluster (charge a f sys) b = None \<longleftrightarrow> sy_cluster sys b = None"
  by (auto simp: charge_def set_cluster_def on_node_def split: option.split)

subsection \<open>Answers\<close>

lemma handleRPCRequest_answer:
  assumes "handleRPCRequest nt se self data sys = Some (Inr (resp, sys'))"
  shows "rr_ID resp = (case data of None \<Rightarrow> 0 | Some msg \<Rightarrow> rm_ID msg) \<and>
    (rr_Error resp \<noteq> [] \<longrightarrow> rr_Result resp = None \<and> sys' = charge self (count_sent (nt_rsize nt resp)) sys) \<and>
    (rr_Error resp = [] \<longrightarrow> (\<exists>msg req r sys1. data = Some msg \<and> rm_Method msg \<in> rpc_methods \<and>
       nt_params nt (rm_Method msg) (rm_Params msg) = Inr req \<and> serve se self req sys = Some (Inr (r, sys1)) \<and>
       rr_Result resp = Some r \<and> sys' = charge self (count_sent (nt_rsize nt resp)) sys1))"
proof -
  have err: ?thesis if "sendRPCError nt self i (e @ m) sys = (resp, sys')" "e \<noteq> []"
    "i = (case data of None \<Rightarrow> 0 | Some msg \<Rightarrow> rm_ID msg)" for i e m
    using that by (auto simp: sendRPCError_def Let_def)
  show ?thesis
  proof (cases data)
    case None
    then have "sendRPCError nt self 0 (''unmarshal error'' @ []) sys = (resp, sys')"
      using assms by (simp add: handleRPCRequest_def)
    then show ?thesis by (rule err) (simp_all add: None)
  next
    case (Some msg)
    show ?thesis
    proof (cases "nt_params nt (rm_Method msg) (rm_Params msg)")
      case (Inl e)
      then have "sendRPCError nt self (rm_ID msg) (''unknown method: '' @ rm_Method msg) sys = (resp, sys') \<or>
          sendRPCError nt self (rm_ID msg) (''invalid params: '' @ e) sys = (resp, sys')"
        using assms Some by (simp add: handleRPCRequest_def split: if_splits)
      then show ?thesis by (elim disjE) (rule err, assumption, simp, simp add: Some)+
    next
      case (Inr req)
      show ?thesis
      proof (cases "rm_Method msg \<in> rpc_methods")
        case True
        then obtain r sys1 where "serve se self req sys = Some (Inr (r, sys1))"
            "sendRPCResponse nt self (rm_ID msg) r sys1 = (resp, sys')"
          using assms Some Inr unfolding handleRPCRequest_def
          by (cases "serve se self req sys"; cases "the (serve se self req sys)") auto
        with True Some Inr show ?thesis by (auto simp: sendRPCResponse_def Let_def)
      next
        case False
        then have "sendRPCError nt self (rm_ID msg) (''unknown method: '' @ rm_Method msg) sys = (resp, sys')"
          using assms Some by (simp add: handleRPCRequest_def)
        then show ?thesis by (rule err) (simp_all add: Some)
      qed
    qed
  qed
qed



subsection \<open>Calls\<close>

definition rpc_message :: "net \<Rightarrow> senv \<Rightarrow> Request \<Rightarrow> RPCMessage" where
  "rpc_message nt se req = \<lparr>rm_Method = method_of req, rm_Params = nt_encode nt req,
     rm_ID = of_int (UnixNano (le_now (se_lenv se)))\<rparr>"

text \<open>The request arrives in full at a running process and is not dropped there.\<close>

definition arrives :: "net \<Rightarrow> string \<Rightarrow> RPCMessage \<Rightarrow> System \<Rightarrow> bool" where
  "arrives nt address msg sys \<longleftrightarrow> sy_cluster sys address \<noteq> None \<and> \<not> nt_lost nt msg \<and> nt_size nt msg \<le> bufferSize \<and>
     \<not> (gl_MessageDropRate (sy_globals sys address) > 0 \<and> nt_draw nt < gl_MessageDropRate (sy_globals sys address))"

lemma charge_globals [simp]: "sy_globals (charge a f sys) = sy_globals sys"
  by (simp add: charge_def set_cluster_def)

lemma makeRPCCall_msg:
  "makeRPCCall nt se caller address req sys =
    (let sys = charge caller (count_sent (nt_size nt (rpc_message nt se req))) sys
     in if nt_lost nt (rpc_message nt se req) then (Inl ''read error: i/o timeout'', sys)
        else case listenForMessages nt se address (rpc_message nt se req) sys of
             (None, sys') \<Rightarrow> (Inl ''read error: i/o timeout'', sys')
           | (Some resp, sys') \<Rightarrow>
               if nt_rlost nt resp then (Inl ''read error: i/o timeout'', sys')
               else
                 let sys' = charge caller (count_received (nt_rsize nt resp)) sys'
                 in if rr_Error resp \<noteq> [] then (Inl (''RPC error: '' @ rr_Error resp), sys')
                    else (case rr_Result resp of Some r \<Rightarrow> (Inr r, sys') | None \<Rightarrow> (Inl ''unmarshal result error'', sys')))"
  by (simp add: makeRPCCall_def rpc_message_def Let_def)

lemma rpc_message_fields [simp]:
  "rm_Method (rpc_message nt se req) = method_of req" "rm_Params (rpc_message nt se req) = nt_encode nt req"
  by (simp_all add: rpc_message_def)

lemma handleRPCRequest_served:
  assumes "nt_params nt (method_of req) (nt_encode nt req) = Inr req"
  shows "handleRPCRequest nt se self (Some (rpc_message nt se req)) sys =
    (case serve se self req sys of
       None \<Rightarrow> None
     | Some (Inl p) \<Rightarrow> Some (Inl p)
     | Some (Inr (r, sys')) \<Rightarrow> Some (Inr (sendRPCResponse nt self (rm_ID (rpc_message nt se req)) r sys')))"
  using assms by (simp add: handleRPCRequest_def)

lemma listen_executes:
  assumes "nt_params nt (method_of req) (nt_encode nt req) = Inr req" and "arrives nt self (rpc_message nt se req) sys"
  obtains sys1 where "strip sys1 = strip sys"
    "listenForMessages nt se self (rpc_message nt se req) sys =
      (case call se self req sys1 of
         (None, s2) \<Rightarrow> (None, s2)
       | (Some r, s2) \<Rightarrow> (case sendRPCResponse nt self (rm_ID (rpc_message nt se req)) r s2 of (resp, s3) \<Rightarrow> (Some resp, s3)))"
proof -
  let ?sys1 = "charge self (count_received (min (nt_size nt (rpc_message nt se req)) bufferSize)) sys"
  obtain h where "sy_cluster ?sys1 self = Some h" using assms(2) by (fastforce simp: arrives_def)
  then obtain x where x: "serve se self req ?sys1 = Some x" by (simp add: serve_def)
  have "listenForMessages nt se self (rpc_message nt se req) sys =
      (case call se self req ?sys1 of
         (None, s2) \<Rightarrow> (None, s2)
       | (Some r, s2) \<Rightarrow> (case sendRPCResponse nt self (rm_ID (rpc_message nt se req)) r s2 of (resp, s3) \<Rightarrow> (Some resp, s3)))"
    using assms(2) x
    by (auto simp: listenForMessages_def arrives_def Let_def handleRPCRequest_served [OF assms(1)] call_def
        split: sum.split prod.split)
  then show thesis using that [of ?sys1] by simp
qed

lemma makeRPCCall_executes:
  assumes "nt_params nt (method_of req) (nt_encode nt req) = Inr req" and "arrives nt address (rpc_message nt se req) sys"
  obtains sys1 where "strip sys1 = strip sys"
    "strip (snd (makeRPCCall nt se caller address req sys)) = strip (snd (call se address req sys1))"
    "\<And>r. fst (makeRPCCall nt se caller address req sys) = Inr r \<Longrightarrow> fst (call se address req sys1) = Some r"
    "\<And>r. fst (call se address req sys1) = Some r \<Longrightarrow> (\<And>resp. \<not> nt_rlost nt resp) \<Longrightarrow>
       fst (makeRPCCall nt se caller address req sys) = Inr r"
proof -
  let ?m = "rpc_message nt se req" and ?sys = "charge caller (count_sent (nt_size nt (rpc_message nt se req))) sys"
  have "arrives nt address ?m ?sys" using assms(2) by (simp add: arrives_def)
  from listen_executes [OF assms(1) this] obtain sys1 where s: "strip sys1 = strip ?sys"
    "listenForMessages nt se address ?m ?sys =
      (case call se address req sys1 of
         (None, s2) \<Rightarrow> (None, s2)
       | (Some r, s2) \<Rightarrow> (case sendRPCResponse nt address (rm_ID ?m) r s2 of (resp, s3) \<Rightarrow> (Some resp, s3)))" by blast
  obtain ro s2 where c: "call se address req sys1 = (ro, s2)" by fastforce
  have nl: "\<not> nt_lost nt ?m" using assms(2) by (simp add: arrives_def)
  show thesis
  proof (cases ro)
    case None
    then have "makeRPCCall nt se caller address req sys = (Inl ''read error: i/o timeout'', s2)"
      by (simp add: makeRPCCall_msg Let_def nl s(2) c)
    with that [of sys1] s(1) c None show thesis by simp
  next
    case (Some r)
    obtain resp s3 where resp: "sendRPCResponse nt address (rm_ID ?m) r s2 = (resp, s3)" by fastforce
    then have f: "rr_Error resp = []" "rr_Result resp = Some r" "strip s3 = strip s2"
      using send_fields(1,2) [of nt address "rm_ID ?m" r s2] strip_send(2) [of nt address "rm_ID ?m" r s2] by simp_all
    have "makeRPCCall nt se caller address req sys =
        (if nt_rlost nt resp then (Inl ''read error: i/o timeout'', s3)
         else (Inr r, charge caller (count_received (nt_rsize nt resp)) s3))"
      by (simp add: makeRPCCall_msg Let_def nl s(2) c Some resp f)
    with that [of sys1] s(1) c Some f(3) show thesis by (simp split: if_splits)
  qed
qed

lemma listen_ignores:
  assumes "\<not> arrives nt self msg sys" and "\<not> nt_lost nt msg"
  shows "(\<forall>resp. fst (listenForMessages nt se self msg sys) = Some resp \<longrightarrow> rr_Error resp \<noteq> []) \<and>
    strip (snd (listenForMessages nt se self msg sys)) = strip sys"
  using assms
  by (auto simp: listenForMessages_def arrives_def Let_def handleRPCRequest_def sendRPCError_def)

lemma makeRPCCall_not_arrived:
  assumes "\<not> arrives nt address (rpc_message nt se req) sys"
  shows "(\<exists>e. fst (makeRPCCall nt se caller address req sys) = Inl e) \<and>
    strip (snd (makeRPCCall nt se caller address req sys)) = strip sys"
proof (cases "nt_lost nt (rpc_message nt se req)")
  case True
  then show ?thesis by (simp add: makeRPCCall_msg Let_def)
next
  case False
  let ?sys = "charge caller (count_sent (nt_size nt (rpc_message nt se req))) sys"
  obtain ro s2 where l: "listenForMessages nt se address (rpc_message nt se req) ?sys = (ro, s2)" by fastforce
  have "\<not> arrives nt address (rpc_message nt se req) ?sys" using assms by (simp add: arrives_def)
  from listen_ignores [OF this False, of se] l
  have "\<And>resp. ro = Some resp \<Longrightarrow> rr_Error resp \<noteq> []" "strip s2 = strip sys" by simp_all
  then show ?thesis by (cases ro) (auto simp: makeRPCCall_msg Let_def False l)
qed



text \<open>A network that loses nothing, for the instances: a request is encoded as its method's name.\<close>

definition rpcNet :: net where
  "rpcNet = \<lparr>nt_encode = (\<lambda>_. JNull), nt_params = (\<lambda>_ _. Inr (KillTaskRequest ''a'')), nt_size = (\<lambda>_. 40),
     nt_rsize = (\<lambda>_. 60), nt_lost = (\<lambda>_. False), nt_rlost = (\<lambda>_. False), nt_draw = 0, nt_ack_draw = 0\<rparr>"



end
