(* ===== verification/Protocols.thy ===== *)
theory Protocols imports RpcServer begin

text \<open>
  \<open>protocols.go\<close> and the periodic message loop of \<open>server.go\<close>: the round-robin choice of peers, whose state is
  in the package variables of the process, and the gossip and ping rounds. The messages of a round, sent by
  goroutines of their own, are delivered one after the other. \<open>shuf\<close> is the shuffle of \<open>math/rand\<close>.
\<close>

subsection \<open>Choosing peers\<close>

definition candidates_of :: "string list \<Rightarrow> string \<Rightarrow> (string \<rightharpoonup> Member) \<Rightarrow> string list" where
  "candidates_of ids self snapshot =
     List.map_filter (\<lambda>(nodeId, m). if nodeId \<noteq> self \<and> m_Status m \<noteq> StatusDead then Some (MemberID m) else None)
       (entries ids snapshot)"

text \<open>The selection loop: \<open>k\<close> steps of the pointer around the order.\<close>

fun take_next :: "nat \<Rightarrow> string list \<Rightarrow> nat \<Rightarrow> string list \<times> nat" where
  "take_next 0 order p = ([], p)"
| "take_next (Suc k) order p =
     (case take_next k order ((p + 1) mod length order) of (ns, q) \<Rightarrow> (order ! p # ns, q))"

definition selectNextKNodes ::
    "(string list \<Rightarrow> string list) \<Rightarrow> string list \<Rightarrow> nat \<Rightarrow> string \<Rightarrow> (string \<rightharpoonup> Member) \<Rightarrow> Globals \<Rightarrow> string list \<times> Globals" where
  "selectNextKNodes shuf ids k self snapshot g =
     (let candidates = candidates_of ids self snapshot
      in if candidates = [] then ([], g)
         else
           let g = (if length candidates \<noteq> gl_lastMemberCount g \<or> gl_nodeOrder g = []
                    then g\<lparr>gl_nodeOrder := shuf candidates, gl_currentPointer := 0, gl_lastMemberCount := length candidates\<rparr>
                    else g);
               k = min k (length (gl_nodeOrder g))
           in case take_next k (gl_nodeOrder g) (gl_currentPointer g) of
                (ns, q) \<Rightarrow> (ns, g\<lparr>gl_currentPointer := q\<rparr>))"

subsection \<open>Rounds\<close>

definition gossip_member :: "Member \<Rightarrow> Member" where
  "gossip_member m = \<lparr>m_Address = m_Address m, m_Created = m_Created m, m_Status = m_Status m,
     m_Heartbeat = m_Heartbeat m, m_Incarnation = m_Incarnation m, m_LastUpdated = 0, m_Hash = m_Hash m\<rparr>"

definition ping_member :: "Member \<Rightarrow> Member" where
  "ping_member m = (gossip_member m)\<lparr>m_Heartbeat := 0\<rparr>"

definition gossipSend :: "net \<Rightarrow> senv \<Rightarrow> (string list \<Rightarrow> string list) \<Rightarrow> string \<Rightarrow> nat \<Rightarrow> System \<Rightarrow> System" where
  "gossipSend nt se shuf self nodeCount sys =
     (case sy_cluster sys self of
        None \<Rightarrow> sys
      | Some h \<Rightarrow>
          let s = hn_srv h; snapshot = Snapshot (srv_Members s); ids = se_members se snapshot;
              (nodes, g) = selectNextKNodes shuf ids nodeCount (ServerID s) snapshot (sy_globals sys self);
              sys = set_globals self (\<lambda>_. g) sys;
              membersList = map (\<lambda>(_, m). gossip_member m) (entries ids snapshot)
          in fold (\<lambda>nodeId sys. snd (CallGossip nt se self (GetAddressFromID nodeId) (ServerID s) membersList sys)) nodes sys)"

definition ping_peer :: "net \<Rightarrow> senv \<Rightarrow> string \<Rightarrow> string \<Rightarrow> Member list \<Rightarrow> string \<Rightarrow> System \<Rightarrow> System" where
  "ping_peer nt se self selfID membersList nodeId sys =
     (case CallPing nt se self (GetAddressFromID nodeId) selfID membersList sys of
        (Inr (Ack _ members), sys') \<Rightarrow>
          charge self (\<lambda>h. h\<lparr>hn_srv := mergeMembership (gl_Config (sy_globals sys' self)) (le_now (se_lenv se)) (hn_srv h)
            members nodeId\<rparr>) sys'
      | (_, sys') \<Rightarrow> sys')"

definition pingSend :: "net \<Rightarrow> senv \<Rightarrow> (string list \<Rightarrow> string list) \<Rightarrow> string \<Rightarrow> nat \<Rightarrow> System \<Rightarrow> System" where
  "pingSend nt se shuf self nodeCount sys =
     (case sy_cluster sys self of
        None \<Rightarrow> sys
      | Some h \<Rightarrow>
          let s = hn_srv h; snapshot = Snapshot (srv_Members s); ids = se_members se snapshot;
              (nodes, g) = selectNextKNodes shuf ids nodeCount (ServerID s) snapshot (sy_globals sys self);
              sys = set_globals self (\<lambda>_. g) sys;
              membersList = map (\<lambda>(_, m). ping_member m) (entries ids snapshot)
          in fold (ping_peer nt se self (ServerID s) membersList) nodes sys)"

definition sendTimelyMessagesAsPerProtocol :: "net \<Rightarrow> senv \<Rightarrow> (string list \<Rightarrow> string list) \<Rightarrow> string \<Rightarrow> System \<Rightarrow> System" where
  "sendTimelyMessagesAsPerProtocol nt se shuf self sys =
     (let cfg = gl_Config (sy_globals sys self); n = nat (cfg_Fanout cfg)
      in case cfg_Protocol cfg of
          GossipProtocol \<Rightarrow> gossipSend nt se shuf self n sys
        | PingAckProtocol \<Rightarrow> pingSend nt se shuf self n sys
        | OtherProtocol _ \<Rightarrow> sys)"

subsection \<open>Round robin\<close>

lemma take_next_result:
  assumes "p < length order"
  shows "take_next k order p = (map (\<lambda>i. order ! ((p + i) mod length order)) [0..<k], (p + k) mod length order)"
  using assms
proof (induction k arbitrary: p)
  case (Suc k)
  have "(p + 1) mod length order < length order" by (rule mod_less_divisor) (use Suc.prems in linarith)
  note IH = Suc.IH [OF this]
  have e: "((p + 1) mod n + i) mod n = (p + Suc i) mod n" for i n :: nat
    using mod_add_left_eq [of "p + 1" n i] by simp
  have "[0..<Suc k] = 0 # map Suc [0..<k]" by (simp only: upt_conv_Cons [of 0 "Suc k"] map_Suc_upt zero_less_Suc One_nat_def)
  then show ?case using Suc.prems by (simp only: take_next.simps IH e prod.case list.map map_map) (simp add: o_def)
qed simp

text \<open>Repeated rounds over snapshots, with the peers chosen.\<close>

fun rounds ::
    "(string list \<Rightarrow> string list) \<Rightarrow> nat \<Rightarrow> string \<Rightarrow> (string list \<times> (string \<rightharpoonup> Member)) list \<Rightarrow> Globals \<Rightarrow> string list" where
  "rounds shuf k self [] g = []"
| "rounds shuf k self ((ids, snapshot) # ss) g =
     (case selectNextKNodes shuf ids k self snapshot g of (ns, g') \<Rightarrow> ns @ rounds shuf k self ss g')"

definition steady :: "nat \<Rightarrow> string \<Rightarrow> Globals \<Rightarrow> (string list \<times> (string \<rightharpoonup> Member)) list \<Rightarrow> bool" where
  "steady n self g ss \<longleftrightarrow> 0 < n \<and> length (gl_nodeOrder g) = n \<and> gl_lastMemberCount g = n \<and> gl_currentPointer g < n \<and>
     (\<forall>(ids, snapshot) \<in> set ss. length (candidates_of ids self snapshot) = n)"

lemma select_steady:
  assumes "steady n self g ((ids, snapshot) # ss)" and "k \<le> n"
  shows "selectNextKNodes shuf ids k self snapshot g =
    (map (\<lambda>i. gl_nodeOrder g ! ((gl_currentPointer g + i) mod n)) [0..<k], g\<lparr>gl_currentPointer := (gl_currentPointer g + k) mod n\<rparr>)"
proof -
  from assms(1) have s: "0 < n" "length (gl_nodeOrder g) = n" "gl_lastMemberCount g = n" "gl_currentPointer g < n"
    "length (candidates_of ids self snapshot) = n" by (simp_all add: steady_def)
  then have "candidates_of ids self snapshot \<noteq> []" "gl_nodeOrder g \<noteq> []" by auto
  then show ?thesis
    using s take_next_result [of "gl_currentPointer g" "gl_nodeOrder g" k] assms(2)
    by (simp add: selectNextKNodes_def Let_def)
qed

lemma rounds_cycle:
  assumes "steady n self g ss" and "k \<le> n"
  shows "rounds shuf k self ss g =
    map (\<lambda>i. gl_nodeOrder g ! ((gl_currentPointer g + i) mod n)) [0..<k * length ss]"
  using assms(1)
proof (induction ss arbitrary: g)
  case (Cons s ss)
  obtain ids snapshot where s: "s = (ids, snapshot)" by fastforce
  let ?g = "g\<lparr>gl_currentPointer := (gl_currentPointer g + k) mod n\<rparr>"
  have "steady n self ?g ss" using Cons.prems by (auto simp: steady_def)
  note IH = Cons.IH [OF this]
  have "[0..<k * length (s # ss)] = [0..<k] @ [k..<k + k * length ss]"
    using upt_add_eq_append [of 0 k "k * length ss"] by simp
  moreover have "[k..<k + k * length ss] = map (\<lambda>i. i + k) [0..<k * length ss]"
    by (simp add: map_add_upt add.commute)
  ultimately have "[0..<k * length (s # ss)] = [0..<k] @ map (\<lambda>i. i + k) [0..<k * length ss]" by (simp only:)
  moreover have "((gl_currentPointer g + k) mod n + i) mod n = (gl_currentPointer g + (i + k)) mod n" for i
    using mod_add_left_eq [of "gl_currentPointer g + k" n i] by (simp add: ac_simps)
  ultimately show ?case
    by (simp add: s select_steady [OF Cons.prems [unfolded s] assms(2)] IH del: mult_Suc_right)
qed simp

lemma add_mod_cancel:
  fixes i j :: nat
  assumes "i < n" "j < n" "(p + i) mod n = (p + j) mod n"
  shows "i \<le> j"
proof (rule ccontr)
  assume "\<not> i \<le> j"
  then have "n dvd i - j" using assms(3) mod_eq_dvd_iff_nat [of "p + j" "p + i" n] by simp
  with \<open>\<not> i \<le> j\<close> have "n \<le> i - j" by (intro dvd_imp_le) simp_all
  with assms(1) show False by simp
qed

text \<open>
  C32: while the number of peers does not change, \<open>\<lceil>n / k\<rceil>\<close> consecutive rounds of \<open>k\<close> peers reach
  every peer of the order, and no peer is reached again before all others were.
\<close>

theorem round_robin_reaches_every_peer:
  assumes "steady n self g ss" and "k \<le> n"
  shows "(n \<le> k * length ss \<longrightarrow> set (rounds shuf k self ss g) = set (gl_nodeOrder g)) \<and>
    (k * length ss \<le> n \<and> distinct (gl_nodeOrder g) \<longrightarrow> distinct (rounds shuf k self ss g))"
proof -
  from assms(1) have n: "0 < n" "length (gl_nodeOrder g) = n" "gl_currentPointer g < n" by (simp_all add: steady_def)
  let ?p = "gl_currentPointer g" and ?o = "gl_nodeOrder g"
  have "set ?o \<subseteq> set (rounds shuf k self ss g)" if le: "n \<le> k * length ss"
  proof
    fix x assume "x \<in> set ?o"
    then obtain j where j: "j < n" "x = ?o ! j" using n(2) by (auto simp: in_set_conv_nth)
    define i where "i = (j + n - ?p) mod n"
    have "i < n" unfolding i_def by (rule mod_less_divisor [OF n(1)])
    then have "i < k * length ss" using le by (rule less_le_trans)
    moreover have "(?p + i) mod n = j"
      using j(1) n by (simp add: i_def mod_add_right_eq)
    ultimately show "x \<in> set (rounds shuf k self ss g)" by (auto simp: rounds_cycle [OF assms] j(2) image_iff intro!: bexI [of _ i])
  qed
  moreover have "set (rounds shuf k self ss g) \<subseteq> set ?o"
  proof
    fix x assume "x \<in> set (rounds shuf k self ss g)"
    then obtain i where "x = ?o ! ((?p + i) mod n)" by (auto simp: rounds_cycle [OF assms])
    moreover have "(?p + i) mod n < length ?o" unfolding n(2) by (rule mod_less_divisor [OF n(1)])
    ultimately show "x \<in> set ?o" by simp
  qed
  moreover have "distinct (rounds shuf k self ss g)" if le: "k * length ss \<le> n" and d: "distinct ?o"
  proof -
    have "i = j" if "i < n" "j < n" "(?p + i) mod n = (?p + j) mod n" for i j
      using add_mod_cancel [OF that] add_mod_cancel [OF that(2,1) that(3) [symmetric]] by simp
    note inj = this
    have lt: "(?p + i) mod n < length ?o" for i unfolding n(2) by (rule mod_less_divisor [OF n(1)])
    show ?thesis unfolding rounds_cycle [OF assms] distinct_map
    proof (intro conjI inj_onI)
      fix i j assume ij: "i \<in> set [0..<k * length ss]" "j \<in> set [0..<k * length ss]"
        "?o ! ((?p + i) mod n) = ?o ! ((?p + j) mod n)"
      have "(?p + i) mod n = (?p + j) mod n" using nth_eq_iff_index_eq [OF d lt lt] ij(3) by blast
      then show "i = j" using inj [of i j] ij(1,2) le by simp
    qed simp
  qed
  ultimately show ?thesis by blast
qed


theorem round_robin_reaches_every_peer_witness:
  "\<exists>g ss. steady 2 ''n1:8080-0'' g ss \<and> set (rounds rev 1 ''n1:8080-0'' ss g) = {''a-0'', ''b-0''}"
proof -
  let ?m = "\<lambda>a. zeroMember\<lparr>m_Address := a, m_Created := 62135596800000000000\<rparr>"
  let ?snap = "[''a-0'' \<mapsto> ?m ''a'', ''b-0'' \<mapsto> ?m ''b'']" and ?g = "initialGlobals\<lparr>gl_nodeOrder := [''b-0'', ''a-0''],
    gl_lastMemberCount := 2\<rparr>" and ?ids = "[''a-0'', ''b-0'']"
  have "m_Status zeroMember \<noteq> StatusDead" by code_simp
  then have "steady 2 ''n1:8080-0'' ?g [(?ids, ?snap), (?ids, ?snap)]"
    by (simp add: steady_def initialGlobals_def candidates_of_def entries_def List.map_filter_def)
  moreover from this round_robin_reaches_every_peer [of 2 "''n1:8080-0''" ?g "[(?ids, ?snap), (?ids, ?snap)]" 1 rev]
  have "set (rounds rev 1 ''n1:8080-0'' [(?ids, ?snap), (?ids, ?snap)] ?g) = {''a-0'', ''b-0''}" by auto
  ultimately show ?thesis by blast
qed

text \<open>A peer that replaced another one is not chosen: the order only changes with the number of peers.\<close>

lemma replaced_peer_is_not_chosen:
  assumes "steady n self g ((ids, snapshot) # ss)" "k \<le> n" "x \<notin> set (gl_nodeOrder g)"
  shows "x \<notin> set (fst (selectNextKNodes shuf ids k self snapshot g))"
proof -
  have "0 < n" "length (gl_nodeOrder g) = n" using assms(1) by (simp_all add: steady_def)
  then have "gl_nodeOrder g ! ((gl_currentPointer g + i) mod n) \<in> set (gl_nodeOrder g)" for i
    by (metis mod_less_divisor nth_mem)
  with assms(3) show ?thesis by (auto simp: select_steady [OF assms(1,2)])
qed

subsection \<open>What a message changes\<close>

lemma strip_fields:
  assumes "strip s1 = strip s2"
  shows "sy_globals s1 = sy_globals s2" "sy_world s1 = sy_world s2" "sy_commands s1 = sy_commands s2"
    "map_option strip_node (sy_cluster s1 a) = map_option strip_node (sy_cluster s2 a)"
proof -
  have f: "f (strip s1) = f (strip s2)" for f :: "System \<Rightarrow> 'b" using assms by simp
  show "sy_globals s1 = sy_globals s2" using f [of sy_globals] by (simp add: strip_def)
  show "sy_world s1 = sy_world s2" using assms by (metis strip_def System.select_convs(3) System.surjective System.update_convs(1))
  show "sy_commands s1 = sy_commands s2" using assms by (metis strip_def System.select_convs(4) System.surjective System.update_convs(1))
  have "sy_cluster (strip s1) a = sy_cluster (strip s2) a" using assms by simp
  then show "map_option strip_node (sy_cluster s1 a) = map_option strip_node (sy_cluster s2 a)" by (simp add: strip_def)
qed

lemma strip_cluster:
  assumes "strip s1 = strip s2" "sy_cluster s2 a = Some h2"
  obtains h1 where "sy_cluster s1 a = Some h1" "strip_node h1 = strip_node h2"
  using strip_fields(4) [OF assms(1), of a] assms(2) by auto

lemma strip_node_eq:
  assumes "strip_node h1 = strip_node h2"
  shows "srv_Members (hn_srv h1) = srv_Members (hn_srv h2)" "srv_Metadata (hn_srv h1) = srv_Metadata (hn_srv h2)"
    "ServerID (hn_srv h1) = ServerID (hn_srv h2)" "srv_Incarnation (hn_srv h1) = srv_Incarnation (hn_srv h2)"
    "srv_IsIntroducer (hn_srv h1) = srv_IsIntroducer (hn_srv h2)" "srv_inv (hn_srv h1) = srv_inv (hn_srv h2)"
proof -
  show m: "srv_Members (hn_srv h1) = srv_Members (hn_srv h2)"
    and d: "srv_Metadata (hn_srv h1) = srv_Metadata (hn_srv h2)"
    and "ServerID (hn_srv h1) = ServerID (hn_srv h2)" and "srv_Incarnation (hn_srv h1) = srv_Incarnation (hn_srv h2)"
    and "srv_IsIntroducer (hn_srv h1) = srv_IsIntroducer (hn_srv h2)"
    using arg_cong [OF assms, of "\<lambda>h. srv_Members (hn_srv h)"] arg_cong [OF assms, of "\<lambda>h. srv_Metadata (hn_srv h)"]
      arg_cong [OF assms, of "\<lambda>h. ServerID (hn_srv h)"] arg_cong [OF assms, of "\<lambda>h. srv_Incarnation (hn_srv h)"]
      arg_cong [OF assms, of "\<lambda>h. srv_IsIntroducer (hn_srv h)"]
    by (simp_all add: strip_node_def ServerID_def)
  from m d show "srv_inv (hn_srv h1) = srv_inv (hn_srv h2)" by (simp add: srv_inv_def)
qed

lemma mergeMembership_entry:
  assumes "srv_inv s" and "cfg_Suspicion cfg = Suspect \<or> cfg_Suspicion cfg = NoSuspect"
    and "distinct (map MemberID rs)" and "r \<in> set rs"
  shows "srv_inv (mergeMembership cfg now s rs sid) \<and>
    Snapshot (srv_Members (mergeMembership cfg now s rs sid)) (MemberID r) =
      merge_entry cfg now s sid (Snapshot (srv_Members s) (MemberID r)) r"
proof -
  have ml: "ml_inv (srv_Members s)" using assms(1) by (simp add: srv_inv_def)
  have base: "MemberID l = k" if "Snapshot (srv_Members s) k = Some l" for k l
    using Snapshot_dom [OF that ml] by simp
  have "report_for rs (MemberID r) = Some r"
    using assms(3,4) by (auto intro!: map_of_is_SomeI simp: comp_def)
  with fold_merge_one [OF assms(1,2) base assms(3) refl, where k = "MemberID r" and now = now and sid = sid]
  show ?thesis by (simp add: mergeMembership_def)
qed

lemma gossip_member_fields [simp]:
  "MemberID (gossip_member m) = MemberID m" "m_Status (gossip_member m) = m_Status m"
  by (simp_all add: gossip_member_def MemberID_def)

text \<open>The members a node sends.\<close>

definition sent_members :: "senv \<Rightarrow> HNode \<Rightarrow> Member list" where
  "sent_members se h = (let snapshot = Snapshot (srv_Members (hn_srv h))
     in map (\<lambda>(_, m). gossip_member m) (entries (se_members se snapshot) snapshot))"

lemma sent_members_ids:
  assumes "ml_inv (srv_Members (hn_srv h))" "visits (se_members se)"
  shows "distinct (map MemberID (sent_members se h)) \<and>
    (\<forall>i m. Snapshot (srv_Members (hn_srv h)) i = Some m \<longrightarrow> gossip_member m \<in> set (sent_members se h) \<and> MemberID m = i)"
proof
  let ?snap = "Snapshot (srv_Members (hn_srv h))"
  have vis: "distinct (se_members se ?snap)" "set (se_members se ?snap) = dom ?snap"
    using visitsD [OF assms(2) finite_Snapshot] by blast+
  have eid: "MemberID m = i" if "(i, m) \<in> set (entries (se_members se ?snap) ?snap)" for i m
    using that Snapshot_dom [OF _ assms(1)] by (simp add: entries_set)
  have "map MemberID (sent_members se h) = map fst (entries (se_members se ?snap) ?snap)"
    using eid by (auto simp: sent_members_def Let_def)
  then show "distinct (map MemberID (sent_members se h))" using vis(1) by (simp add: entries_keys)
  show "\<forall>i m. ?snap i = Some m \<longrightarrow> gossip_member m \<in> set (sent_members se h) \<and> MemberID m = i"
    using vis(2) Snapshot_dom [OF _ assms(1)] by (force simp: sent_members_def Let_def entries_set)
qed

text \<open>
  C24: a gossip round that chooses one peer and arrives there merges every member the sender knows
  into the peer's list, exactly by the merge rules: afterwards the peer's entry is \<open>merge_entry\<close> of what it had
  and what the sender knew.
\<close>

theorem gossip_round_merges_at_peer:
  assumes h: "sy_cluster sys self = Some h" "ml_inv (srv_Members (hn_srv h))" "visits (se_members se)"
    and chosen: "selectNextKNodes shuf (se_members se (Snapshot (srv_Members (hn_srv h)))) k (ServerID (hn_srv h))
      (Snapshot (srv_Members (hn_srv h))) (sy_globals sys self) = ([n], g)" "a = GetAddressFromID n" "a \<noteq> self"
    and peer: "sy_cluster sys a = Some ht" "srv_inv (hn_srv ht)" "gl_globalServer (sy_globals sys a)"
      "cfg = gl_Config (sy_globals sys a)" "cfg_Suspicion cfg = Suspect \<or> cfg_Suspicion cfg = NoSuspect"
    and msg: "req = GossipRequest (ServerID (hn_srv h)) (sent_members se h)"
      "nt_params nt (method_of req) (nt_encode nt req) = Inr req" "arrives nt a (rpc_message nt se req) sys"
    and known: "Snapshot (srv_Members (hn_srv h)) i = Some m"
  shows "\<exists>ht'. sy_cluster (gossipSend nt se shuf self k sys) a = Some ht' \<and> srv_inv (hn_srv ht') \<and>
    Snapshot (srv_Members (hn_srv ht')) i = merge_entry cfg (le_now (se_lenv se)) (hn_srv ht) (ServerID (hn_srv h))
      (Snapshot (srv_Members (hn_srv ht)) i) (gossip_member m)"
proof -
  let ?sys = "set_globals self (\<lambda>_. g) sys" and ?now = "le_now (se_lenv se)" and ?id = "ServerID (hn_srv h)"
  have g: "sy_globals ?sys a = sy_globals sys a" using chosen(3) by (simp add: set_globals_def)
  have round: "gossipSend nt se shuf self k sys = snd (makeRPCCall nt se self a req ?sys)"
    using h(1) chosen(1) by (simp add: gossipSend_def CallGossip_def msg(1) sent_members_def chosen(2) Let_def)
  have "arrives nt a (rpc_message nt se req) ?sys"
    using msg(3) g by (simp add: arrives_def set_globals_def)
  from makeRPCCall_executes [OF msg(2) this, of self] obtain s1 where s1: "strip s1 = strip ?sys"
    "strip (snd (makeRPCCall nt se self a req ?sys)) = strip (snd (call se a req s1))" by metis
  from strip_cluster [OF s1(1), of a ht] peer(1) obtain h1 where h1: "sy_cluster s1 a = Some h1" "strip_node h1 = strip_node ht"
    by (auto simp: set_globals_def)
  have gs: "sy_globals s1 a = sy_globals sys a" using strip_fields(1) [OF s1(1)] g by simp
  let ?h2 = "h1\<lparr>hn_srv := mergeMembership cfg ?now (hn_srv h1) (sent_members se h) ?id\<rparr>"
  have "sy_cluster (snd (call se a req s1)) a = Some ?h2"
    by (simp add: call_def serve_def h1(1) serve_at_def msg(1) Let_def on_store_def svc_Gossip_def gs peer(3,4))
  from strip_cluster [OF s1(2) this] obtain ht' where ht': "sy_cluster (gossipSend nt se shuf self k sys) a = Some ht'"
    "strip_node ht' = strip_node ?h2" by (auto simp: round)
  note sent = sent_members_ids [OF h(2,3)]
  have "gossip_member m \<in> set (sent_members se h)" "MemberID m = i" using sent known by auto
  with mergeMembership_entry [of "hn_srv h1" cfg "sent_members se h" "gossip_member m" ?now ?id] sent peer(2,5) strip_node_eq(6) [OF h1(2)]
  have r: "srv_inv (hn_srv ?h2) \<and> Snapshot (srv_Members (hn_srv ?h2)) i =
      merge_entry cfg ?now (hn_srv h1) ?id (Snapshot (srv_Members (hn_srv h1)) i) (gossip_member m)" by simp
  moreover have "merge_entry cfg ?now (hn_srv h1) ?id e r = merge_entry cfg ?now (hn_srv ht) ?id e r" for e r
    by (rule merge_entry_cong) (simp_all add: strip_node_eq [OF h1(2)])
  ultimately show ?thesis
    using ht' strip_node_eq(1,6) [OF ht'(2)] strip_node_eq(1) [OF h1(2)] by auto
qed


text \<open>A node \<open>n\<close> that knows the fresh node \<open>p\<close>.\<close>

definition peerMember :: "string \<Rightarrow> Member" where
  "peerMember a = zeroMember\<lparr>m_Address := a, m_Created := 62135596800000000000, m_Status := StatusAlive\<rparr>"

definition peerNode :: "string \<Rightarrow> Member list \<Rightarrow> HNode" where
  "peerNode a ms = demoNode\<lparr>hn_srv := demoServer\<lparr>srv_Addr := a, srv_Members := ms\<rparr>\<rparr>"

definition pairSystem :: System where
  "pairSystem = rpcSystem\<lparr>sy_cluster := [''n'' \<mapsto> peerNode ''n'' [peerMember ''n'', peerMember ''p''],
     ''p'' \<mapsto> peerNode ''p'' [peerMember ''p'']]\<rparr>"

definition pairRequest :: Request where
  "pairRequest = GossipRequest ''n-0'' (sent_members rpcEnv (peerNode ''n'' [peerMember ''n'', peerMember ''p'']))"

lemma dec_0 [simp]: "dec 0 = ''0''"
  by code_simp

lemma pair_ids [simp]:
  "MemberID (peerMember ''n'') = ''n-0''" "MemberID (peerMember ''p'') = ''p-0''"
  "m_Hash (peerMember a) = 0" "m_Status (peerMember a) = StatusAlive" "m_Address (peerMember a) = a"
  by (simp_all add: peerMember_def MemberID_def Unix_def zeroMember_def)

lemma peerNode_fields [simp]:
  "srv_Members (hn_srv (peerNode a ms)) = ms" "ServerID (hn_srv (peerNode ''n'' ms)) = ''n-0''"
  "srv_inv (hn_srv (peerNode a ms)) = ml_inv ms"
  using demoServer_inv(1)
  by (simp_all add: peerNode_def ServerID_def demoServer_def NewServer_def Unix_def srv_inv_def Let_def)

lemma pair_snapshot: "Snapshot [peerMember ''n'', peerMember ''p''] = [''n-0'' \<mapsto> peerMember ''n'', ''p-0'' \<mapsto> peerMember ''p'']"
  by (simp add: Snapshot_def)

lemma pair_choice:
  "\<exists>g. selectNextKNodes id (se_members rpcEnv (Snapshot [peerMember ''n'', peerMember ''p''])) 1 ''n-0''
      (Snapshot [peerMember ''n'', peerMember ''p'']) (sy_globals pairSystem ''n'') = ([''p-0''], g)"
proof -
  have ids: "se_members rpcEnv (Snapshot [peerMember ''n'', peerMember ''p'']) = [''n-0'', ''p-0'']"
  proof -
    have "sorted_list_of_set {''n-0'', ''p-0''} = [''n-0'', ''p-0'']" by code_simp
    then show ?thesis by (simp add: rpcEnv_def pair_snapshot insert_commute)
  qed
  show ?thesis unfolding ids
    by (simp add: selectNextKNodes_def candidates_of_def entries_def List.map_filter_def pair_snapshot pairSystem_def
        rpcSystem_def initialGlobals_def Let_def)
qed

theorem gossip_round_merges_at_peer_witness:
  "\<exists>nt ht'. sy_cluster (gossipSend nt rpcEnv id ''n'' 1 pairSystem) ''p'' = Some ht' \<and>
     Snapshot (srv_Members (hn_srv ht')) ''n-0'' \<noteq> None"
proof -
  let ?nt = "rpcNet\<lparr>nt_params := (\<lambda>_ _. Inr pairRequest)\<rparr>" and ?hn = "peerNode ''n'' [peerMember ''n'', peerMember ''p'']"
  obtain g where g: "selectNextKNodes id (se_members rpcEnv (Snapshot (srv_Members (hn_srv ?hn)))) 1 (ServerID (hn_srv ?hn))
      (Snapshot (srv_Members (hn_srv ?hn))) (sy_globals pairSystem ''n'') = ([''p-0''], g)"
    using pair_choice by auto
  have a: "''p'' = GetAddressFromID ''p-0''" by code_simp
  have ml: "ml_inv [peerMember ''n'', peerMember ''p'']" "ml_inv [peerMember ''p'']" by (simp_all add: ml_inv_def)
  have vis: "visits (se_members rpcEnv)" using visits_sorted by (simp add: rpcEnv_def)
  have "\<exists>ht'. sy_cluster (gossipSend ?nt rpcEnv id ''n'' 1 pairSystem) ''p'' = Some ht' \<and> srv_inv (hn_srv ht') \<and>
      Snapshot (srv_Members (hn_srv ht')) ''n-0'' = merge_entry initialConfig (le_now (se_lenv rpcEnv))
        (hn_srv (peerNode ''p'' [peerMember ''p''])) (ServerID (hn_srv ?hn))
        (Snapshot (srv_Members (hn_srv (peerNode ''p'' [peerMember ''p'']))) ''n-0'') (gossip_member (peerMember ''n''))"
    by (rule gossip_round_merges_at_peer [OF _ _ vis g a])
      (use ml in \<open>simp_all add: pairSystem_def rpcSystem_def initialGlobals_def initialConfig_def pairRequest_def rpcNet_def
         arrives_def bufferSize_def pair_snapshot\<close>)
  moreover have "Snapshot [peerMember ''p''] ''n-0'' = None" by (simp add: Snapshot_def)
  ultimately have "\<exists>ht'. sy_cluster (gossipSend ?nt rpcEnv id ''n'' 1 pairSystem) ''p'' = Some ht' \<and>
      Snapshot (srv_Members (hn_srv ht')) ''n-0'' \<noteq> None"
    by (auto simp: merge_entry_def)
  then show ?thesis by blast
qed

subsection \<open>Joining\<close>

lemma merge_entry_some: "m_Status r \<noteq> StatusDead \<Longrightarrow> \<exists>m. merge_entry cfg now s sid e r = Some m"
  by (simp add: merge_entry_def split: option.split)

text \<open>
  C23: a node whose join reaches the introducer and is answered is an alive member there, runs the
  introducer's protocol and suspicion mode, and knows every member the introducer knows that is not dead.
\<close>

theorem joining_node_and_introducer_know_each_other:
  assumes new: "sy_cluster sys self = Some h" "srv_inv (hn_srv h)" "b = srv_IntroducerAddr (hn_srv h)" "b \<noteq> self"
    and intro: "sy_cluster sys b = Some hb" "srv_IsIntroducer (hn_srv hb)" "ml_inv (srv_Members (hn_srv hb))"
      "cfg_Suspicion (gl_Config (sy_globals sys b)) \<in> {Suspect, NoSuspect}"
    and msg: "req = JoinRequest \<lparr>m_Address = srv_Addr (hn_srv h), m_Created = srv_Created (hn_srv h), m_Status = StatusAlive,
        m_Heartbeat = srv_Heartbeat (hn_srv h), m_Incarnation = srv_Incarnation (hn_srv h),
        m_LastUpdated = le_now (se_lenv se), m_Hash = srv_Hash (hn_srv h)\<rparr>"
      "nt_params nt (method_of req) (nt_encode nt req) = Inr req" "arrives nt b (rpc_message nt se req) sys"
      "\<And>resp. \<not> nt_rlost nt resp"
  shows "\<exists>sys' h' hb' m. notifyIntroducer nt se self sys = (None, sys') \<and> sy_cluster sys' self = Some h' \<and>
    sy_cluster sys' b = Some hb' \<and> Snapshot (srv_Members (hn_srv hb')) (ServerID (hn_srv h)) = Some m \<and>
    m_Status m = StatusAlive \<and>
    cfg_Protocol (gl_Config (sy_globals sys' self)) = cfg_Protocol (gl_Config (sy_globals sys b)) \<and>
    cfg_Suspicion (gl_Config (sy_globals sys' self)) = cfg_Suspicion (gl_Config (sy_globals sys b)) \<and>
    (\<forall>i m. Snapshot (srv_Members (hn_srv hb')) i = Some m \<and> m_Status m \<noteq> StatusDead \<longrightarrow>
       Snapshot (srv_Members (hn_srv h')) i \<noteq> None)"
proof -
  let ?now = "le_now (se_lenv se)" and ?gb = "gl_Config (sy_globals sys b)"
  let ?h = "hn_srv h"
  define self_m where "self_m = \<lparr>m_Address = srv_Addr ?h, m_Created = srv_Created ?h, m_Status = StatusAlive,
    m_Heartbeat = srv_Heartbeat ?h, m_Incarnation = srv_Incarnation ?h, m_LastUpdated = ?now, m_Hash = srv_Hash ?h\<rparr>"
  obtain s1 where s1: "strip s1 = strip sys"
      "strip (snd (makeRPCCall nt se self b req sys)) = strip (snd (call se b req s1))"
      "\<And>r. fst (call se b req s1) = Some r \<Longrightarrow> fst (makeRPCCall nt se self b req sys) = Inr r"
    using makeRPCCall_executes [OF msg(2,3), of self] msg(4) by metis
  from strip_cluster [OF s1(1) intro(1)] obtain hb1 where hb1: "sy_cluster s1 b = Some hb1" "strip_node hb1 = strip_node hb" by blast
  from strip_cluster [OF s1(1) new(1)] obtain h1 where h1: "sy_cluster s1 self = Some h1" "strip_node h1 = strip_node h" by blast
  note b = strip_node_eq [OF hb1(2)]
  have gb: "sy_globals s1 = sy_globals sys" using strip_fields(1) [OF s1(1)] .
  define m where "m = self_m\<lparr>m_Hash := HashToMbits (e_sha1 (se_env se)) ?gb (m_Address self_m), m_LastUpdated := ?now\<rparr>"
  define ms where "ms = AddOrUpdate (srv_Members (hn_srv hb)) m"
  let ?hb2 = "hb1\<lparr>hn_srv := (hn_srv hb1)\<lparr>srv_Members := ms\<rparr>\<rparr>" and ?id = "ServerID (hn_srv hb1)"
  let ?r = "JoinResponse True ''Successfully joined the cluster'' ms (cfg_Protocol ?gb) (cfg_Suspicion ?gb) ?id"
  have call: "call se b req s1 = (Some ?r, s1\<lparr>sy_cluster := (sy_cluster s1)(b \<mapsto> ?hb2)\<rparr>)"
    using intro(2) b(1,5) by (simp add: call_def serve_def hb1(1) serve_at_def msg(1) on_store_def svc_Join_def gb Let_def
        ms_def m_def self_m_def GetAll_def ServerID_def)
  obtain s2 where s2: "makeRPCCall nt se self b req sys = (Inr ?r, s2)" using s1(3) [of ?r] call by (metis fst_conv prod.collapse)
  have st2: "strip s2 = strip (s1\<lparr>sy_cluster := (sy_cluster s1)(b \<mapsto> ?hb2)\<rparr>)" using s1(2) call s2 by simp
  obtain hb3 where hb3: "sy_cluster s2 b = Some hb3" "strip_node hb3 = strip_node ?hb2"
    using strip_cluster [OF st2, of b ?hb2] by auto
  obtain h3 where h3: "sy_cluster s2 self = Some h3" "strip_node h3 = strip_node h1"
    using strip_cluster [OF st2, of self h1] h1(1) new(4) by auto
  define cfg where "cfg = (gl_Config (sy_globals s2 self))\<lparr>cfg_Protocol := cfg_Protocol ?gb, cfg_Suspicion := cfg_Suspicion ?gb\<rparr>"
  define h' where "h' = h3\<lparr>hn_srv := mergeMembership cfg ?now (hn_srv h3) ms ?id\<rparr>"
  define sys' where "sys' = charge self (\<lambda>h. h\<lparr>hn_srv := mergeMembership cfg ?now (hn_srv h) ms ?id\<rparr>)
    (set_globals self (\<lambda>g. g\<lparr>gl_Config := cfg\<rparr>) s2)"
  have run: "notifyIntroducer nt se self sys = (None, sys')"
    using s2 msg(1) by (simp add: notifyIntroducer_def CallJoin_def new(1,3) Let_def sys'_def cfg_def set_globals_def)
  have at: "sy_cluster sys' self = Some h'" "sy_cluster sys' b = Some hb3" "gl_Config (sy_globals sys' self) = cfg"
    using h3(1) hb3(1) new(4) by (simp_all add: sys'_def charge_def set_cluster_def on_node_def set_globals_def h'_def)
  have mem: "srv_Members (hn_srv hb3) = ms" using strip_node_eq(1) [OF hb3(2)] by simp
  have ml: "ml_inv ms" unfolding ms_def by (rule AddOrUpdate_inv [OF intro(3)])
  have id: "MemberID m = ServerID ?h" by (simp add: m_def self_m_def MemberID_def ServerID_def)
  have self: "Snapshot ms (ServerID ?h) = Some m" "m_Status m = StatusAlive"
    by (simp_all add: ms_def AddOrUpdate_Snapshot [OF intro(3)] id) (simp add: m_def self_m_def)
  have inv: "srv_inv (hn_srv h3)" using new(2) strip_node_eq(6) [OF h1(2)] strip_node_eq(6) [OF h3(2)] by simp
  have "Snapshot (srv_Members (hn_srv h')) i \<noteq> None" if i: "Snapshot ms i = Some x" "m_Status x \<noteq> StatusDead" for i x
  proof -
    have x: "x \<in> set ms" "MemberID x = i" using Snapshot_dom [OF i(1) ml] by auto
    have "cfg_Suspicion cfg = Suspect \<or> cfg_Suspicion cfg = NoSuspect" using intro(4) by (auto simp: cfg_def)
    from mergeMembership_entry [OF inv this _ x(1)] ml x(2) i(2) show ?thesis
      by (simp add: h'_def ml_inv_def merge_entry_some)
  qed
  with run at mem self show ?thesis by (auto simp: cfg_def)
qed


definition joinSystem :: System where
  "joinSystem = rpcSystem\<lparr>sy_cluster := [''n1:8080'' \<mapsto> demoNode, ''p'' \<mapsto> peerNode ''p'' [peerMember ''p'']]\<rparr>"

theorem joining_node_and_introducer_know_each_other_witness:
  "\<exists>nt sys' hb' m. notifyIntroducer nt rpcEnv ''p'' joinSystem = (None, sys') \<and> sy_cluster sys' ''n1:8080'' = Some hb' \<and>
     Snapshot (srv_Members (hn_srv hb')) (ServerID (hn_srv (peerNode ''p'' [peerMember ''p'']))) = Some m"
proof -
  let ?h = "hn_srv (peerNode ''p'' [peerMember ''p''])"
  let ?req = "JoinRequest \<lparr>m_Address = srv_Addr ?h, m_Created = srv_Created ?h, m_Status = StatusAlive,
        m_Heartbeat = srv_Heartbeat ?h, m_Incarnation = srv_Incarnation ?h,
        m_LastUpdated = le_now (se_lenv rpcEnv), m_Hash = srv_Hash ?h\<rparr>"
  let ?nt = "rpcNet\<lparr>nt_params := (\<lambda>_ _. Inr ?req)\<rparr>"
  have h: "sy_cluster joinSystem ''p'' = Some (peerNode ''p'' [peerMember ''p''])" "srv_inv ?h" "''n1:8080'' = srv_IntroducerAddr ?h"
    by (simp_all add: joinSystem_def ml_inv_def) (simp add: peerNode_def demoServer_def NewServer_def Let_def)
  have b: "sy_cluster joinSystem ''n1:8080'' = Some demoNode" "srv_IsIntroducer (hn_srv demoNode)" "ml_inv (srv_Members (hn_srv demoNode))"
    by (simp_all add: joinSystem_def demoNode_def) (simp add: demoServer_def NewServer_def Let_def)
  have g: "cfg_Suspicion (gl_Config (sy_globals joinSystem ''n1:8080'')) \<in> {Suspect, NoSuspect}"
    by (simp add: joinSystem_def rpcSystem_def initialGlobals_def initialConfig_def)
  have "arrives ?nt ''n1:8080'' (rpc_message ?nt rpcEnv ?req) joinSystem"
    by (simp add: arrives_def joinSystem_def rpcSystem_def initialGlobals_def rpcNet_def bufferSize_def)
  with joining_node_and_introducer_know_each_other [OF h _ b g refl, of ?nt] show ?thesis
    by (fastforce simp: rpcNet_def)
qed

end
