(* ===== verification/ClusterSteps.thy ===== *)
theory ClusterSteps imports Stabilization begin

text \<open>
  What no file operation does: it leaves the membership side of every node alone, starts no node, and keeps
  every node's metadata well formed. \<open>store_step\<close> states this of one node, \<open>cluster_step\<close> of a cluster;
  both are reflexive and transitive, so the lemmas about composed operations follow the code's composition.
\<close>

definition membership_side :: "HNode \<Rightarrow> Server" where
  "membership_side h = (hn_srv h)\<lparr>srv_Bandwidth := \<lparr>bs_BytesSent = 0, bs_BytesReceived = 0\<rparr>, srv_Metadata := emptyMetadata\<rparr>"

definition store_step :: "HNode \<Rightarrow> HNode \<Rightarrow> bool" where
  "store_step h h' \<longleftrightarrow> membership_side h' = membership_side h \<and> (md_inv (hn_Metadata h) \<longrightarrow> md_inv (hn_Metadata h'))"

definition cluster_step :: "cluster \<Rightarrow> cluster \<Rightarrow> bool" where
  "cluster_step cl cl' \<longleftrightarrow> (\<forall>a h'. cl' a = Some h' \<longrightarrow> (\<exists>h. cl a = Some h \<and> store_step h h'))"

named_theorems stepping

lemma store_step_refl [simp, intro]: "store_step h h"
  by (simp add: store_step_def)

lemma store_step_trans [trans]: "store_step a b \<Longrightarrow> store_step b c \<Longrightarrow> store_step a c"
  by (simp add: store_step_def)

lemma cluster_step_refl [simp, intro]: "cluster_step cl cl"
  by (auto simp: cluster_step_def)

lemma cluster_step_trans [trans]: "cluster_step a b \<Longrightarrow> cluster_step b c \<Longrightarrow> cluster_step a c"
  unfolding cluster_step_def by (meson store_step_trans)

lemma cluster_step_upd: "cl a = Some h \<Longrightarrow> store_step h h' \<Longrightarrow> cluster_step cl (cl(a \<mapsto> h'))"
  by (auto simp: cluster_step_def)

lemma cluster_step_del: "cluster_step cl (cl(a := None))"
  by (auto simp: cluster_step_def)

lemma cluster_step_on: "(\<And>h. store_step h (f h)) \<Longrightarrow> cluster_step cl (on_node a f cl)"
  by (auto simp: on_node_def cluster_step_upd split: option.split)

lemma cluster_step_fold: "(\<And>x cl. cluster_step cl (f x cl)) \<Longrightarrow> cluster_step cl (fold f xs cl)"
  by (induction xs arbitrary: cl) (auto intro: cluster_step_trans)

lemma store_step_fold: "(\<And>x h. store_step h (f x h)) \<Longrightarrow> store_step h (fold f xs h)"
  by (induction xs arbitrary: h) (auto intro: store_step_trans)

subsection \<open>One node\<close>

lemma store_step_basic [stepping]:
  "store_step h (count_sent n h)" "store_step h (count_received n h)"
  "store_step h (h\<lparr>hn_disk := d\<rparr>)" "store_step h (write_dir dir name c h)"
  by (simp_all add: store_step_def membership_side_def count_sent_def count_received_def write_dir_def split: directory.split)

lemma store_step_metadata:
  "(md_inv (hn_Metadata h) \<Longrightarrow> md_inv (f (hn_Metadata h))) \<Longrightarrow> store_step h (with_metadata f h)"
  by (simp add: store_step_def membership_side_def with_metadata_def)

lemma store_step_remove: "store_step h (remove_names ns h)"
  by (simp add: store_step_def membership_side_def remove_names_def)

lemma recv_file_step: "store_step h (snd (fold recv_file_chunk chunks (u, h)))"
proof (induction chunks arbitrary: u h)
  case (Cons c chunks)
  obtain u1 where u1: "recv_file_chunk c (u, h) = (u1, count_received (length (fc_Data c)) h)"
    by (cases u) (auto simp: recv_file_chunk_def Let_def)
  then show ?case using Cons [of "count_received (length (fc_Data c)) h" u1] store_step_trans [OF store_step_basic(2)] by simp
qed simp

lemma recv_append_step: "store_step h (snd (fold recv_append_chunk chunks (u, h)))"
proof (induction chunks arbitrary: u h)
  case (Cons c chunks)
  obtain u1 where u1: "recv_append_chunk c (u, h) = (u1, count_received (length (ac_Data c)) h)"
    by (cases u) (auto simp: recv_append_chunk_def Let_def)
  then show ?case using Cons [of "count_received (length (ac_Data c)) h" u1] store_step_trans [OF store_step_basic(2)] by simp
qed simp

lemma saveFile_step: "saveFile mk wr data meta h = Inr h' \<Longrightarrow> store_step h h'"
  by (auto simp: saveFile_def store_step_def membership_side_def with_metadata_def AddFile_inv split: option.splits)

lemma FileTransfer_step: "FileTransfer mk wr chunks err h = Inr (st, h') \<Longrightarrow> store_step h h'"
proof -
  assume t: "FileTransfer mk wr chunks err h = Inr (st, h')"
  obtain f m d h1 where r: "fold recv_file_chunk chunks (([], None, []), h) = ((f, m, d), h1)"
    by (metis prod.collapse)
  have "store_step h h1" using recv_file_step [of h chunks "([], None, [])"] by (simp add: r)
  moreover have "store_step h1 h'"
    using t by (auto simp: FileTransfer_def r Let_def saveFile_step split: option.splits if_splits sum.splits go_err.splits)
  ultimately show ?thesis by (rule store_step_trans)
qed

lemma AppendTransfer_step: "store_step h (snd (AppendTransfer mk wr chunks err h))"
proof -
  obtain f d h1 where r: "fold recv_append_chunk chunks ((None, []), h) = ((f, d), h1)"
    by (metis prod.collapse)
  have "store_step h h1" using recv_append_step [of h chunks "(None, [])"] by (simp add: r)
  moreover have "store_step h1 (snd (AppendTransfer mk wr chunks err h))"
  proof -
    have w: "store_step h1 (with_metadata (\<lambda>_. m) (h1\<lparr>hn_disk := d\<rparr>))" if "AppendToFile (hn_Metadata h1) n a = Inr m" for m n a d
      using AppendToFile_inv [OF _ that] by (simp add: store_step_def membership_side_def with_metadata_def)
    show ?thesis
      by (auto simp: AppendTransfer_def r Let_def store_step_basic w split: option.split prod.split sum.split)
  qed
  ultimately show ?thesis by (rule store_step_trans)
qed

lemma UpdateAppendOrder_step: "store_step h (snd (svc_UpdateAppendOrder n order h))"
  by (auto simp: svc_UpdateAppendOrder_def AddFile_inv intro: store_step_metadata split: option.split)

lemma Hydfs_GetFile_step: "Hydfs_GetFile n h = Inr (chunks, h') \<Longrightarrow> store_step h h'"
  by (auto simp: Hydfs_GetFile_def Let_def store_step_basic simp del: send_paths.simps intro!: store_step_fold
      split: option.splits)

lemma delete_step: "store_step h (delete_if_outside a b n h)"
proof -
  have "store_step h (with_metadata (\<lambda>m. snd (DeleteFile m n)) (remove_names ns h))" for ns
    by (rule store_step_trans [OF store_step_remove store_step_metadata]) (rule DeleteFile_inv)
  then show ?thesis by (simp add: delete_if_outside_def split: option.split)
qed

lemma deleteFilesOutsideMyRange_step: "deleteFilesOutsideMyRange e h = Inr h' \<Longrightarrow> store_step h h'"
  by (auto simp: deleteFilesOutsideMyRange_def Let_def intro!: store_step_fold delete_step split: if_splits option.splits sum.splits)


subsection \<open>Transfers\<close>

lemma cluster_step_snd_fold:
  assumes "\<And>x n cl. cluster_step cl (snd (f x (n, cl)))"
  shows "cluster_step cl (snd (fold f xs (n, cl)))"
proof (induction xs arbitrary: n cl)
  case (Cons x xs)
  obtain n1 cl1 where f: "f x (n, cl) = (n1, cl1)" by fastforce
  have "cluster_step cl cl1" using assms [of cl x n] f by simp
  with Cons.IH f show ?case by (auto intro: cluster_step_trans)
qed simp

lemma charged: "cluster_step cl cl' \<Longrightarrow> (\<And>h. store_step h (f h)) \<Longrightarrow> cluster_step cl (on_node a f cl')"
  using cluster_step_on cluster_step_trans by blast

lemma SendFileToNode_step [stepping]: "cluster_step cl (snd (SendFileToNode self a data meta cl))"
proof (cases "cl a")
  case None
  then show ?thesis by (simp add: SendFileToNode_def)
next
  case (Some h)
  have c: "store_step n (fold (\<lambda>c. count_sent (length (fc_Data c))) cs n)" for cs n
    by (rule store_step_fold) (rule store_step_basic)
  show ?thesis
  proof (cases "FileTransfer None None (file_chunks data meta) None h")
    case (Inl e)
    then show ?thesis by (simp add: SendFileToNode_def Some charged [OF cluster_step_del c])
  next
    case (Inr r)
    then have "cluster_step cl (cl(a \<mapsto> snd r))"
      by (intro cluster_step_upd [where cl = cl, OF Some]) (cases r, simp add: FileTransfer_step)
    with Inr show ?thesis by (cases r) (simp add: SendFileToNode_def Some charged [OF _ c])
  qed
qed

lemma SendAppendToNode_step [stepping]: "cluster_step cl (snd (SendAppendToNode self a data app cl))"
proof (cases "cl a")
  case None
  then show ?thesis by (simp add: SendAppendToNode_def)
next
  case (Some h)
  have c: "store_step n (fold (\<lambda>c. count_sent (length (ac_Data c))) cs n)" for cs n
    by (rule store_step_fold) (rule store_step_basic)
  obtain st h' where t: "AppendTransfer None None (append_chunks data app) None h = (st, h')" by fastforce
  have "cluster_step cl (cl(a \<mapsto> h'))"
    by (rule cluster_step_upd [where cl = cl, OF Some]) (use AppendTransfer_step [of h None None "append_chunks data app" None] t in simp)
  with t show ?thesis by (simp add: SendAppendToNode_def Some Let_def charged [OF _ c])
qed

lemma ReceiveFileFromNode_step [stepping]: "cluster_step cl (snd (ReceiveFileFromNode self a n dir path cl))"
proof -
  have fail: "cluster_step cl (on_node self (write_dir dir (Base path) None) cl)"
    by (rule cluster_step_on) (rule store_step_basic)
  have c: "store_step m (write_dir dir p d (fold (\<lambda>c. count_received (length (fc_Data c))) cs m))" for cs m p d
    by (rule store_step_trans [OF store_step_fold store_step_basic(4)]) (rule store_step_basic)
  show ?thesis
  proof (cases "cl a")
    case None
    with fail show ?thesis by (simp add: ReceiveFileFromNode_def)
  next
    case (Some h)
    show ?thesis
    proof (cases "Hydfs_GetFile n h")
      case (Inl e)
      with fail Some show ?thesis by (simp add: ReceiveFileFromNode_def)
    next
      case (Inr r)
      then have "cluster_step cl (cl(a \<mapsto> snd r))"
        by (intro cluster_step_upd [where cl = cl, OF Some]) (cases r, simp add: Hydfs_GetFile_step)
      with Inr Some show ?thesis by (cases r) (simp add: ReceiveFileFromNode_def Let_def charged [OF _ c])
    qed
  qed
qed

lemma send_all_step:
  "(\<And>a cl. cluster_step cl (snd (send a cl))) \<Longrightarrow> cluster_step cl (snd (send_all send targets cl))"
  unfolding send_all_def by (rule cluster_step_snd_fold) (simp add: Let_def case_prod_unfold)

lemma try_replicas_step:
  "(\<And>a cl. cluster_step cl (snd (download a cl))) \<Longrightarrow> cluster_step cl (snd (try_replicas download ms cl))"
proof (induction ms arbitrary: cl)
  case (Cons m ms)
  obtain ok cl1 where d: "download (m_Address m) cl = (ok, cl1)" by fastforce
  have "cluster_step cl cl1" using Cons.prems [of cl "m_Address m"] d by simp
  with Cons d show ?case by (auto intro: cluster_step_trans)
qed simp

lemma client_operations_step [stepping]:
  "cluster_step cl (snd (handleCreate e now self l f cl))"
  "cluster_step cl (snd (handleAppend e now self l f cl))"
  "cluster_step cl (snd (handleGet e self f l cl))"
  "cluster_step cl (snd (handleGetFromReplica self vm f l cl))"
  "cluster_step cl (snd (AppendOrCreateFromBuffer e now self f d cl))"
  by (simp_all add: handleCreate_def handleAppend_def handleGet_def handleGetFromReplica_def AppendOrCreateFromBuffer_def
      Let_def send_all_step try_replicas_step stepping split: option.split)

lemma handleMultiAppend_step [stepping]: "cluster_step cl (snd (handleMultiAppend e nows f vms ls cl))"
  unfolding handleMultiAppend_def
  by (rule cluster_step_snd_fold) (simp add: Let_def case_prod_unfold stepping split: option.split)

subsection \<open>Stabilization and merge\<close>

lemma push_append_step [stepping]: "cluster_step cl (push_append self a ids app cl)"
  by (simp add: push_append_def stepping split: option.split)

lemma push_file_step [stepping]: "cluster_step cl (push_file self a files f cl)"
proof -
  have "cluster_step cl (fold (push_append self a ids) apps (snd (SendFileToNode self a d m cl)))" for ids apps d m
    by (rule cluster_step_trans [OF SendFileToNode_step cluster_step_fold]) (rule push_append_step)
  then show ?thesis
    by (auto simp: push_file_def Let_def stepping intro!: cluster_step_fold split: option.split)
qed

lemma pull_append_step [stepping]: "cluster_step cl (pull_append self a f ids app cl)"
proof -
  obtain ok cl1 where r: "ReceiveFileFromNode self a (ap_AppendID app) HydfsDir (ap_AppendID app) cl = (ok, cl1)" by fastforce
  have s: "cluster_step cl cl1" using ReceiveFileFromNode_step [of cl self a "ap_AppendID app" HydfsDir "ap_AppendID app"] r by simp
  have "store_step h (case AppendToFile (hn_Metadata h) f app of Inl _ \<Rightarrow> h | Inr m \<Rightarrow> with_metadata (\<lambda>_. m) h)" for h
    using AppendToFile_inv by (auto intro: store_step_metadata split: sum.split)
  with s r show ?thesis by (simp add: pull_append_def Let_def charged)
qed

lemma pull_file_step [stepping]: "cluster_step cl (pull_file self a f meta cl)"
proof -
  obtain ok cl1 where r: "ReceiveFileFromNode self a f HydfsDir f cl = (ok, cl1)" by fastforce
  have s: "cluster_step cl cl1" using ReceiveFileFromNode_step [of cl self a f HydfsDir f] r by simp
  have "cluster_step cl (on_node self (with_metadata (\<lambda>m. AddFile m (meta\<lparr>fm_Appends := []\<rparr>))) cl1)"
    by (rule charged [OF s]) (rule store_step_metadata, rule AddFile_inv)
  moreover have "cluster_step c (fold (pull_append self a f ids) apps c)" for c ids apps
    by (rule cluster_step_fold) (rule pull_append_step)
  ultimately show ?thesis
    using s r by (auto simp: pull_file_def Let_def intro: cluster_step_trans)
qed

lemma stabilization_step [stepping]:
  "cluster_step cl (pushFilesToSuccessors e self fs ss x y cl)"
  "cluster_step cl (getFilesFromSuccessors e self ss x y cl)"
  by (auto simp: pushFilesToSuccessors_def getFilesFromSuccessors_def Let_def stepping intro!: cluster_step_fold split: option.split)

lemma stabilizeRing_step [stepping]: "cluster_step cl (stabilizeRing e self f cl)"
  using cluster_step_trans [OF stabilization_step(1) stabilization_step(2)]
  by (simp add: stabilizeRing_def Let_def split: option.split prod.split)

lemma handleReplicationWindowChange_step [stepping]: "cluster_step cl (handleReplicationWindowChange e self i cl)"
  by (simp add: handleReplicationWindowChange_def stepping split: option.split)

lemma merge_parts_step [stepping]:
  "cluster_step cl (snd (ensureRemoteFileInSync e self s f meta cl))"
  "cluster_step cl (syncRemoteAppendOrder s f meta ids cl)"
  by (simp_all add: ensureRemoteFileInSync_def syncRemoteAppendOrder_def stepping cluster_step_upd UpdateAppendOrder_step
      split: option.split)

lemma executeMerge_step [stepping]: "cluster_step cl (executeMerge e self f cl)"
proof -
  have "cluster_step c (let (ok, cl) = ensureRemoteFileInSync e self s f meta c
      in if ok then syncRemoteAppendOrder s f meta ids cl else cl)" for c s meta ids
  proof -
    obtain ok c1 where "ensureRemoteFileInSync e self s f meta c = (ok, c1)" by fastforce
    then show ?thesis using merge_parts_step(1) [of c e self s f meta] merge_parts_step(2) by (auto intro: cluster_step_trans)
  qed
  then show ?thesis by (auto simp: executeMerge_def Let_def intro!: cluster_step_fold split: option.split)
qed

lemma handleMergeCommand_step [stepping]: "cluster_step cl (handleMergeCommand e self f cl)"
  by (simp add: handleMergeCommand_def stepping split: option.split prod.split list.split)

lemma executeMergeForAllFiles_step: "executeMergeForAllFiles e self cl = Inr cl' \<Longrightarrow> cluster_step cl cl'"
  by (auto simp: executeMergeForAllFiles_def Let_def stepping intro!: cluster_step_fold split: option.splits if_splits)

end
