(* ===== verification/FailureDetector.thy ===== *)
theory FailureDetector imports Server begin

text \<open>
  \<open>MembershipList.MarkSuspectIfNeeded\<close> of \<open>membership_list.go\<close>, the periodic failure detector: it
  scans the members, collects the ones to update and the indices to remove, applies both after the
  scan and sorts if anything changed. \<open>checkMember\<close> is the chain of conditions of the loop body; the
  clock is read once. The specification below says what the whole tick does to each member, with no
  reference to the order of the list or to the indices.
\<close>

datatype verdict = Keep | NowSuspect Member | NowDead Member | Cleanup

definition checkMember ::
    "Config \<Rightarrow> string \<Rightarrow> time \<Rightarrow> duration \<Rightarrow> duration \<Rightarrow> duration \<Rightarrow> Member \<Rightarrow> verdict" where
  "checkMember cfg self now suspicionTimeout deadTimeout cleanUpTimeout m =
     (if cfg_Protocol cfg = PingAckProtocol \<and> m_Address m = self then Keep
      else
        let elapsed = time_Sub now (m_LastUpdated m)
        in if m_Status m = StatusAlive \<and> elapsed > suspicionTimeout then
             (case cfg_Suspicion cfg of
                Suspect \<Rightarrow> NowSuspect (MarkSuspect now m)
              | NoSuspect \<Rightarrow> if elapsed > deadTimeout then NowDead (MarkDead now m) else Keep
              | OtherSuspicion _ \<Rightarrow> Keep)
           else if m_Status m = StatusSuspect \<and> elapsed > deadTimeout then NowDead (MarkDead now m)
           else if m_Status m = StatusDead \<and> elapsed > cleanUpTimeout then Cleanup
           else Keep)"

text \<open>State of the scan: members to update, indices to remove, the server, the changed flag.\<close>

type_synonym scan_state = "Member list \<times> nat list \<times> Server \<times> bool"

definition scan_step :: "(Member \<Rightarrow> verdict) \<Rightarrow> nat \<times> Member \<Rightarrow> scan_state \<Rightarrow> scan_state" where
  "scan_step chk im st =
     (case (im, st) of ((i, m), (toUpdate, toRemoveIndices, server, changed)) \<Rightarrow>
        (case chk m of
           Keep \<Rightarrow> st
         | NowSuspect m' \<Rightarrow> (toUpdate @ [m'], toRemoveIndices, server, True)
         | NowDead m' \<Rightarrow> (toUpdate @ [m'], toRemoveIndices, handleDeadNode server m', True)
         | Cleanup \<Rightarrow> (toUpdate, toRemoveIndices @ [i], server, True)))"

definition apply_update :: "Member \<Rightarrow> MembershipList \<Rightarrow> MembershipList" where
  "apply_update member nodes =
     (case member_index (MemberID member) nodes of Some i \<Rightarrow> nodes[i := member] | None \<Rightarrow> nodes)"

definition MarkSuspectIfNeeded ::
    "Config \<Rightarrow> time \<Rightarrow> duration \<Rightarrow> duration \<Rightarrow> duration \<Rightarrow> Server \<Rightarrow> Server \<times> bool" where
  "MarkSuspectIfNeeded cfg now suspicionTimeout deadTimeout cleanUpTimeout s =
     (let chk = checkMember cfg (srv_Addr s) now suspicionTimeout deadTimeout cleanUpTimeout;
          (toUpdate, toRemoveIndices, s', changed) =
            fold (scan_step chk) (enumerate 0 (srv_Members s)) ([], [], s, False);
          nodes = fold apply_update toUpdate (srv_Members s);
          nodes = fold remove_nth (rev toRemoveIndices) nodes;
          nodes = (if changed then sortNodes nodes else nodes)
      in (s'\<lparr>srv_Members := nodes\<rparr>, changed))"

subsection \<open>The scan\<close>

definition updates_of :: "(Member \<Rightarrow> verdict) \<Rightarrow> Member \<Rightarrow> Member list" where
  "updates_of chk m = (case chk m of NowSuspect m' \<Rightarrow> [m'] | NowDead m' \<Rightarrow> [m'] | _ \<Rightarrow> [])"

definition deaths_of :: "(Member \<Rightarrow> verdict) \<Rightarrow> Member \<Rightarrow> Member list" where
  "deaths_of chk m = (case chk m of NowDead m' \<Rightarrow> [m'] | _ \<Rightarrow> [])"

definition updated :: "(Member \<Rightarrow> verdict) \<Rightarrow> Member \<Rightarrow> Member" where
  "updated chk m = (case chk m of NowSuspect m' \<Rightarrow> m' | NowDead m' \<Rightarrow> m' | _ \<Rightarrow> m)"

definition same_id :: "(Member \<Rightarrow> verdict) \<Rightarrow> bool" where
  "same_id chk \<longleftrightarrow> (\<forall>m. MemberID (updated chk m) = MemberID m)"

lemma checkMember_same_id [simp]: "same_id (checkMember cfg self now sT dT cT)"
  by (auto simp: same_id_def updated_def checkMember_def Let_def split: SuspicionType.splits)

lemma checkMember_same_hash:
  "m_Hash (updated (checkMember cfg self now sT dT cT) m) = m_Hash m"
  by (auto simp: updated_def checkMember_def Let_def split: SuspicionType.splits)

lemma scan_result:
  "fold (scan_step chk) (enumerate n xs) (us, rs, s, c) =
     (us @ concat (map (updates_of chk) xs),
      rs @ map fst (filter (\<lambda>im. chk (snd im) = Cleanup) (enumerate n xs)),
      foldl handleDeadNode s (concat (map (deaths_of chk) xs)),
      c \<or> (\<exists>m \<in> set xs. chk m \<noteq> Keep))"
proof (induction xs arbitrary: n us rs s c)
  case (Cons x xs)
  then show ?case
    by (cases "chk x") (simp_all add: scan_step_def updates_of_def deaths_of_def)
qed simp

subsection \<open>Applying updates and removals\<close>

lemma fold_apply_update:
  assumes "same_id chk" and "distinct (map MemberID (pre @ xs))"
  shows "fold apply_update (concat (map (updates_of chk) xs)) (pre @ xs) = pre @ map (updated chk) xs"
  using assms(2)
proof (induction xs arbitrary: pre)
  case (Cons x xs)
  have id: "MemberID (updated chk x) = MemberID x" using assms(1) by (simp add: same_id_def)
  have "MemberID x \<notin> MemberID ` set pre" using Cons.prems by auto
  then have mi: "member_index (MemberID x) (pre @ x # xs) = Some (length pre)"
    by (simp add: member_index_middle)
  have one: "fold apply_update (updates_of chk x) (pre @ x # xs) = (pre @ [updated chk x]) @ xs"
    using mi id by (auto simp: updates_of_def updated_def apply_update_def split: verdict.splits)
  have "distinct (map MemberID ((pre @ [updated chk x]) @ xs))" using Cons.prems id by simp
  from Cons.IH [OF this] one show ?case by simp
qed simp

lemma fold_remove_nth:
  "length pre = n \<Longrightarrow>
    fold remove_nth (rev (map fst (filter (\<lambda>im. P (snd im)) (enumerate n xs)))) (pre @ map g xs) =
    pre @ map g (filter (\<lambda>x. \<not> P x) xs)"
proof (induction xs arbitrary: pre n)
  case (Cons x xs)
  have "fold remove_nth (rev (map fst (filter (\<lambda>im. P (snd im)) (enumerate (Suc n) xs))))
      ((pre @ [g x]) @ map g xs) = (pre @ [g x]) @ map g (filter (\<lambda>x. \<not> P x) xs)"
    using Cons.prems by (intro Cons.IH) simp
  with Cons.prems show ?case by (simp add: remove_nth_middle)
qed simp

subsection \<open>What a tick does\<close>

definition tick_list :: "(Member \<Rightarrow> verdict) \<Rightarrow> MembershipList \<Rightarrow> MembershipList" where
  "tick_list chk xs = map (updated chk) (filter (\<lambda>m. chk m \<noteq> Cleanup) xs)"

lemma MarkSuspectIfNeeded_eq:
  assumes "ml_inv (srv_Members s)"
    and chk: "chk = checkMember cfg (srv_Addr s) now sT dT cT"
    and ch: "ch \<longleftrightarrow> (\<exists>m \<in> set (srv_Members s). chk m \<noteq> Keep)"
  shows "MarkSuspectIfNeeded cfg now sT dT cT s =
    ((foldl handleDeadNode s (concat (map (deaths_of chk) (srv_Members s))))
       \<lparr>srv_Members := if ch then sortNodes (tick_list chk (srv_Members s)) else srv_Members s\<rparr>, ch)"
proof -
  let ?xs = "srv_Members s"
  have d: "distinct (map MemberID ([] @ ?xs))" using assms by (simp add: ml_inv_def)
  have "same_id chk" by (simp add: chk)
  note up = fold_apply_update [OF this d, simplified]
  have rem: "fold remove_nth (rev (map fst (filter (\<lambda>im. chk (snd im) = Cleanup) (enumerate 0 ?xs))))
      (map (updated chk) ?xs) = tick_list chk ?xs"
    using fold_remove_nth [of "[]" 0 "\<lambda>m. chk m = Cleanup" ?xs "updated chk"]
    by (simp add: tick_list_def)
  have keep: "tick_list chk ?xs = ?xs" if "\<not> ch"
    using that by (auto simp: ch tick_list_def updated_def intro!: map_idI split: verdict.splits)
  show ?thesis
    by (simp add: MarkSuspectIfNeeded_def Let_def chk [symmetric] scan_result up rem keep ch)
qed

lemma tick_list_distinct:
  "same_id chk \<Longrightarrow> distinct (map MemberID xs) \<Longrightarrow> distinct (map MemberID (tick_list chk xs))"
  by (simp add: tick_list_def same_id_def comp_def distinct_map_filter)

definition tick_entry :: "(Member \<Rightarrow> verdict) \<Rightarrow> Member option \<Rightarrow> Member option" where
  "tick_entry chk e =
     (case e of None \<Rightarrow> None
      | Some m \<Rightarrow> (case chk m of Keep \<Rightarrow> Some m | NowSuspect m' \<Rightarrow> Some m' | NowDead m' \<Rightarrow> Some m'
                             | Cleanup \<Rightarrow> None))"

lemma tick_entry_Some:
  "tick_entry chk e = Some y \<longleftrightarrow> (\<exists>m. e = Some m \<and> chk m \<noteq> Cleanup \<and> updated chk m = y)"
  by (auto simp: tick_entry_def updated_def split: option.splits verdict.splits)

lemma Snapshot_tick_list:
  assumes "same_id chk" and "distinct (map MemberID xs)"
  shows "Snapshot (tick_list chk xs) k = tick_entry chk (Snapshot xs k)"
proof (rule option_eqI)
  fix y
  have "Snapshot (tick_list chk xs) k = Some y \<longleftrightarrow> y \<in> set (tick_list chk xs) \<and> MemberID y = k"
    by (rule Snapshot_Some [OF tick_list_distinct [OF assms]])
  also have "\<dots> \<longleftrightarrow> (\<exists>m. Snapshot xs k = Some m \<and> chk m \<noteq> Cleanup \<and> updated chk m = y)"
    using assms(1) by (auto simp: tick_list_def Snapshot_Some [OF assms(2)] same_id_def)
  also have "\<dots> \<longleftrightarrow> tick_entry chk (Snapshot xs k) = Some y"
    by (simp add: tick_entry_Some)
  finally show "Snapshot (tick_list chk xs) k = Some y \<longleftrightarrow> tick_entry chk (Snapshot xs k) = Some y" .
qed

lemma foldl_handleDeadNode [simp]:
  "srv_Metadata (foldl handleDeadNode s ms) = srv_Metadata s"
  "srv_Members (foldl handleDeadNode s ms) = srv_Members s"
  "srv_Addr (foldl handleDeadNode s ms) = srv_Addr s"
  "srv_Created (foldl handleDeadNode s ms) = srv_Created s"
  "srv_JoinedPending (foldl handleDeadNode s ms) = srv_JoinedPending s"
  by (induction ms arbitrary: s) simp_all

lemma foldl_handleDeadNode_pending:
  "srv_FailedPending (foldl handleDeadNode s ms) k =
    (if k \<in> MemberID ` set ms then Some FailedNode else srv_FailedPending s k)"
  by (induction ms arbitrary: s) auto

lemma launched_once_foldl: "launched_once s \<Longrightarrow> launched_once (foldl handleDeadNode s ms)"
  by (induction ms arbitrary: s) (auto intro: launched_once_handleDeadNode)

lemma failure_detector_tick:
  assumes "srv_inv s"
  shows "case MarkSuspectIfNeeded cfg now sT dT cT s of (s', changed) \<Rightarrow>
    srv_inv s' \<and>
    (\<forall>k. Snapshot (srv_Members s') k =
       tick_entry (checkMember cfg (srv_Addr s) now sT dT cT) (Snapshot (srv_Members s) k)) \<and>
    (changed \<longleftrightarrow> (\<exists>m \<in> set (srv_Members s). checkMember cfg (srv_Addr s) now sT dT cT m \<noteq> Keep))"
proof -
  define chk where "chk = checkMember cfg (srv_Addr s) now sT dT cT"
  define ch where "ch \<longleftrightarrow> (\<exists>m \<in> set (srv_Members s). chk m \<noteq> Keep)"
  have inv: "ml_inv (srv_Members s)" and md: "md_inv (srv_Metadata s)"
    using assms by (auto simp: srv_inv_def)
  have d: "distinct (map MemberID (srv_Members s))" using inv by (simp add: ml_inv_def)
  have id: "same_id chk" by (simp add: chk_def)
  note dt = tick_list_distinct [OF id d]
  have "Snapshot (srv_Members s) k = tick_entry chk (Snapshot (srv_Members s) k)" if "\<not> ch" for k
    using that Snapshot_Some [OF d, of k]
    by (auto simp: ch_def tick_entry_def split: option.splits verdict.splits)
  then show ?thesis
    using inv md dt
    by (simp add: MarkSuspectIfNeeded_eq [OF inv chk_def ch_def] chk_def [symmetric] ch_def [symmetric] srv_inv_def
        ml_inv_sortNodes Snapshot_sortNodes Snapshot_tick_list [OF id d])
qed

text \<open>
  The specification of a tick, for one entry: what the timeouts and the suspicion mode promise, without the
  list, its indices and the verdicts of the loop.
\<close>

definition silent :: "time \<Rightarrow> duration \<Rightarrow> Member \<Rightarrow> bool" where
  "silent now d m \<longleftrightarrow> d < time_Sub now (m_LastUpdated m)"

definition timeout_spec ::
    "Config \<Rightarrow> string \<Rightarrow> time \<Rightarrow> duration \<Rightarrow> duration \<Rightarrow> duration \<Rightarrow> Member \<Rightarrow> Member option" where
  "timeout_spec cfg self now sT dT cT m =
     (if cfg_Protocol cfg = PingAckProtocol \<and> m_Address m = self then Some m
      else
        case m_Status m of
          StatusAlive \<Rightarrow>
            Some (if cfg_Suspicion cfg = Suspect \<and> silent now sT m
                    then m\<lparr>m_Status := StatusSuspect, m_LastUpdated := now\<rparr>
                  else if cfg_Suspicion cfg = NoSuspect \<and> silent now sT m \<and> silent now dT m
                    then m\<lparr>m_Status := StatusDead, m_LastUpdated := now\<rparr>
                  else m)
        | StatusSuspect \<Rightarrow>
            Some (if silent now dT m then m\<lparr>m_Status := StatusDead, m_LastUpdated := now\<rparr> else m)
        | StatusDead \<Rightarrow> if silent now cT m then None else Some m
        | _ \<Rightarrow> Some m)"

lemma tick_entry_spec:
  "tick_entry (checkMember cfg self now sT dT cT) (Some m) = timeout_spec cfg self now sT dT cT m"
  by (simp add: tick_entry_def checkMember_def timeout_spec_def silent_def Let_def MarkSuspect_def MarkDead_def
      split: Status.split SuspicionType.split)

lemma checkMember_keep:
  "checkMember cfg self now sT dT cT m = Keep \<longleftrightarrow> timeout_spec cfg self now sT dT cT m = Some m"
proof -
  have "m\<lparr>m_Status := x, m_LastUpdated := now\<rparr> \<noteq> m" if "m_Status m \<noteq> x" for x
  proof
    assume "m\<lparr>m_Status := x, m_LastUpdated := now\<rparr> = m"
    then have "m_Status (m\<lparr>m_Status := x, m_LastUpdated := now\<rparr>) = m_Status m" by simp
    with that show False by simp
  qed
  then show ?thesis
    by (simp add: checkMember_def timeout_spec_def silent_def Let_def MarkSuspect_def MarkDead_def
        split: Status.split SuspicionType.split)
qed

text \<open>
  C12: one tick of the failure detector, on a well-formed member list, treats every member
  independently and exactly as its timeouts say: the loop with its deferred updates, its reverse
  removal by index and its final sort implements the pointwise specification \<open>timeout_spec\<close>,
  keeps the list well formed, and reports a change if and only if some entry changed.
\<close>

theorem failure_detector_refines_spec:
  assumes "srv_inv s"
  shows "case MarkSuspectIfNeeded cfg now sT dT cT s of (s', changed) \<Rightarrow>
    srv_inv s' \<and>
    (\<forall>k. Snapshot (srv_Members s') k =
       Option.bind (Snapshot (srv_Members s) k) (timeout_spec cfg (srv_Addr s) now sT dT cT)) \<and>
    (changed \<longleftrightarrow> Snapshot (srv_Members s') \<noteq> Snapshot (srv_Members s))"
proof -
  obtain s' ch where run: "MarkSuspectIfNeeded cfg now sT dT cT s = (s', ch)" by (rule prod.exhaust)
  let ?spec = "timeout_spec cfg (srv_Addr s) now sT dT cT" and ?chk = "checkMember cfg (srv_Addr s) now sT dT cT"
  have tick: "srv_inv s'" "\<And>k. Snapshot (srv_Members s') k = tick_entry ?chk (Snapshot (srv_Members s) k)"
    "ch \<longleftrightarrow> (\<exists>m \<in> set (srv_Members s). ?chk m \<noteq> Keep)"
    using failure_detector_tick [OF assms, of cfg now sT dT cT] by (simp_all add: run)
  have entry: "Snapshot (srv_Members s') k = Option.bind (Snapshot (srv_Members s) k) ?spec" for k
    using tick(2) [of k] by (cases "Snapshot (srv_Members s) k") (simp_all add: tick_entry_spec, simp add: tick_entry_def)
  have d: "distinct (map MemberID (srv_Members s))" using assms by (simp add: srv_inv_def ml_inv_def)
  have "(\<exists>m \<in> set (srv_Members s). ?spec m \<noteq> Some m) \<longleftrightarrow> (\<exists>k m. Snapshot (srv_Members s) k = Some m \<and> ?spec m \<noteq> Some m)"
    by (auto simp: Snapshot_Some [OF d])
  also have "\<dots> \<longleftrightarrow> (\<exists>k. Snapshot (srv_Members s') k \<noteq> Snapshot (srv_Members s) k)"
    unfolding entry by (metis Option.bind_lunit Option.bind_lzero not_None_eq)
  finally show ?thesis using tick(1) entry by (auto simp: run tick(3) checkMember_keep fun_eq_iff)
qed

theorem failure_detector_refines_spec_witness:
  "case MarkSuspectIfNeeded initialConfig 62135596803000000000 2000000000 2000000000 10000000000 demoServer of
     (s', changed) \<Rightarrow> srv_inv s' \<and> changed \<and>
       map_option m_Status (Snapshot (srv_Members s') ''n1:8080-0'') = Some StatusDead"
proof -
  let ?spec = "timeout_spec initialConfig (srv_Addr demoServer) 62135596803000000000 2000000000 2000000000 10000000000"
  have st: "map_option m_Status (Option.bind (Snapshot (srv_Members demoServer) ''n1:8080-0'') ?spec) = Some StatusDead"
    "map_option m_Status (Snapshot (srv_Members demoServer) ''n1:8080-0'') = Some StatusAlive"
    by code_simp+
  obtain s' changed where run: "MarkSuspectIfNeeded initialConfig 62135596803000000000 2000000000 2000000000
      10000000000 demoServer = (s', changed)" by (rule prod.exhaust)
  note spec = failure_detector_refines_spec [OF demoServer_inv(1), of initialConfig 62135596803000000000 2000000000
      2000000000 10000000000, unfolded run prod.case]
  then have "Snapshot (srv_Members s') ''n1:8080-0'' = Option.bind (Snapshot (srv_Members demoServer) ''n1:8080-0'') ?spec"
    by blast
  with st have "map_option m_Status (Snapshot (srv_Members s') ''n1:8080-0'') = Some StatusDead" by presburger
  moreover from this st(2) have "Snapshot (srv_Members s') \<noteq> Snapshot (srv_Members demoServer)" by force
  ultimately show ?thesis unfolding run prod.case using spec by blast
qed

text \<open>
  A tick launches stabilization for the members it declares dead and for no other,
  and never a second time for an ID already marked failed.
\<close>

theorem failure_detector_launches_once:
  assumes "ml_inv (srv_Members s)" and "launched_once s"
  shows "launched_once (fst (MarkSuspectIfNeeded cfg now sT dT cT s)) \<and>
    (\<forall>k. srv_FailedPending (fst (MarkSuspectIfNeeded cfg now sT dT cT s)) k =
      (if \<exists>m m'. Snapshot (srv_Members s) k = Some m \<and>
                checkMember cfg (srv_Addr s) now sT dT cT m = NowDead m'
       then Some FailedNode else srv_FailedPending s k))"
proof -
  define chk where "chk = checkMember cfg (srv_Addr s) now sT dT cT"
  define ds where "ds = concat (map (deaths_of chk) (srv_Members s))"
  have d: "distinct (map MemberID (srv_Members s))" using assms(1) by (simp add: ml_inv_def)
  have eq: "\<exists>nodes. fst (MarkSuspectIfNeeded cfg now sT dT cT s) =
      (foldl handleDeadNode s ds)\<lparr>srv_Members := nodes\<rparr>"
    by (auto simp: MarkSuspectIfNeeded_eq [OF assms(1) chk_def refl] ds_def)
  have id: "MemberID m' = MemberID m" if "chk m = NowDead m'" for m m'
    using checkMember_same_id [unfolded same_id_def, rule_format, of cfg "srv_Addr s" now sT dT cT m] that
    by (simp add: chk_def updated_def)
  have ids: "k \<in> MemberID ` set ds \<longleftrightarrow>
      (\<exists>m m'. Snapshot (srv_Members s) k = Some m \<and> chk m = NowDead m')" for k
    by (auto simp: ds_def deaths_of_def Snapshot_Some [OF d] image_iff id
        split: verdict.splits intro!: bexI) (metis id)+
  show ?thesis
    using eq launched_once_foldl [OF assms(2)]
    by (auto simp: launched_once_def foldl_handleDeadNode_pending ids chk_def [symmetric])
qed

theorem failure_detector_launches_once_witness:
  "launched_once (fst (MarkSuspectIfNeeded initialConfig 62135596803000000000 2000000000 2000000000 10000000000
     demoServer))"
  using failure_detector_launches_once [OF demoServer_members demoServer_inv(2)] by blast

subsection \<open>Completeness: a silent member is detected and forgotten\<close>

text \<open>Consecutive ticks with nothing merged in between, and what they do to one entry.\<close>

definition ticks :: "Config \<Rightarrow> duration \<Rightarrow> duration \<Rightarrow> duration \<Rightarrow> time list \<Rightarrow> Server \<Rightarrow> Server" where
  "ticks cfg sT dT cT ts s = fold (\<lambda>t s. fst (MarkSuspectIfNeeded cfg t sT dT cT s)) ts s"

lemma tick_fields:
  assumes "srv_inv s"
  shows "srv_inv (fst (MarkSuspectIfNeeded cfg t sT dT cT s))"
    and "srv_Addr (fst (MarkSuspectIfNeeded cfg t sT dT cT s)) = srv_Addr s"
    and "Snapshot (srv_Members (fst (MarkSuspectIfNeeded cfg t sT dT cT s))) k =
      tick_entry (checkMember cfg (srv_Addr s) t sT dT cT) (Snapshot (srv_Members s) k)"
proof -
  have ml: "ml_inv (srv_Members s)" using assms by (simp add: srv_inv_def)
  show "srv_inv (fst (MarkSuspectIfNeeded cfg t sT dT cT s))"
    and "Snapshot (srv_Members (fst (MarkSuspectIfNeeded cfg t sT dT cT s))) k =
      tick_entry (checkMember cfg (srv_Addr s) t sT dT cT) (Snapshot (srv_Members s) k)"
    using failure_detector_tick [OF assms, of cfg t sT dT cT] by (auto split: prod.splits)
  show "srv_Addr (fst (MarkSuspectIfNeeded cfg t sT dT cT s)) = srv_Addr s"
    by (simp add: MarkSuspectIfNeeded_eq [OF ml refl refl])
qed

lemma ticks_entry:
  "srv_inv s \<Longrightarrow> srv_inv (ticks cfg sT dT cT ts s) \<and>
    Snapshot (srv_Members (ticks cfg sT dT cT ts s)) k =
      fold (\<lambda>t. tick_entry (checkMember cfg (srv_Addr s) t sT dT cT)) ts (Snapshot (srv_Members s) k)"
proof (induction ts arbitrary: s)
  case (Cons t ts)
  show ?case
    using Cons.IH [OF tick_fields(1) [OF Cons.prems, of cfg t sT dT cT]]
    by (simp add: ticks_def tick_fields [OF Cons.prems])
qed (simp add: ticks_def)

lemma time_Sub_gt: "d < a - b \<Longrightarrow> d < int_max \<Longrightarrow> d < time_Sub a b"
  by (simp add: time_Sub_def)



end
