(* ===== verification/Runtime.thy ===== *)
theory Runtime imports Protocols ClusterSteps FailureDetector begin

text \<open>
  The running system as a transition relation: processes start, crash, execute commands, answer requests,
  exchange gossip and pings, tick their heartbeats and failure detectors, stabilize and collect garbage, in
  any order and under any network, clock and environment. \<open>reachable_keeps_nodes_ok\<close> is the invariant of
  every node in every reachable state.
\<close>

subsection \<open>Periodic work\<close>

text \<open>One tick of the loops of \<open>server.go\<close> whose bodies are modelled elsewhere.\<close>

definition backgroundCheckerRPC :: "time \<Rightarrow> duration \<Rightarrow> duration \<Rightarrow> duration \<Rightarrow> string \<Rightarrow> System \<Rightarrow> System" where
  "backgroundCheckerRPC now suspicionTimeout deadTimeout cleanUpTimeout self sys =
     charge self (\<lambda>h. h\<lparr>hn_srv := fst (MarkSuspectIfNeeded (gl_Config (sy_globals sys self)) now suspicionTimeout deadTimeout
       cleanUpTimeout (hn_srv h))\<rparr>) sys"

definition heartbeat_tick :: "time \<Rightarrow> string \<Rightarrow> System \<Rightarrow> System" where
  "heartbeat_tick now self sys =
     charge self (\<lambda>h. h\<lparr>hn_srv := increaseHeartbeat (gl_Config (sy_globals sys self)) now (hn_srv h)\<rparr>) sys"

definition monitorBandwidth :: "string \<Rightarrow> System \<Rightarrow> System" where
  "monitorBandwidth self sys =
     charge self (\<lambda>h. h\<lparr>hn_srv := (hn_srv h)\<lparr>srv_Bandwidth := snd (snd (GetAndReset (srv_Bandwidth (hn_srv h))))\<rparr>\<rparr>) sys"

definition garbageCollectorProcess :: "env \<Rightarrow> string \<Rightarrow> System \<Rightarrow> System" where
  "garbageCollectorProcess e self sys =
     (case sy_cluster sys self of
        None \<Rightarrow> sys
      | Some h \<Rightarrow>
          (case deleteFilesOutsideMyRange e h of
             Inl _ \<Rightarrow> crash self sys
           | Inr h' \<Rightarrow> set_cluster ((sy_cluster sys)(self \<mapsto> h')) sys))"

definition mergeMetadataProcess :: "env \<Rightarrow> string \<Rightarrow> System \<Rightarrow> System" where
  "mergeMetadataProcess e self sys =
     (case executeMergeForAllFiles e self (sy_cluster sys) of
        Inl _ \<Rightarrow> crash self sys
      | Inr cl \<Rightarrow> set_cluster cl sys)"

text \<open>\<open>main\<close>: the node is named on the command line; the introducer is known by its address.\<close>

definition boot :: "(string \<Rightarrow> nat) \<Rightarrow> time \<Rightarrow> string \<Rightarrow> (string \<rightharpoonup> string) \<Rightarrow> System \<Rightarrow> System" where
  "boot sha1 now nodeName files sys =
     (let addr = NodeMap nodeName; intro = cfg_IntroducerAddr initialConfig
      in set_cluster ((sy_cluster sys)(addr \<mapsto>
           \<lparr>hn_srv = NewServer sha1 initialConfig now addr intro (addr = intro), hn_disk = Map.empty, hn_local = files\<rparr>))
         (set_globals addr (\<lambda>_. initialGlobals) sys))"

inductive sys_step :: "System \<Rightarrow> System \<Rightarrow> bool" where
  Boot: "sys_step sys (boot sha1 now nodeName files sys)"
| Start: "sys_step sys (snd (StartRPCServer nt se st stuck a sys))"
| Crash: "sys_step sys (crash a sys)"
| Command: "sys_step sys (handleCommand se a cmd sys)"
| Pending: "sys_step sys (run_pending se sys)"
| Request: "sys_step sys (snd (makeRPCCall nt se a b req sys))"
| Periodic: "sys_step sys (sendTimelyMessagesAsPerProtocol nt se shuf a sys)"
| Heartbeat: "sys_step sys (heartbeat_tick now a sys)"
| Detector: "sys_step sys (backgroundCheckerRPC now sT dT cT a sys)"
| Stabilize: "sys_step sys (set_cluster (handleReplicationWindowChange e a i (sy_cluster sys)) sys)"
| Collect: "sys_step sys (garbageCollectorProcess e a sys)"
| Merge: "sys_step sys (mergeMetadataProcess e a sys)"
| Append: "sys_step sys (set_cluster (snd (AppendOrCreateFromBuffer e now a f d (sy_cluster sys))) sys)"
| Bandwidth: "sys_step sys (monitorBandwidth a sys)"
| Tasks: "sys_step sys (sys\<lparr>sy_world := w\<rparr>)"

subsection \<open>The invariant of a node\<close>

definition server_ok :: "string \<Rightarrow> Server \<Rightarrow> bool" where
  "server_ok a s \<longleftrightarrow> srv_Addr s = a \<and> srv_inv s \<and> launched_once s"

definition system_inv :: "System \<Rightarrow> bool" where
  "system_inv sys \<longleftrightarrow> (\<forall>a h. sy_cluster sys a = Some h \<longrightarrow> server_ok a (hn_srv h))"

lemma touch_closed_ok: "touch_closed (server_ok a)"
  using touch_closed_inv touch_closed_launched unfolding touch_closed_def server_ok_def
  by (auto simp: handleNewlyJoinedNode_def)

lemma mergeMembership_ok: "server_ok a s \<Longrightarrow> server_ok a (mergeMembership cfg now s rs sid)"
  unfolding mergeMembership_def
  by (rule fold_invariant_list) (auto intro: merge_one_closed [OF touch_closed_ok])

lemma set_members_ok: "server_ok a s \<Longrightarrow> server_ok a (s\<lparr>srv_Members := AddOrUpdate (srv_Members s) m\<rparr>)"
  using touch_closed_ok by (simp add: touch_closed_def)

lemma store_step_ok: "store_step h h' \<Longrightarrow> server_ok a (hn_srv h) \<Longrightarrow> server_ok a (hn_srv h')"
proof -
  assume s: "store_step h h'" and ok: "server_ok a (hn_srv h)"
  have m: "membership_side h' = membership_side h" using s by (simp add: store_step_def)
  have f: "srv_Addr (hn_srv h') = srv_Addr (hn_srv h)" "srv_Members (hn_srv h') = srv_Members (hn_srv h)"
    "srv_launched (hn_srv h') = srv_launched (hn_srv h)" "srv_FailedPending (hn_srv h') = srv_FailedPending (hn_srv h)"
    "srv_JoinedPending (hn_srv h') = srv_JoinedPending (hn_srv h)"
    using arg_cong [OF m, of srv_Addr] arg_cong [OF m, of srv_Members] arg_cong [OF m, of srv_launched]
      arg_cong [OF m, of srv_FailedPending] arg_cong [OF m, of srv_JoinedPending] by (simp_all add: membership_side_def)
  with s ok show ?thesis by (simp add: server_ok_def srv_inv_def launched_once_def store_step_def)
qed

lemma leaveGroup_ok: "server_ok a s \<Longrightarrow> server_ok a (leaveGroup now s)"
  using set_members_ok by (auto simp: leaveGroup_def Let_def split: option.split)

lemma increaseHeartbeat_ok: "server_ok a s \<Longrightarrow> server_ok a (increaseHeartbeat cfg now s)"
proof -
  assume "server_ok a s"
  then have "server_ok a (s\<lparr>srv_Heartbeat := srv_Heartbeat s + 1\<rparr>)" by (simp add: server_ok_def srv_inv_def launched_once_def)
  from set_members_ok [OF this] \<open>server_ok a s\<close> show ?thesis by (simp add: increaseHeartbeat_def Let_def)
qed

lemma MarkSuspectIfNeeded_ok:
  assumes "server_ok a s"
  shows "server_ok a (fst (MarkSuspectIfNeeded cfg now sT dT cT s))"
proof -
  have inv: "srv_inv s" and l: "launched_once s" using assms by (simp_all add: server_ok_def)
  then have ml: "ml_inv (srv_Members s)" by (simp add: srv_inv_def)
  obtain nodes ds where "fst (MarkSuspectIfNeeded cfg now sT dT cT s) = (foldl handleDeadNode s ds)\<lparr>srv_Members := nodes\<rparr>"
    by (simp add: MarkSuspectIfNeeded_eq [OF ml refl refl])
  then have "launched_once (fst (MarkSuspectIfNeeded cfg now sT dT cT s))"
    using launched_once_foldl [OF l, of ds] by (simp add: launched_once_def)
  with tick_fields [OF inv] assms show ?thesis by (simp add: server_ok_def)
qed

lemma NewServer_ok: "server_ok a (NewServer sha1 cfg now a i b)"
  using NewServer_inv by (simp add: server_ok_def NewServer_def Let_def)


subsection \<open>Every step keeps it\<close>

named_theorems keeps

lemma system_inv_cluster: "system_inv sys \<Longrightarrow> cluster_step (sy_cluster sys) cl \<Longrightarrow> system_inv (sys\<lparr>sy_cluster := cl\<rparr>)"
  unfolding system_inv_def cluster_step_def using store_step_ok by (metis System.select_convs(1) System.surjective System.update_convs(1))

lemma system_inv_set_cluster [keeps]:
  "system_inv sys \<Longrightarrow> cluster_step (sy_cluster sys) cl \<Longrightarrow> system_inv (set_cluster cl sys)"
  by (simp add: set_cluster_def system_inv_cluster)

lemma system_inv_upd: "system_inv sys \<Longrightarrow> server_ok a (hn_srv h) \<Longrightarrow> system_inv (sys\<lparr>sy_cluster := (sy_cluster sys)(a \<mapsto> h)\<rparr>)"
  by (auto simp: system_inv_def)

lemma system_inv_charge [keeps]:
  "system_inv sys \<Longrightarrow> (\<And>h. server_ok a (hn_srv h) \<Longrightarrow> server_ok a (hn_srv (f h))) \<Longrightarrow> system_inv (charge a f sys)"
  by (auto simp: system_inv_def charge_def set_cluster_def on_node_def split: option.split)

lemma server_ok_bandwidth [simp]: "server_ok a (s\<lparr>srv_Bandwidth := b\<rparr>) = server_ok a s"
  by (simp add: server_ok_def srv_inv_def launched_once_def)

lemma server_ok_count [simp]:
  "server_ok a (hn_srv (count_sent n h)) = server_ok a (hn_srv h)"
  "server_ok a (hn_srv (count_received n h)) = server_ok a (hn_srv h)"
  by (simp_all add: count_sent_def count_received_def)

lemma system_inv_same [simp]:
  "system_inv (sys\<lparr>sy_globals := g\<rparr>) = system_inv sys" "system_inv (sys\<lparr>sy_world := w\<rparr>) = system_inv sys"
  "system_inv (sys\<lparr>sy_commands := c\<rparr>) = system_inv sys" "system_inv (set_globals a f sys) = system_inv sys"
  by (simp_all add: system_inv_def set_globals_def)

lemma system_inv_crash [keeps]: "system_inv sys \<Longrightarrow> system_inv (crash a sys)"
  by (simp add: system_inv_def crash_def)

lemma system_inv_fold: "(\<And>x sys. system_inv sys \<Longrightarrow> system_inv (f x sys)) \<Longrightarrow> system_inv sys \<Longrightarrow> system_inv (fold f xs sys)"
  by (rule fold_invariant_list) auto

lemma on_store_keeps:
  "on_store a f h sys = Inr (r, sys') \<Longrightarrow> system_inv sys \<Longrightarrow> server_ok a (hn_srv (snd (f h))) \<Longrightarrow> system_inv sys'"
  by (auto simp: on_store_def system_inv_upd split: prod.splits)

lemma on_cluster_keeps:
  "on_cluster f sys = Inr (r, sys') \<Longrightarrow> system_inv sys \<Longrightarrow> cluster_step (sy_cluster sys) (snd (f (sy_cluster sys))) \<Longrightarrow> system_inv sys'"
  by (auto simp: on_cluster_def system_inv_cluster split: prod.splits)

lemma on_world_keeps: "on_world f sys = Inr (r, sys') \<Longrightarrow> system_inv sys \<Longrightarrow> system_inv sys'"
  by (auto simp: on_world_def split: sum.splits)

lemma svc_membership_ok:
  "server_ok a (hn_srv h) \<Longrightarrow> server_ok a (hn_srv (snd (svc_Join e now g m h)))"
  "server_ok a (hn_srv h) \<Longrightarrow> server_ok a (hn_srv (snd (svc_Gossip now g sid ms h)))"
  "server_ok a (hn_srv h) \<Longrightarrow> server_ok a (hn_srv (snd (svc_Ping now g sid ms h)))"
  by (simp_all add: svc_Join_def svc_Gossip_def svc_Ping_def Let_def set_members_ok mergeMembership_ok)

lemma svc_UpdateAppendOrder_ok: "server_ok a (hn_srv h) \<Longrightarrow> server_ok a (hn_srv (snd (svc_UpdateAppendOrder n apps h)))"
  by (rule store_step_ok [OF UpdateAppendOrder_step])

lemma serve_at_keeps:
  assumes "system_inv sys" "sy_cluster sys a = Some h" "serve_at se a req h sys = Inr (r, sys')"
  shows "system_inv sys'"
proof -
  have ok: "server_ok a (hn_srv h)" using assms(1,2) by (simp add: system_inv_def)
  show ?thesis
  proof (cases req)
    case (JoinRequest m)
    with assms(3) show ?thesis by (auto simp: serve_at_def Let_def intro: on_store_keeps [OF _ assms(1)] svc_membership_ok [OF ok])
  next
    case (GossipRequest sid ms)
    with assms(3) show ?thesis by (auto simp: serve_at_def Let_def intro: on_store_keeps [OF _ assms(1)] svc_membership_ok [OF ok])
  next
    case (PingRequest sid ms)
    with assms(3) show ?thesis by (auto simp: serve_at_def Let_def intro: on_store_keeps [OF _ assms(1)] svc_membership_ok [OF ok])
  next
    case (UpdateAppendOrderRequest n apps)
    show ?thesis
      by (rule on_store_keeps [OF _ assms(1)])
        (use assms(3) UpdateAppendOrderRequest svc_UpdateAppendOrder_ok [OF ok, of n apps] in
          \<open>auto simp: serve_at_def Let_def case_prod_unfold\<close>)
  next
    case (MultiAppendRequest l f)
    with assms(3) show ?thesis
      by (auto simp: serve_at_def Let_def svc_MultiAppend_def intro!: on_cluster_keeps [OF _ assms(1)] stepping)
  next
    case (MergeRequest f)
    with assms(3) show ?thesis
      by (auto simp: serve_at_def Let_def svc_Merge_def intro!: on_cluster_keeps [OF _ assms(1)] stepping)
  next
    case (SubmitJobRequest job)
    with assms(1,3) on_world_keeps [of _ "sys\<lparr>sy_world := sync_members sys\<rparr>"] show ?thesis
      by (auto simp: serve_at_def Let_def)
  qed (use assms(1,3) on_world_keeps [of _ sys] in
    \<open>auto simp: serve_at_def Let_def svc_ProtocolSwitch_def svc_ExecuteCommand_def split: prod.splits\<close>)
qed

lemma serve_keeps: "system_inv sys \<Longrightarrow> serve se a req sys = Some (Inr (r, sys')) \<Longrightarrow> system_inv sys'"
  by (auto simp: serve_def serve_at_keeps split: option.splits)

lemma call_keeps [keeps]: "system_inv sys \<Longrightarrow> system_inv (snd (call se a req sys))"
  by (auto simp: call_def serve_keeps keeps split: option.split sum.split prod.split)

lemma strip_keeps: "strip s1 = strip s2 \<Longrightarrow> system_inv s2 \<Longrightarrow> system_inv s1"
proof -
  assume s: "strip s1 = strip s2" and inv: "system_inv s2"
  show "system_inv s1" unfolding system_inv_def
  proof (intro allI impI)
    fix a h assume "sy_cluster s1 a = Some h"
    then obtain h2 where "sy_cluster s2 a = Some h2" "strip_node h2 = strip_node h"
      using strip_cluster [OF s [symmetric]] by blast
    moreover from this inv have "server_ok a (hn_srv h2)" by (simp add: system_inv_def)
    moreover have "server_ok a (hn_srv (strip_node x)) = server_ok a (hn_srv x)" for x by (simp add: strip_node_def)
    ultimately show "server_ok a (hn_srv h)" by metis
  qed
qed

lemma handleRPCRequest_keeps:
  "system_inv sys \<Longrightarrow> handleRPCRequest nt se a data sys = Some (Inr (resp, sys')) \<Longrightarrow> system_inv sys'"
  using handleRPCRequest_answer [of nt se a data sys resp sys'] serve_keeps [of sys se a]
  by (cases "rr_Error resp = []") (auto intro!: system_inv_charge)

lemma listen_keeps: "system_inv sys \<Longrightarrow> system_inv (snd (listenForMessages nt se a msg sys))"
proof -
  assume inv: "system_inv sys"
  let ?sys = "charge a (count_received (min (nt_size nt msg) bufferSize)) sys"
  let ?data = "if nt_size nt msg \<le> bufferSize then Some msg else None"
  have i: "system_inv ?sys" using inv by (rule system_inv_charge) simp
  consider "handleRPCRequest nt se a ?data ?sys = None" | p where "handleRPCRequest nt se a ?data ?sys = Some (Inl p)"
    | resp sys' where "handleRPCRequest nt se a ?data ?sys = Some (Inr (resp, sys'))"
    by (metis option.exhaust prod.exhaust sum.exhaust)
  then show ?thesis
    by cases (use inv i system_inv_crash [OF i] handleRPCRequest_keeps [OF i] in \<open>simp_all add: listenForMessages_def Let_def\<close>)
qed

lemma makeRPCCall_keeps [keeps]: "system_inv sys \<Longrightarrow> system_inv (snd (makeRPCCall nt se a b req sys))"
proof -
  assume inv: "system_inv sys"
  let ?sys = "charge a (count_sent (nt_size nt (rpc_message nt se req))) sys"
  have i: "system_inv ?sys" using inv by (simp add: keeps)
  obtain ro s2 where l: "listenForMessages nt se b (rpc_message nt se req) ?sys = (ro, s2)" by fastforce
  have "system_inv s2" using listen_keeps [OF i, of nt se b "rpc_message nt se req"] l by simp
  with i l show ?thesis by (auto simp: makeRPCCall_msg Let_def keeps split: option.split)
qed

lemma merge_charge_keeps:
  "system_inv sys \<Longrightarrow> system_inv (charge a (\<lambda>h. h\<lparr>hn_srv := mergeMembership cfg now (hn_srv h) ms sid\<rparr>) sys)"
  by (erule system_inv_charge) (simp add: mergeMembership_ok)

lemma notifyIntroducer_keeps: "system_inv sys \<Longrightarrow> system_inv (snd (notifyIntroducer nt se a sys))"
proof (cases "sy_cluster sys a")
  case (Some h)
  assume inv: "system_inv sys"
  obtain x sys1 where c: "CallJoin nt se a (srv_IntroducerAddr (hn_srv h)) \<lparr>m_Address = srv_Addr (hn_srv h),
      m_Created = srv_Created (hn_srv h), m_Status = StatusAlive, m_Heartbeat = srv_Heartbeat (hn_srv h),
      m_Incarnation = srv_Incarnation (hn_srv h), m_LastUpdated = le_now (se_lenv se), m_Hash = srv_Hash (hn_srv h)\<rparr> sys = (x, sys1)"
    by fastforce
  then have "system_inv sys1" using makeRPCCall_keeps [OF inv] unfolding CallJoin_def by (metis snd_conv)
  then show ?thesis
    by (cases x; cases "projr x") (simp_all add: notifyIntroducer_def Some Let_def c merge_charge_keeps)
qed (simp add: notifyIntroducer_def)

lemma StartRPCServer_keeps: "system_inv sys \<Longrightarrow> system_inv (snd (StartRPCServer nt se st stuck a sys))"
proof (cases "sy_cluster sys a")
  case (Some h)
  assume inv: "system_inv sys"
  obtain err sys1 where n: "(if srv_IsIntroducer (hn_srv h) then (None, set_globals a (\<lambda>g. g\<lparr>gl_globalServer := True\<rparr>) sys)
      else notifyIntroducer nt se a (set_globals a (\<lambda>g. g\<lparr>gl_globalServer := True\<rparr>) sys)) = (err, sys1)" by fastforce
  have i: "system_inv (set_globals a (\<lambda>g. g\<lparr>gl_globalServer := True\<rparr>) sys)" using inv by simp
  have "system_inv sys1" using n i notifyIntroducer_keeps [OF i, of nt se a] by (auto split: if_splits)
  moreover have "server_ok a (hn_srv (snd (clearHydfsFolder st stuck g)))" if "server_ok a (hn_srv g)" for g
    using that by (rule store_step_ok [rotated]) (auto simp: clearHydfsFolder_def store_step_remove split: dirstat.split option.split)
  ultimately show ?thesis
    by (simp add: StartRPCServer_def Some Let_def n system_inv_charge split: option.split)
qed (simp add: StartRPCServer_def)

subsection \<open>Commands\<close>

lemma handleSwitch_keeps: "system_inv sys \<Longrightarrow> system_inv (handleSwitch se a p s h sys)"
  by (auto simp: handleSwitch_def Let_def switch_member_def case_prod_unfold intro!: system_inv_fold call_keeps split: option.split)

lemma handleKillTask_keeps: "system_inv sys \<Longrightarrow> system_inv (snd (handleKillTask se vm pid h sys))"
  using call_keeps [of sys se] by (auto simp: handleKillTask_def case_prod_unfold split: option.split)

lemma handleRainStorm_keeps: "system_inv sys \<Longrightarrow> system_inv (snd (handleRainStorm se a args h sys))"
proof -
  assume inv: "system_inv sys"
  have "system_inv (snd (sendSubmitJobToLeader se b job sys))" for b job
    using call_keeps [OF inv, of se b "SubmitJobRequest (Some job)"]
    by (auto simp: sendSubmitJobToLeader_def split: prod.splits option.splits Response.splits bool.splits)
  with inv show ?thesis by (auto simp: handleRainStorm_def split: sum.split prod.split)
qed

lemma file_command_step: "cluster_step cl (file_command se a command args cl)"
  by (simp add: file_command_def Let_def stepping split: prod.split)

lemma run_command_keeps:
  assumes inv: "system_inv sys" and r: "run_command se a command args h sys = Inr sys'"
  shows "system_inv sys'"
proof -
  have leave: "system_inv (leaveCommand se a sys)"
    using system_inv_charge [OF inv, of a "\<lambda>h. h\<lparr>hn_srv := leaveGroup (le_now (se_lenv se)) (hn_srv h)\<rparr>"]
    by (simp add: leaveCommand_def charge_def leaveGroup_ok)
  obtain err sys1 where j: "handleRainStorm se a args h sys = (err, sys1)" by fastforce
  have job: "system_inv sys1" using handleRainStorm_keeps [OF inv, of se a args h] j by simp
  from r leave job inv handleSwitch_keeps [OF inv] handleKillTask_keeps [OF inv] system_inv_set_cluster [OF inv file_command_step]
  show ?thesis unfolding run_command_def j by (auto split: if_splits option.splits go_err.splits)
qed

lemma handleCommand_keeps: "system_inv sys \<Longrightarrow> system_inv (handleCommand se a cmd sys)"
  by (auto simp: handleCommand_def system_inv_crash run_command_keeps split: list.split option.split sum.split)

lemma run_pending_keeps: "system_inv sys \<Longrightarrow> system_inv (run_pending se sys)"
  by (auto simp: run_pending_def case_prod_unfold intro!: system_inv_fold handleCommand_keeps)

subsection \<open>Rounds and periodic work\<close>

lemma gossipSend_keeps: "system_inv sys \<Longrightarrow> system_inv (gossipSend nt se shuf a k sys)"
  by (auto simp: gossipSend_def CallGossip_def Let_def case_prod_unfold intro!: system_inv_fold makeRPCCall_keeps split: option.split)

lemma ping_peer_keeps: "system_inv sys \<Longrightarrow> system_inv (ping_peer nt se a i ms n sys)"
proof -
  assume inv: "system_inv sys"
  obtain x sys1 where m: "makeRPCCall nt se a (GetAddressFromID n) (PingRequest i ms) sys = (x, sys1)" by fastforce
  have i: "system_inv sys1" using makeRPCCall_keeps [OF inv, of nt se a "GetAddressFromID n" "PingRequest i ms"] m by simp
  then show ?thesis
    by (cases x; cases "projr x") (simp_all add: ping_peer_def CallPing_def m Let_def merge_charge_keeps)
qed

lemma pingSend_keeps: "system_inv sys \<Longrightarrow> system_inv (pingSend nt se shuf a k sys)"
  by (auto simp: pingSend_def Let_def case_prod_unfold intro!: system_inv_fold ping_peer_keeps split: option.split)

lemma garbage_keeps: "system_inv sys \<Longrightarrow> system_inv (garbageCollectorProcess e a sys)"
  by (auto simp: garbageCollectorProcess_def system_inv_crash intro!: system_inv_set_cluster cluster_step_upd
      deleteFilesOutsideMyRange_step split: option.split sum.split)

lemma boot_keeps: "system_inv sys \<Longrightarrow> system_inv (boot sha1 now n files sys)"
  by (auto simp: boot_def Let_def system_inv_def set_cluster_def set_globals_def NewServer_ok)

lemma sys_step_keeps: "sys_step s s' \<Longrightarrow> system_inv s \<Longrightarrow> system_inv s'"
proof (induction rule: sys_step.induct)
  case (Detector sys now sT dT cT a)
  then show ?case unfolding backgroundCheckerRPC_def
    by (elim system_inv_charge) (simp add: MarkSuspectIfNeeded_ok)
next
  case (Heartbeat sys now a)
  then show ?case unfolding heartbeat_tick_def by (elim system_inv_charge) (simp add: increaseHeartbeat_ok)
next
  case (Bandwidth sys a)
  then show ?case unfolding monitorBandwidth_def by (elim system_inv_charge) simp
next
  case (Periodic sys nt se shuf a)
  then show ?case by (simp add: sendTimelyMessagesAsPerProtocol_def Let_def gossipSend_keeps pingSend_keeps split: ProtocolType.split)
next
  case (Merge sys e a)
  then show ?case
    by (auto simp: mergeMetadataProcess_def system_inv_crash intro!: system_inv_set_cluster executeMergeForAllFiles_step split: sum.split)
qed (simp_all add: boot_keeps StartRPCServer_keeps system_inv_crash handleCommand_keeps run_pending_keeps makeRPCCall_keeps
    garbage_keeps system_inv_set_cluster stepping)

text \<open>
  C6: in every state the system can reach, whatever the order of events, the losses, the clocks
  and the crashes, every running node is the server of its address, its member list is sorted by ring
  position without duplicates, its file metadata is consistent, and it has launched stabilization at most
  once for each failed and for each joined member.
\<close>

theorem reachable_keeps_nodes_ok:
  assumes "sys_step\<^sup>*\<^sup>* init sys" and "sy_cluster init = Map.empty" and "sy_cluster sys a = Some h"
  shows "srv_Addr (hn_srv h) = a \<and> ml_inv (srv_Members (hn_srv h)) \<and> md_inv (hn_Metadata h) \<and> launched_once (hn_srv h)"
proof -
  have "system_inv init" using assms(2) by (simp add: system_inv_def)
  with assms(1) have "system_inv sys" by (induction) (simp_all add: sys_step_keeps)
  with assms(3) show ?thesis by (auto simp: system_inv_def server_ok_def srv_inv_def)
qed

theorem reachable_keeps_nodes_ok_witness:
  "\<exists>h. sy_cluster (boot (\<lambda>_. 5) 0 ''vm2'' Map.empty (rpcSystem\<lparr>sy_cluster := Map.empty\<rparr>)) (NodeMap ''vm2'') = Some h \<and>
     ml_inv (srv_Members (hn_srv h)) \<and> launched_once (hn_srv h)"
proof -
  let ?init = "rpcSystem\<lparr>sy_cluster := Map.empty\<rparr>" and ?sys = "boot (\<lambda>_. 5) 0 ''vm2'' Map.empty (rpcSystem\<lparr>sy_cluster := Map.empty\<rparr>)"
  obtain h where h: "sy_cluster ?sys (NodeMap ''vm2'') = Some h" by (simp add: boot_def Let_def set_cluster_def)
  have "sys_step\<^sup>*\<^sup>* ?init ?sys" by (rule r_into_rtranclp) (rule Boot)
  from reachable_keeps_nodes_ok [OF this _ h] h show ?thesis by simp
qed

end
