(* ===== verification/ScaleDown.thy ===== *)
theory ScaleDown imports Submission begin

text \<open>
  Repeated scale-down of a stage (\<open>resource_manager.go\<close>): it removes one task at a time, stops at one, and
  needs exactly as many steps as there are tasks to remove.
\<close>

definition stage_ids :: "(string \<rightharpoonup> Task) \<Rightarrow> int \<Rightarrow> string set" where
  "stage_ids tasks s = {i. \<exists>t. tasks i = Some t \<and> tk_Stage t = s}"

definition scale_down_n :: "lenv \<Rightarrow> int \<Rightarrow> nat \<Rightarrow> World \<Rightarrow> World" where
  "scale_down_n e s n = (\<lambda>w. snd (scaleDownStage e s w)) ^^ n"

text \<open>A job whose tasks are wired, finitely many, and assigned to nodes.\<close>

definition placed_topology :: "JobSpec \<Rightarrow> Leader \<Rightarrow> Topology \<Rightarrow> bool" where
  "placed_topology job l topo \<longleftrightarrow> good_topology job l topo \<and> finite (dom (tp_Tasks topo)) \<and>
     (\<forall>i \<in> dom (tp_Tasks topo). ld_Assignments l i \<noteq> None)"

lemma stage_tasks_ids:
  assumes "visits (le_tasks e)" "finite (dom (tp_Tasks topo))" "wired job (tp_Tasks topo)"
  shows "distinct (map tk_TaskID (stage_tasks e topo s))" "set (map tk_TaskID (stage_tasks e topo s)) = stage_ids (tp_Tasks topo) s"
proof -
  let ?m = "tp_Tasks topo" let ?es = "entries (le_tasks e ?m) ?m"
  note v = visitsD [OF assms(1,2)]
  have id: "(i, t) \<in> set ?es \<Longrightarrow> tk_TaskID t = i" for i t
    using assms(3) by (auto simp: entries_set dest: wiredD simp: wired_task_def)
  have "distinct (map fst ?es)" using v by (simp add: entries_keys)
  moreover have "map tk_TaskID (all_tasks_of e topo) = map fst ?es" using id by (auto simp: all_tasks_of_def)
  ultimately have "distinct (map tk_TaskID (all_tasks_of e topo))" by simp
  then show "distinct (map tk_TaskID (stage_tasks e topo s))" by (simp add: stage_tasks_def distinct_map_filter)
  show "set (map tk_TaskID (stage_tasks e topo s)) = stage_ids ?m s"
  proof (intro set_eqI iffI)
    fix i assume "i \<in> set (map tk_TaskID (stage_tasks e topo s))"
    then obtain t where "t \<in> set (stage_tasks e topo s)" "i = tk_TaskID t" by auto
    with stage_tasks_in [OF assms(3) this(1)] show "i \<in> stage_ids ?m s" by (auto simp: stage_ids_def)
  next
    fix i assume "i \<in> stage_ids ?m s"
    then obtain t where t: "?m i = Some t" "tk_Stage t = s" by (auto simp: stage_ids_def)
    then have e: "(i, t) \<in> set ?es" using v by (auto simp: entries_set)
    then have "t \<in> set (stage_tasks e topo s)" using t(2) by (force simp: stage_tasks_def all_tasks_of_def)
    with id [OF e] show "i \<in> set (map tk_TaskID (stage_tasks e topo s))" by force
  qed
qed

lemma stage_tasks_card:
  assumes "visits (le_tasks e)" "finite (dom (tp_Tasks topo))" "wired job (tp_Tasks topo)"
  shows "length (stage_tasks e topo s) = card (stage_ids (tp_Tasks topo) s)"
  using stage_tasks_ids [OF assms, of s] distinct_card by (metis length_map)

lemma remove_task_ids:
  "tasks k = Some r \<Longrightarrow> tk_Stage r = s \<Longrightarrow> stage_ids (remove_task job k s' tasks) s = stage_ids tasks s - {k}"
proof -
  assume "tasks k = Some r" "tk_Stage r = s"
  have "tk_Stage (unlink job k s' t) = tk_Stage t" for t by (simp add: unlink_def Let_def)
  then have "(\<exists>t. map_option (unlink job k s') (tasks i) = Some t \<and> tk_Stage t = s) \<longleftrightarrow> (\<exists>t. tasks i = Some t \<and> tk_Stage t = s)" for i
    by (cases "tasks i") auto
  then show ?thesis by (auto simp: stage_ids_def remove_task_def)
qed

lemma scale_down_step:
  assumes "placed_topology job (w_leader w) topo" "visits (le_tasks e)" "1 \<le> s" "s \<le> js_NStages job"
  shows "if card (stage_ids (tp_Tasks topo) s) \<le> 1 then snd (scaleDownStage e s w) = w
    else \<exists>topo'. placed_topology job (w_leader (snd (scaleDownStage e s w))) topo' \<and>
      Suc (card (stage_ids (tp_Tasks topo') s)) = card (stage_ids (tp_Tasks topo) s)"
proof -
  let ?l = "w_leader w" let ?ts = "stage_tasks e topo s" let ?k = "tk_TaskID (last ?ts)"
  have g: "ld_Topology ?l = Some topo" "ld_JobSpec ?l = Some job" "wired job (tp_Tasks topo)" "finite (dom (tp_Tasks topo))"
    and as: "\<And>i. i \<in> dom (tp_Tasks topo) \<Longrightarrow> ld_Assignments ?l i \<noteq> None"
    using assms(1) by (auto simp: placed_topology_def good_topology_def)
  note ids = stage_tasks_ids [OF assms(2) g(4,3), of s]
  note len = stage_tasks_card [OF assms(2) g(4,3), of s]
  show ?thesis
  proof (cases "card (stage_ids (tp_Tasks topo) s) \<le> 1")
    case True
    with g assms(3,4) len show ?thesis by (simp add: scaleDownStage_def)
  next
    case False
    then have big: "1 < length ?ts" by (simp add: len)
    then have "last ?ts \<in> set ?ts" by (intro last_in_set) auto
    then have r: "tp_Tasks topo ?k = Some (last ?ts)" "tk_Stage (last ?ts) = s" using stage_tasks_in [OF g(3)] by blast+
    obtain a where a: "ld_Assignments ?l ?k = Some a" using as [of ?k] r(1) by auto
    have "\<exists>t \<in> set ?ts. tk_TaskID t \<noteq> ?k"
    proof (rule ccontr)
      assume "\<not> ?thesis"
      then have "set (map tk_TaskID ?ts) \<subseteq> {?k}" by auto
      then have "card (set (map tk_TaskID ?ts)) \<le> 1" using card_mono [of "{?k}"] by fastforce
      with False ids(2) show False by simp
    qed
    then obtain keep where k: "find (\<lambda>t. tk_TaskID t \<noteq> ?k) ?ts = Some keep" by (metis (mono_tags, lifting) find_None_iff option.exhaust)
    let ?topo = "topo\<lparr>tp_Tasks := remove_task job ?k s (tp_Tasks topo)\<rparr>"
    have L: "w_leader (snd (scaleDownStage e s w)) = ?l\<lparr>ld_Topology := Some ?topo,
        ld_Assignments := (ld_Assignments ?l)(?k := None), ld_Metrics := (ld_Metrics ?l)(?k := None)\<rparr>"
      using big k a g assms(3,4) by (simp add: scaleDownStage_def Let_def bind_cmd_leader upd_leader_def)
    have d: "dom (remove_task job ?k s (tp_Tasks topo)) = dom (tp_Tasks topo) - {?k}"
      by (auto simp: remove_task_def)
    have "wired job (remove_task job ?k s (tp_Tasks topo))" using g r by (intro remove_task_wired) auto
    with L g as d have "placed_topology job (w_leader (snd (scaleDownStage e s w))) ?topo"
      by (simp add: placed_topology_def good_topology_def)
    moreover have "Suc (card (stage_ids (tp_Tasks ?topo) s)) = card (stage_ids (tp_Tasks topo) s)"
    proof -
      have "finite (stage_ids (tp_Tasks topo) s)" unfolding ids(2) [symmetric] by (rule finite_set)
      moreover have "?k \<in> stage_ids (tp_Tasks topo) s" using r by (simp add: stage_ids_def)
      ultimately have "Suc (card (stage_ids (tp_Tasks topo) s - {?k})) = card (stage_ids (tp_Tasks topo) s)"
        by (rule card_Suc_Diff1)
      then show ?thesis using remove_task_ids [where tasks = "tp_Tasks topo" and k = ?k, OF r] by simp
    qed
    ultimately show ?thesis unfolding if_not_P [OF False] by blast
  qed
qed

text \<open>
  C27: scaling a stage down again and again removes one task per call until one is left, and then
  changes nothing: after \<open>n\<close> calls a stage of \<open>c > 0\<close> tasks has \<open>max 1 (c - n)\<close>.
\<close>

theorem scale_down_stops_at_one_task:
  assumes "placed_topology job (w_leader w) topo" "visits (le_tasks e)" "1 \<le> s" "s \<le> js_NStages job"
    and "0 < card (stage_ids (tp_Tasks topo) s)"
  shows "\<exists>topo'. placed_topology job (w_leader (scale_down_n e s n w)) topo' \<and>
    card (stage_ids (tp_Tasks topo') s) = max 1 (card (stage_ids (tp_Tasks topo) s) - n) \<and>
    (card (stage_ids (tp_Tasks topo) s) \<le> Suc n \<longrightarrow> scale_down_n e s (Suc n) w = scale_down_n e s n w)"
proof -
  let ?c = "card (stage_ids (tp_Tasks topo) s)"
  have run: "\<exists>topo'. placed_topology job (w_leader (scale_down_n e s n w)) topo' \<and>
      card (stage_ids (tp_Tasks topo') s) = max 1 (?c - n)" for n
  proof (induction n)
    case 0
    with assms(1,5) show ?case by (auto simp: scale_down_n_def max_def)
  next
    case (Suc n)
    then obtain topo' where t: "placed_topology job (w_leader (scale_down_n e s n w)) topo'"
      "card (stage_ids (tp_Tasks topo') s) = max 1 (?c - n)" by blast
    from scale_down_step [OF t(1) assms(2-4)] t show ?case
      by (cases "?c - n \<le> 1") (auto simp: scale_down_n_def max_def split: if_splits)
  qed
  have "scale_down_n e s (Suc n) w = scale_down_n e s n w" if "?c \<le> Suc n"
  proof -
    obtain topo' where t: "placed_topology job (w_leader (scale_down_n e s n w)) topo'"
      "card (stage_ids (tp_Tasks topo') s) = max 1 (?c - n)" using run by blast
    from scale_down_step [OF t(1) assms(2-4)] t that show ?thesis by (simp add: scale_down_n_def max_def split: if_splits)
  qed
  with run show ?thesis by blast
qed

theorem scale_down_stops_at_one_task_witness:
  "\<exists>topo'. placed_topology scaleJob (w_leader (scale_down_n submitEnv 1 5 scaleWorld)) topo' \<and>
     card (stage_ids (tp_Tasks topo') 1) = 1"
proof -
  have p: "placed_topology scaleJob (w_leader scaleWorld) scaleTopo"
    using scaleWorld_good by (auto simp: placed_topology_def scaleTopo_def scaleWorld_def)
  have "stage_ids (tp_Tasks scaleTopo) 1 = {''a'', ''b''}"
    by (auto simp: stage_ids_def scaleTopo_def scaleTask_def NewTask_def split: if_splits)
  then have c: "card (stage_ids (tp_Tasks scaleTopo) 1) = 2" by simp
  have "visits (le_tasks submitEnv)" using visits_sorted by (simp add: submitEnv_def)
  from scale_down_stops_at_one_task [OF p this, of 1 5] c show ?thesis by (auto simp: scaleJob_def)
qed

end
