(* ===== verification/Displays.thy ===== *)
theory Displays imports Runtime ScaleDown begin

text \<open>
  What the printing commands compute before they print: the topology by stages (\<open>PrintTopology\<close>), the input
  rates of the stages (\<open>PrintStageInputRates\<close>), the suspected members and the names of the stored files; and the
  TCP connections of the stream (\<open>rainstorm_server.go\<close>, \<open>rainstorm_client.go\<close>): one reply per message, in order.
\<close>

subsection \<open>The topology\<close>

definition vm_of :: "(string \<rightharpoonup> string) \<Rightarrow> Task \<Rightarrow> string" where
  "vm_of assignments task =
     (if tk_NodeID task \<noteq> [] then tk_NodeID task
      else case assignments (tk_TaskID task) of Some a \<Rightarrow> a | None \<Rightarrow> ''N/A'')"

definition PrintTopology :: "lenv \<Rightarrow> Leader \<Rightarrow> (string \<times> (int \<times> (string \<times> string) list) list) option" where
  "PrintTopology e l =
     (case ld_Topology l of
        None \<Rightarrow> None
      | Some topology \<Rightarrow>
          let stages = sort (remdups (map tk_Stage (all_tasks_of e topology)))
          in Some (tp_JobID topology, map (\<lambda>s. (s, map (\<lambda>t. (tk_TaskID t, vm_of (ld_Assignments l) t))
               (sort_key tk_TaskID (stage_tasks e topology s)))) stages))"

definition PrintStageInputRates :: "lenv \<Rightarrow> Leader \<Rightarrow> (int \<times> rat) list option" where
  "PrintStageInputRates e l =
     (case ld_Topology l of
        None \<Rightarrow> None
      | Some topology \<Rightarrow>
          let stages = (if tp_Stages topology \<noteq> [] then sort (tp_Stages topology)
                        else sort (remdups (map tk_Stage (all_tasks_of e topology))))
          in Some (map (\<lambda>s. (s, case aggregateStageThroughput e l s of Some r \<Rightarrow> r | None \<Rightarrow> 0)) stages))"

text \<open>Every task of the topology is printed once, in its stage.\<close>

lemma PrintTopology_complete:
  assumes "PrintTopology e l = Some (job, rows)" "ld_Topology l = Some topo" "visits (le_tasks e)"
    and "finite (dom (tp_Tasks topo))" "wired j (tp_Tasks topo)"
  shows "distinct (concat (map (\<lambda>(s, ts). map fst ts) rows)) \<and>
    set (concat (map (\<lambda>(s, ts). map fst ts) rows)) = dom (tp_Tasks topo)"
proof -
  define stages where "stages = sort (remdups (map tk_Stage (all_tasks_of e topo)))"
  have st: "distinct stages" "set stages = tk_Stage ` set (all_tasks_of e topo)" by (simp_all add: stages_def)
  have rows: "map (\<lambda>(s, ts). map fst ts) rows = map (\<lambda>s. map tk_TaskID (sort_key tk_TaskID (stage_tasks e topo s))) stages"
    using assms(1,2) by (auto simp: PrintTopology_def stages_def Let_def)
  note ids = stage_tasks_ids [OF assms(3-5)]
  have one: "distinct (map tk_TaskID (sort_key tk_TaskID (stage_tasks e topo s)))"
    "set (map tk_TaskID (sort_key tk_TaskID (stage_tasks e topo s))) = stage_ids (tp_Tasks topo) s" for s
  proof -
    have "mset (map tk_TaskID (sort_key tk_TaskID (stage_tasks e topo s))) = mset (map tk_TaskID (stage_tasks e topo s))"
      by simp
    then show "distinct (map tk_TaskID (sort_key tk_TaskID (stage_tasks e topo s)))"
      "set (map tk_TaskID (sort_key tk_TaskID (stage_tasks e topo s))) = stage_ids (tp_Tasks topo) s"
      using ids [of s] by (metis mset_eq_imp_distinct_iff, metis mset_eq_setD)
  qed
  have disj: "stage_ids (tp_Tasks topo) s \<inter> stage_ids (tp_Tasks topo) s' = {}" if "s \<noteq> s'" for s s'
    using that by (auto simp: stage_ids_def)
  define f where "f s = map tk_TaskID (sort_key tk_TaskID (stage_tasks e topo s))" for s
  note one = one [folded f_def] and rows = rows [folded f_def]
  have "distinct (concat (map f ss))" if "distinct ss" for ss
    using that
  proof (induction ss)
    case (Cons a ss)
    have "set (f a) \<inter> set (f x) = {}" if "x \<in> set ss" for x
      using that Cons.prems unfolding one(2) by (intro disj) auto
    then have "set (f a) \<inter> (\<Union>x \<in> set ss. set (f x)) = {}" by blast
    moreover have "distinct (concat (map f ss))" using Cons by simp
    ultimately show ?case using one(1) [of a] by simp
  qed simp
  moreover have "(\<Union>s \<in> set stages. stage_ids (tp_Tasks topo) s) = dom (tp_Tasks topo)"
  proof (intro equalityI subsetI)
    fix i assume "i \<in> dom (tp_Tasks topo)"
    then obtain t where t: "tp_Tasks topo i = Some t" by blast
    then have "(i, t) \<in> set (entries (le_tasks e (tp_Tasks topo)) (tp_Tasks topo))"
      using visitsD [OF assms(3,4)] by (auto simp: entries_set)
    then have "tk_Stage t \<in> set stages" by (force simp: st(2) all_tasks_of_def)
    with t show "i \<in> (\<Union>s \<in> set stages. stage_ids (tp_Tasks topo) s)" by (auto simp: stage_ids_def)
  qed (auto simp: stage_ids_def)
  ultimately show ?thesis using st(1) by (simp add: rows one(2))
qed

subsection \<open>Members and files\<close>

text \<open>The IDs \<open>PrintSuspectedNodes\<close> prints.\<close>

definition PrintSuspectedNodes :: "Config \<Rightarrow> MembershipList \<Rightarrow> string list" where
  "PrintSuspectedNodes cfg nodes =
     concat (map (\<lambda>m. if m_Status m = StatusSuspect \<and> cfg_Protocol cfg \<in> {GossipProtocol, PingAckProtocol}
       then [MemberID m] else []) nodes)"

definition ListFiles :: "((string \<rightharpoonup> FileMetadata) \<Rightarrow> string list) \<Rightarrow> Metadata \<Rightarrow> string list" where
  "ListFiles ord m = ord (md_Files m)"

subsection \<open>Connections\<close>

record Reply =
  re_success :: bool
  re_error :: "string option"
  re_message :: string

text \<open>An ACK without a sender is a reply of its own, every other failure an error reply.\<close>

definition reply_of :: "string go \<Rightarrow> Reply" where
  "reply_of r =
     (case r of
        Inr m \<Rightarrow> \<lparr>re_success = True, re_error = None, re_message = m\<rparr>
      | Inl (GoError m) \<Rightarrow>
          if m = ''Sender task not found'' then \<lparr>re_success = False, re_error = None, re_message = m\<rparr>
          else \<lparr>re_success = False, re_error = Some m, re_message = []\<rparr>
      | Inl (GoPanic m) \<Rightarrow> \<lparr>re_success = False, re_error = Some m, re_message = []\<rparr>)"

datatype incoming = Undecodable | Incoming time bool "string list" string json

fun handleRainstormConnection :: "incoming list \<Rightarrow> RNode \<Rightarrow> Reply list \<times> message list \<times> RNode" where
  "handleRainstormConnection [] n = ([], [], n)"
| "handleRainstormConnection (Undecodable # ms) n = ([], [], n)"
| "handleRainstormConnection (Incoming now wr ids msgType payload # ms) n =
     (case routeRainstormMessage now wr ids msgType payload n of
        (r, out, n1) \<Rightarrow>
          (case handleRainstormConnection ms n1 of (rs, out', n2) \<Rightarrow> (reply_of r # rs, out @ out', n2)))"

text \<open>\<open>SendRainstormMessage\<close> on the reply it gets, if any.\<close>

definition SendRainstormMessage :: "Reply option \<Rightarrow> string + Reply" where
  "SendRainstormMessage response =
     (case response of
        None \<Rightarrow> Inl ''failed to receive response''
      | Some r \<Rightarrow>
          if \<not> re_success r then
            (case re_error r of Some e \<Rightarrow> Inl (''server error: '' @ e) | None \<Rightarrow> Inl ''server returned error response'')
          else Inr r)"

definition SendACK_payload :: "string \<Rightarrow> string \<Rightarrow> json" where
  "SendACK_payload tupleID taskID = JObj [(''tuple_id'', JStr tupleID), (''task_id'', JStr taskID)]"

lemma connection_replies:
  "length (fst (handleRainstormConnection ms n)) = length (takeWhile (\<lambda>m. m \<noteq> Undecodable) ms)"
  by (induction ms n rule: handleRainstormConnection.induct) (auto split: prod.split)

text \<open>The client reports success exactly if the server's handler did.\<close>

lemma client_sees_result: "(\<exists>r'. SendRainstormMessage (Some (reply_of r)) = Inr r') \<longleftrightarrow> (\<exists>m. r = Inr m)"
  by (auto simp: SendRainstormMessage_def reply_of_def split: sum.splits go_err.splits)

text \<open>A control message is refused: the server knows no such type.\<close>

lemma control_messages_refused:
  "fst (handleRainstormConnection [Incoming now wr ids ''CONTROL'' payload] n) =
    [\<lparr>re_success = False, re_error = Some ''unknown message type: CONTROL'', re_message = []\<rparr>]"
  by (simp add: routeRainstormMessage_def reply_of_def)

end
