(* ===== verification/Csv.thy ===== *)
theory Csv imports GoLib begin

text \<open>
  \<open>encoding/csv\<close> with its default settings, as far as the operators use it: reading the first record of
  a text with any number of fields, and writing one record. A quoted field may hold commas, doubled quotes
  and line breaks; a quote inside an unquoted field, or anything but a comma or line end after a closing
  quote, is an error.
\<close>

subsection \<open>Reading\<close>

text \<open>Line ends: a carriage return before a newline, and one at the end of the text, are dropped.\<close>

fun normalize_eol :: "string \<Rightarrow> string" where
  "normalize_eol [] = []"
| "normalize_eol (c # cs) =
     (if c = CHR 0x0D \<and> (cs = [] \<or> hd cs = CHR 0x0A) then normalize_eol cs else c # normalize_eol cs)"

text \<open>
  The fields of one record: \<open>csv_fields\<close> is at the start of a field, \<open>csv_plain\<close> inside one that
  started without a quote, \<open>csv_quoted\<close> inside a quoted one, \<open>csv_closed\<close> after a quote in it; the
  accumulated text is in order.
\<close>

fun csv_fields :: "string \<Rightarrow> string list option"
  and csv_plain :: "string \<Rightarrow> string \<Rightarrow> string list option"
  and csv_quoted :: "string \<Rightarrow> string \<Rightarrow> string list option"
  and csv_closed :: "string \<Rightarrow> string \<Rightarrow> string list option" where
  "csv_fields [] = csv_plain [] []"
| "csv_fields (c # cs) = (if c = CHR 0x22 then csv_quoted [] cs else csv_plain [] (c # cs))"
| "csv_plain acc [] = Some [acc]"
| "csv_plain acc (c # cs) =
     (if c = CHR '','' then map_option ((#) acc) (csv_fields cs)
      else if c = CHR 0x0A then Some [acc]
      else if c = CHR 0x22 then None
      else csv_plain (acc @ [c]) cs)"
| "csv_quoted acc [] = None"
| "csv_quoted acc (c # cs) = (if c = CHR 0x22 then csv_closed acc cs else csv_quoted (acc @ [c]) cs)"
| "csv_closed acc [] = Some [acc]"
| "csv_closed acc (c # cs) =
     (if c = CHR 0x22 then csv_quoted (acc @ [CHR 0x22]) cs
      else if c = CHR '','' then map_option ((#) acc) (csv_fields cs)
      else if c = CHR 0x0A then Some [acc]
      else None)"

text \<open>\<open>Read\<close>: empty lines before the record are skipped; \<open>None\<close> stands for an error, the end of the text included.\<close>

definition csv_read :: "string \<Rightarrow> string list option" where
  "csv_read s =
     (let t = dropWhile (\<lambda>c. c = CHR 0x0A) (normalize_eol s)
      in if t = [] then None else csv_fields t)"

subsection \<open>Writing\<close>

definition csv_needs_quotes :: "string \<Rightarrow> bool" where
  "csv_needs_quotes f \<longleftrightarrow> f \<noteq> [] \<and>
     (f = [CHR 0x5C, CHR ''.''] \<or> set f \<inter> {CHR 0x0A, CHR 0x0D, CHR 0x22, CHR '',''} \<noteq> {} \<or> is_space (hd f))"

fun csv_escape :: "string \<Rightarrow> string" where
  "csv_escape [] = []"
| "csv_escape (c # cs) = (if c = CHR 0x22 then [CHR 0x22, CHR 0x22] else [c]) @ csv_escape cs"

definition csv_field :: "string \<Rightarrow> string" where
  "csv_field f = (if csv_needs_quotes f then [CHR 0x22] @ csv_escape f @ [CHR 0x22] else f)"

fun csv_join :: "string list \<Rightarrow> string" where
  "csv_join [] = []"
| "csv_join [f] = csv_field f"
| "csv_join (f # fs) = csv_field f @ [CHR '',''] @ csv_join fs"

definition csv_write :: "string list \<Rightarrow> string" where
  "csv_write fs = csv_join fs @ [CHR 0x0A]"

text \<open>\<open>strings.TrimRight\<close> with the cut set of the two line-end characters.\<close>

definition trim_eol :: "string \<Rightarrow> string" where
  "trim_eol s = rev (dropWhile (\<lambda>c. c = CHR 0x0D \<or> c = CHR 0x0A) (rev s))"

subsection \<open>What was written reads back\<close>

text \<open>Text that no line-end rule changes.\<close>

definition plain_text :: "string \<Rightarrow> bool" where
  "plain_text s \<longleftrightarrow> CHR 0x0D \<notin> set s"

lemma normalize_plain: "plain_text s \<Longrightarrow> normalize_eol s = s"
  by (induction s rule: normalize_eol.induct) (auto simp: plain_text_def)

lemma normalize_subset: "set (normalize_eol s) \<subseteq> set s"
  by (induction s rule: normalize_eol.induct) auto

lemma csv_quoted_escape: "csv_quoted acc (csv_escape f @ CHR 0x22 # rest) = csv_closed (acc @ f) rest"
  by (induction f arbitrary: acc) auto

lemma csv_plain_run:
  "set f \<inter> {CHR '','', CHR 0x0A, CHR 0x22} = {} \<Longrightarrow> csv_plain acc (f @ rest) = csv_plain (acc @ f) rest"
  by (induction f arbitrary: acc) auto

lemma csv_fields_plain: "(s = [] \<or> hd s \<noteq> CHR 0x22) \<Longrightarrow> csv_fields s = csv_plain [] s"
  by (cases s) auto

lemma csv_fields_field:
  assumes "rest = [] \<or> hd rest = CHR '',''"
  shows "csv_fields (csv_field f @ rest) =
    (case rest of [] \<Rightarrow> Some [f] | _ # r \<Rightarrow> map_option ((#) f) (csv_fields r))"
proof (cases "csv_needs_quotes f")
  case True
  then have "csv_fields (csv_field f @ rest) = csv_closed f rest"
    by (simp add: csv_field_def csv_quoted_escape)
  then show ?thesis using assms by (cases rest) auto
next
  case False
  then have s: "set f \<inter> {CHR '','', CHR 0x0A, CHR 0x22} = {}" by (auto simp: csv_needs_quotes_def)
  have "f @ rest = [] \<or> hd (f @ rest) \<noteq> CHR 0x22"
  proof (cases f)
    case Nil
    then show ?thesis using assms by auto
  next
    case (Cons a list)
    then show ?thesis using s by auto
  qed
  then have "csv_fields (f @ rest) = csv_plain f rest"
    using csv_plain_run [OF s, of "[]" rest] by (simp add: csv_fields_plain)
  then show ?thesis using assms False by (cases rest) (auto simp: csv_field_def)
qed

lemma csv_fields_join: "fs \<noteq> [] \<Longrightarrow> csv_fields (csv_join fs) = Some fs"
proof (induction fs rule: csv_join.induct)
  case (2 f)
  then show ?case using csv_fields_field [of "[]" f] by simp
next
  case (3 f g gs)
  then show ?case using csv_fields_field [of "CHR '','' # csv_join (g # gs)" f] by simp
qed simp

lemma csv_field_edges:
  assumes "f \<noteq> []"
  shows "csv_field f \<noteq> [] \<and> hd (csv_field f) \<noteq> CHR 0x0A \<and> last (csv_field f) \<notin> {CHR 0x0A, CHR 0x0D}"
proof (cases "csv_needs_quotes f")
  case False
  then have "set f \<inter> {CHR 0x0A, CHR 0x0D} = {}" using assms by (auto simp: csv_needs_quotes_def)
  moreover have "hd f \<in> set f" "last f \<in> set f" using assms by simp_all
  ultimately have "hd f \<noteq> CHR 0x0A \<and> last f \<notin> {CHR 0x0A, CHR 0x0D}" by (metis IntI empty_iff insertCI)
  then show ?thesis using False assms by (simp add: csv_field_def)
qed (simp add: csv_field_def)

lemma csv_field_Nil [simp]: "csv_field [] = []"
  by (simp add: csv_field_def csv_needs_quotes_def)

lemma csv_join_Nil: "csv_join fs = [] \<longleftrightarrow> fs = [] \<or> fs = [[]]"
proof (cases fs rule: csv_join.cases)
  case (2 f)
  then show ?thesis using csv_field_edges [of f] by (cases "f = []") auto
qed auto

lemma csv_join_hd: "csv_join fs \<noteq> [] \<Longrightarrow> hd (csv_join fs) \<noteq> CHR 0x0A"
proof (induction fs rule: csv_join.induct)
  case (2 f)
  then show ?case using csv_field_edges [of f] by (cases "f = []") auto
next
  case (3 f g gs)
  then show ?case using csv_field_edges [of f] by (cases "f = []") (auto simp: hd_append)
qed simp

lemma csv_join_last: "csv_join fs \<noteq> [] \<Longrightarrow> last (csv_join fs) \<notin> {CHR 0x0A, CHR 0x0D}"
proof (induction fs rule: csv_join.induct)
  case (2 f)
  then show ?case using csv_field_edges [of f] by (cases "f = []") auto
next
  case (3 f g gs)
  then show ?case by (cases "csv_join (g # gs) = []") auto
qed simp

lemma csv_escape_chars: "set (csv_escape f) = set f"
  by (induction f) auto

lemma csv_join_chars: "set (csv_join fs) \<subseteq> (\<Union>f \<in> set fs. set f) \<union> {CHR 0x22, CHR '',''}"
proof (induction fs rule: csv_join.induct)
  case (3 f g gs)
  then show ?case by (auto simp: csv_field_def csv_escape_chars)
qed (auto simp: csv_field_def csv_escape_chars)

lemma trim_csv_write: "trim_eol (csv_write fs) = csv_join fs"
proof -
  have "dropWhile (\<lambda>c. c = CHR 0x0D \<or> c = CHR 0x0A) (rev (csv_join fs)) = rev (csv_join fs)"
    using csv_join_last [of fs] by (cases "csv_join fs" rule: rev_cases) auto
  then show ?thesis by (simp add: trim_eol_def csv_write_def)
qed

lemma csv_read_write:
  assumes "\<forall>f \<in> set fs. plain_text f" "fs \<noteq> []" "fs \<noteq> [[]]"
  shows "csv_read (csv_join fs) = Some fs"
proof -
  have "CHR 0x0D \<notin> set (csv_join fs)" using csv_join_chars [of fs] assms(1) by (auto simp: plain_text_def)
  then have "normalize_eol (csv_join fs) = csv_join fs" by (intro normalize_plain) (simp add: plain_text_def)
  moreover have ne: "csv_join fs \<noteq> []" using assms(2,3) by (simp add: csv_join_Nil)
  moreover have "dropWhile (\<lambda>c. c = CHR 0x0A) (csv_join fs) = csv_join fs"
    using csv_join_hd [OF ne] ne by (cases "csv_join fs") auto
  ultimately show ?thesis using csv_fields_join [OF assms(2)] by (simp add: csv_read_def)
qed

text \<open>The fields of a text hold only its characters.\<close>

lemma csv_fields_chars:
  "csv_fields s = Some fs \<Longrightarrow> (\<Union>f \<in> set fs. set f) \<subseteq> set s"
  "csv_plain acc s = Some fs \<Longrightarrow> (\<Union>f \<in> set fs. set f) \<subseteq> set acc \<union> set s"
  "csv_quoted acc s = Some fs \<Longrightarrow> (\<Union>f \<in> set fs. set f) \<subseteq> set acc \<union> set s"
  "csv_closed acc s = Some fs \<Longrightarrow> (\<Union>f \<in> set fs. set f) \<subseteq> set acc \<union> insert (CHR 0x22) (set s)"
proof (induction s and acc s and acc s and acc s arbitrary: fs and fs and fs and fs
    rule: csv_fields_csv_plain_csv_quoted_csv_closed.induct)
qed (fastforce split: if_splits)+

lemma csv_fields_nonempty:
  "csv_fields s = Some fs \<Longrightarrow> fs \<noteq> []"
  "csv_plain acc s = Some fs \<Longrightarrow> fs \<noteq> []"
  "csv_quoted acc s = Some fs \<Longrightarrow> fs \<noteq> []"
  "csv_closed acc s = Some fs \<Longrightarrow> fs \<noteq> []"
  by (induction s and acc s and acc s and acc s arbitrary: fs and fs and fs and fs
      rule: csv_fields_csv_plain_csv_quoted_csv_closed.induct) (auto split: if_splits)

end
