(* ===== verification/Operators.thy ===== *)
theory Operators imports Csv StreamNode begin

text \<open>
  The task executables \<open>filter\<close>, \<open>transform\<close> and \<open>aggregate\<close>: what each prints for a line of
  its standard input. Lines are those of \<open>ExactlyOnce\<close>: blank, not JSON, or a JSON value. Each operator
  declares its own tuple type: \<open>filter\<close> and \<open>transform\<close> have no \<open>EOF\<close> field, \<open>filter\<close> has an
  \<open>OriginalID\<close> of its own. A value always marshals, and a read error of standard input, which ends the process,
  is not modelled. Text that \<open>transform\<close> prints for a line that is no tuple is not an output
  line of the node manager, which skips it.
\<close>

subsection \<open>Tuples and output lines\<close>

definition drop_EOF :: "json \<Rightarrow> json" where
  "drop_EOF j = (case j of JObj ob \<Rightarrow> JObj (filter (\<lambda>(k, _). k \<noteq> ''EOF'') ob) | _ \<Rightarrow> j)"

definition plain_tuple :: "json \<Rightarrow> Tuple option" where
  "plain_tuple j = Tuple_of_json (drop_EOF j)"

definition filter_tuple :: "json \<Rightarrow> (Tuple \<times> string) option" where
  "filter_tuple j =
     (case (plain_tuple j, (case j of JObj ob \<Rightarrow> as_str (field ''OriginalID'' ob) | _ \<Rightarrow> Some [])) of
        (Some t, Some originalID) \<Rightarrow> Some (t, originalID)
      | _ \<Rightarrow> None)"

definition filter_tuple_json :: "Tuple \<Rightarrow> string \<Rightarrow> json" where
  "filter_tuple_json t originalID = JObj
     [(''ID'', JStr (tp_ID t)), (''Key'', JStr (tp_Key t)), (''Value'', JStr (tp_Value t)),
      (''Timestamp'', JTime (tp_Timestamp t)), (''SenderID'', JStr (tp_SenderID t)),
      (''TaskID'', JStr (tp_TaskID t)), (''OriginalID'', JStr originalID)]"

definition answer :: "string \<Rightarrow> json list \<Rightarrow> line" where
  "answer i outs = Line (JObj [(''OriginalTupleId'', JStr i), (''OutputTuples'', JArr outs)])"

subsection \<open>filter\<close>

definition nthCSVCell :: "string \<Rightarrow> int \<Rightarrow> string option" where
  "nthCSVCell row n =
     (if n \<le> 0 then None
      else case csv_read row of
          None \<Rightarrow> None
        | Some cells \<Rightarrow> if int (length cells) < n then None else Some (cells ! nat (n - 1)))"

definition filter_line :: "string \<Rightarrow> int \<Rightarrow> line \<Rightarrow> line list" where
  "filter_line pattern colIndex l =
     (case l of
        Line j \<Rightarrow>
          (case filter_tuple j of
             None \<Rightarrow> []
           | Some (t, originalID) \<Rightarrow>
               let orig = (if originalID = [] then tp_ID t else originalID)
               in if Contains (tp_Value t) pattern then
                    (if colIndex > 0 then
                       (case nthCSVCell (tp_Value t) colIndex of
                          None \<Rightarrow> []
                        | Some cell \<Rightarrow>
                            [answer (tp_ID t) [filter_tuple_json (t\<lparr>tp_Key := cell, tp_Value := cell\<rparr>) orig]])
                     else [answer (tp_ID t) [filter_tuple_json t orig]])
                  else [answer (tp_ID t) []])
      | _ \<Rightarrow> [])"

text \<open>The process arguments after the program name: a pattern, and optionally a positive column number.\<close>

definition filter_column :: "string list \<Rightarrow> int" where
  "filter_column args =
     (case args of
        _ # a # _ \<Rightarrow> (case Atoi a of (idx, ok) \<Rightarrow> if ok \<and> idx > 0 then idx else 0)
      | _ \<Rightarrow> 0)"

definition filter_main :: "string list \<Rightarrow> line list \<Rightarrow> line list go" where
  "filter_main args ls =
     (case args of
        [] \<Rightarrow> Inl (GoError ''Usage: filter <pattern>'')
      | pattern # _ \<Rightarrow> Inr (concat (map (filter_line pattern (filter_column args)) ls)))"

subsection \<open>transform\<close>

definition firstNCSVCells :: "string \<Rightarrow> nat \<Rightarrow> string option" where
  "firstNCSVCells row n =
     (case csv_read row of
        None \<Rightarrow> None
      | Some record_cells \<Rightarrow>
          if record_cells = [] then Some []
          else Some (trim_eol (csv_write (if length record_cells > n then take n record_cells else record_cells))))"

definition trimmed_value :: "string \<Rightarrow> string" where
  "trimmed_value v = (case firstNCSVCells v 3 of None \<Rightarrow> v | Some w \<Rightarrow> if w = [] then v else w)"

text \<open>\<open>raw\<close> is the text of the line.\<close>

definition transform_line :: "string \<Rightarrow> line \<Rightarrow> line list" where
  "transform_line raw l =
     (case l of
        Blank \<Rightarrow> []
      | Unparsable \<Rightarrow> [Unparsable]
      | Line j \<Rightarrow>
          (case plain_tuple j of
             None \<Rightarrow> (case firstNCSVCells raw 3 of
                 Some (_ # _) \<Rightarrow> [Unparsable]
               | _ \<Rightarrow> [l])
           | Some t \<Rightarrow> [answer (tp_ID t) [Tuple_to_json (t\<lparr>tp_Value := trimmed_value (tp_Value t), tp_EOF := None\<rparr>)]]))"

subsection \<open>aggregate\<close>

type_synonym counts = "string \<rightharpoonup> 64 word"

definition aggregate_line :: "time \<Rightarrow> line \<Rightarrow> counts \<Rightarrow> line list \<times> counts" where
  "aggregate_line now l keyCounts =
     (case l of
        Line j \<Rightarrow>
          (case Tuple_of_json j of
             None \<Rightarrow> ([], keyCounts)
           | Some t \<Rightarrow>
               if tp_EOF t = Some True then ([], keyCounts)
               else
                 let count = (case keyCounts (tp_Key t) of None \<Rightarrow> 0 | Some c \<Rightarrow> c) + 1
                 in ([answer (tp_ID t) [Tuple_to_json (zeroTuple\<lparr>tp_ID := tp_ID t, tp_Key := tp_Key t,
                        tp_Value := dec (sint count), tp_Timestamp := now\<rparr>)]],
                     keyCounts(tp_Key t \<mapsto> count)))
      | _ \<Rightarrow> ([], keyCounts))"

fun aggregate_main :: "(nat \<Rightarrow> time) \<Rightarrow> nat \<Rightarrow> line list \<Rightarrow> counts \<Rightarrow> line list" where
  "aggregate_main now k [] keyCounts = []"
| "aggregate_main now k (l # ls) keyCounts =
     (case aggregate_line (now k) l keyCounts of (out, keyCounts) \<Rightarrow> out @ aggregate_main now (k + 1) ls keyCounts)"

subsection \<open>Every tuple is answered\<close>

text \<open>The line the node manager writes for a tuple.\<close>

abbreviation tuple_line :: "Tuple \<Rightarrow> line" where
  "tuple_line t \<equiv> Line (Tuple_to_json t)"

lemma plain_tuple_line [simp]: "plain_tuple (Tuple_to_json t) = Some (t\<lparr>tp_EOF := None\<rparr>)"
  by (simp add: plain_tuple_def drop_EOF_def Tuple_to_json_def Tuple_of_json_def field_def split: option.split)

lemma filter_tuple_line [simp]: "filter_tuple (Tuple_to_json t) = Some (t\<lparr>tp_EOF := None\<rparr>, [])"
proof -
  have "as_str (field ''OriginalID'' ob) = Some []" if "Tuple_to_json t = JObj ob" for ob
    using that by (auto simp: Tuple_to_json_def field_def split: option.splits)
  moreover obtain ob where "Tuple_to_json t = JObj ob" by (simp add: Tuple_to_json_def)
  ultimately show ?thesis using plain_tuple_line [of t] by (simp add: filter_tuple_def)
qed

lemma filter_tuple_json_read [simp]:
  "Tuple_of_json (filter_tuple_json t orig) = Some (t\<lparr>tp_EOF := None\<rparr>)"
  by (simp add: filter_tuple_json_def Tuple_of_json_def field_def)

lemma parse_answer:
  assumes "i \<noteq> []" "map Tuple_of_json outs = map Some ts"
  shows "parse_output (answer i outs) = Some (i, ts)"
proof -
  have "all_some (map Some ts) = Some ts" for ts :: "Tuple list" by (induction ts) simp_all
  then show ?thesis using assms by (simp add: parse_output_def answer_def json_key_def)
qed


text \<open>With a column, a row that has no such cell gets no answer at all: the input is never completed.\<close>

lemma filter_missing_cell_no_answer:
  assumes "Contains (tp_Value t) pattern" "0 < col" "nthCSVCell (tp_Value t) col = None"
  shows "filter_line pattern col (tuple_line t) = []"
  using assms by (simp add: filter_line_def Let_def)


subsection \<open>What transform keeps\<close>

text \<open>
  The value \<open>transform\<close> sends on reads back, cell by cell, as the first three cells of the
  value it got, whatever commas, quotes and line breaks they hold.
\<close>

theorem transform_keeps_first_cells:
  assumes "csv_read v = Some cells" "plain_text v" "cells \<noteq> [[]]"
  shows "csv_read (trimmed_value v) = Some (take 3 cells)"
proof -
  let ?t = "dropWhile (\<lambda>c. c = CHR 0x0A) (normalize_eol v)"
  have f: "csv_fields ?t = Some cells" using assms(1) by (auto simp: csv_read_def Let_def split: if_splits)
  have "set ?t \<subseteq> set v" using normalize_subset [of v] set_dropWhileD by fastforce
  then have plain: "\<forall>f \<in> set cells. plain_text f"
    using csv_fields_chars(1) [OF f] assms(2) by (auto simp: plain_text_def)
  have ne: "cells \<noteq> []" by (rule csv_fields_nonempty(1) [OF f])
  let ?c = "take 3 cells"
  have c: "(if length cells > 3 then take 3 cells else cells) = ?c" by simp
  have ok: "\<forall>f \<in> set ?c. plain_text f" "?c \<noteq> []" "?c \<noteq> [[]]"
    using plain ne assms(3) by (auto dest: in_set_takeD) (cases cells; cases "tl cells"; auto)
  have "csv_join ?c \<noteq> []" using ok by (simp add: csv_join_Nil)
  then have "trimmed_value v = csv_join ?c"
    using assms(1) ne by (simp add: trimmed_value_def firstNCSVCells_def c trim_csv_write)
  then show ?thesis using csv_read_write [OF ok] by simp
qed

theorem transform_keeps_first_cells_witness:
  "csv_read (trimmed_value ''a,b c,d,e'') = Some [''a'', ''b c'', ''d'']"
proof -
  have "csv_read ''a,b c,d,e'' = Some [''a'', ''b c'', ''d'', ''e'']" by code_simp
  moreover have "plain_text ''a,b c,d,e''" by (simp add: plain_text_def)
  ultimately show ?thesis using transform_keeps_first_cells [of "''a,b c,d,e''"] by simp
qed

subsection \<open>Counting\<close>

definition count_of :: "counts \<Rightarrow> string \<Rightarrow> 64 word" where
  "count_of keyCounts k = (case keyCounts k of None \<Rightarrow> 0 | Some c \<Rightarrow> c)"

lemma aggregate_run:
  assumes "\<forall>t \<in> set ts. tp_EOF t = None \<and> tp_ID t \<noteq> []"
  shows "length (aggregate_main now k (map tuple_line ts) c) = length ts \<and>
    (\<forall>i < length ts. \<exists>t'. parse_output (aggregate_main now k (map tuple_line ts) c ! i) = Some (tp_ID (ts ! i), [t']) \<and>
      tp_Key t' = tp_Key (ts ! i) \<and>
      tp_Value t' = dec (sint (count_of c (tp_Key (ts ! i)) + of_nat (count_list (map tp_Key (take (i + 1) ts)) (tp_Key (ts ! i))))))"
  using assms
proof (induction ts arbitrary: k c)
  case (Cons t ts)
  let ?n = "count_of c (tp_Key t) + 1" let ?c = "c(tp_Key t \<mapsto> ?n)"
  let ?out = "zeroTuple\<lparr>tp_ID := tp_ID t, tp_Key := tp_Key t, tp_Value := dec (sint ?n), tp_Timestamp := now k\<rparr>"
  let ?l = "answer (tp_ID t) [Tuple_to_json ?out]"
  have run: "aggregate_main now k (map tuple_line (t # ts)) c = ?l # aggregate_main now (k + 1) (map tuple_line ts) ?c"
    using Cons.prems by (simp add: aggregate_line_def Let_def count_of_def)
  have rest: "\<forall>t \<in> set ts. tp_EOF t = None \<and> tp_ID t \<noteq> []" using Cons.prems by simp
  have IH: "length (aggregate_main now (k + 1) (map tuple_line ts) ?c) = length ts"
    "\<And>i. i < length ts \<Longrightarrow> \<exists>t'. parse_output (aggregate_main now (k + 1) (map tuple_line ts) ?c ! i) = Some (tp_ID (ts ! i), [t']) \<and>
      tp_Key t' = tp_Key (ts ! i) \<and>
      tp_Value t' = dec (sint (count_of ?c (tp_Key (ts ! i)) + of_nat (count_list (map tp_Key (take (i + 1) ts)) (tp_Key (ts ! i)))))"
    using Cons.IH [OF rest, of "k + 1" ?c] by blast+
  define F where "F = aggregate_main now (k + 1) (map tuple_line ts) ?c"
  note IH = IH [folded F_def]
  have "\<exists>t'. parse_output ((?l # F) ! i) = Some (tp_ID ((t # ts) ! i), [t']) \<and> tp_Key t' = tp_Key ((t # ts) ! i) \<and>
      tp_Value t' = dec (sint (count_of c (tp_Key ((t # ts) ! i)) +
        of_nat (count_list (map tp_Key (take (i + 1) (t # ts))) (tp_Key ((t # ts) ! i)))))"
    if "i < length (t # ts)" for i
  proof (cases i)
    case 0
    have "parse_output ?l = Some (tp_ID t, [?out])" using Cons.prems by (intro parse_answer) auto
    then show ?thesis using 0 by simp
  next
    case (Suc j)
    have "count_of ?c (tp_Key (ts ! j)) = count_of c (tp_Key (ts ! j)) + (if tp_Key t = tp_Key (ts ! j) then 1 else 0)"
      by (simp add: count_of_def)
    then show ?thesis using IH(2) [of j] that Suc by (cases "tp_Key t = tp_Key (ts ! j)") (simp_all add: ac_simps)
  qed
  then show ?case unfolding run F_def [symmetric] using IH(1) by simp
qed simp

text \<open>
  C38: \<open>aggregate\<close> keeps a running count per key: its answer to the \<open>i\<close>-th tuple carries, in decimal,
  how many of the first \<open>i\<close> tuples have that tuple's key, as long as that is below two to the power 63.
\<close>

theorem aggregate_counts_keys:
  assumes "\<forall>t \<in> set ts. tp_EOF t = None \<and> tp_ID t \<noteq> []" "length ts < 2 ^ 63" "i < length ts"
  shows "\<exists>t'. parse_output (aggregate_main now 0 (map tuple_line ts) Map.empty ! i) = Some (tp_ID (ts ! i), [t']) \<and>
    tp_Key t' = tp_Key (ts ! i) \<and>
    tp_Value t' = dec (int (count_list (map tp_Key (take (i + 1) ts)) (tp_Key (ts ! i))))"
proof -
  let ?n = "count_list (map tp_Key (take (i + 1) ts)) (tp_Key (ts ! i))"
  have "?n \<le> length (map tp_Key (take (i + 1) ts))" by (rule count_le_length)
  then have n: "?n < 2 ^ 63" using assms(2) by simp
  have "sint (of_nat ?n :: 64 word) = int ?n"
  proof -
    have "sint (of_nat ?n :: 64 word) = signed_take_bit 63 (int ?n)"
      using signed_of_nat [where 'a = int and 'b = 64] by simp
    also have "signed_take_bit 63 (int ?n) = int ?n" using n by (intro signed_take_bit_int_eq_self) auto
    finally show ?thesis .
  qed
  then show ?thesis using aggregate_run [OF assms(1), of now 0 Map.empty] assms(3) by (auto simp: count_of_def)
qed

theorem aggregate_counts_keys_witness:
  "\<exists>t'. parse_output (aggregate_main (\<lambda>_. 0) 0 (map tuple_line
      [zeroTuple\<lparr>tp_ID := ''1'', tp_Key := ''k''\<rparr>, zeroTuple\<lparr>tp_ID := ''2'', tp_Key := ''k''\<rparr>]) Map.empty ! 1) = Some (''2'', [t']) \<and>
    tp_Value t' = dec 2"
  using aggregate_counts_keys [of "[zeroTuple\<lparr>tp_ID := ''1'', tp_Key := ''k''\<rparr>, zeroTuple\<lparr>tp_ID := ''2'', tp_Key := ''k''\<rparr>]" 1 "\<lambda>_. 0"]
  by (auto simp: zeroTuple_def)

end
