(* ===== verification/StreamNetwork.thy ===== *)
theory StreamNetwork imports StreamNode begin

text \<open>
  The nodes of a stream, their messages and their logs together: every node manager with the steps of
  \<open>StreamNode\<close>, tuples and ACKs in flight that the network may lose, delay, reorder and repeat, and the
  logs the flush loops write and restarted tasks read. \<open>sent_tuples_arrive\<close> is the end-to-end guarantee: a
  tuple leaves its sender's pending set only if some task got it.
\<close>

subsection \<open>Records are filed under their tuple\<close>

definition line_ok :: "line \<Rightarrow> bool" where
  "line_ok l \<longleftrightarrow>
     (case l of
        Line (JObj ob) \<Rightarrow>
          as_str (field ''type'' ob) = Some ''REC'' \<longrightarrow>
            (case ReceivedTuple_of_json (field ''payload'' ob) of
               None \<Rightarrow> True | Some rt \<Rightarrow> as_str (field ''tuple_id'' ob) = Some (rt_TupleID rt))
      | _ \<Rightarrow> True)"

definition recorded_ok :: "EOM \<Rightarrow> bool" where
  "recorded_ok e \<longleftrightarrow>
     (\<forall>i rt. eom_received e i = Some rt \<longrightarrow> rt_TupleID rt = i) \<and> list_all line_ok (eom_writeBuffer e)"

definition follows :: "EOM \<Rightarrow> EOM \<Rightarrow> bool" where
  "follows e e' \<longleftrightarrow> grows e e' \<and> (recorded_ok e \<longrightarrow> recorded_ok e')"

lemma line_ok_records [simp]:
  "line_ok (Line (JObj [(''tuple_id'', JStr i), (''type'', JStr ''REC''), (''payload'', ReceivedTuple_to_json rt)])) \<longleftrightarrow>
     i = rt_TupleID rt"
  "line_ok (Line (JObj [(''tuple_id'', JStr i), (''type'', JStr ''SENT''), (''payload'', p)]))"
  "line_ok (Line (JObj [(''tuple_id'', JStr i), (''type'', JStr ''ACK'')]))"
  by (auto simp: line_ok_def field_def)

lemma follows_trans: "follows a b \<Longrightarrow> follows b c \<Longrightarrow> follows a c"
  using grows_trans by (auto simp: follows_def)

lemma recorded_ops:
  "recorded_ok e \<Longrightarrow> recorded_ok (snd (AddReceivedTuple now t e))"
  "recorded_ok e \<Longrightarrow> recorded_ok (snd (SetExpectedOutputCount i n e))"
  "recorded_ok e \<Longrightarrow> recorded_ok (snd (IncrementOutputCount i e))"
  "recorded_ok e \<Longrightarrow> recorded_ok (AddSentTuple now t orig dest e)"
  "recorded_ok e \<Longrightarrow> recorded_ok (RemoveSentTuple i e)"
  "recorded_ok e \<Longrightarrow> recorded_ok (snd (snd (ackFlushTick e)))"
  "recorded_ok e \<Longrightarrow> recorded_ok (EOM_Stop e)"
  by (auto simp: recorded_ok_def AddReceivedTuple_def SetExpectedOutputCount_def IncrementOutputCount_def AddSentTuple_def
      RemoveSentTuple_def ackFlushTick_def EOM_Stop_def logRecord_def Let_def split: option.splits)

lemma recorded_retry: "recorded_ok e \<Longrightarrow> recorded_ok (snd (RetryPendingSends now iv ids e))"
  using RetryPendingSends_effect [of e now iv ids] by (auto simp: only_sent_changed_def recorded_ok_def)

interpretation filed: evolution follows
proof
  show "follows a b \<Longrightarrow> follows b c \<Longrightarrow> follows a c" for a b c by (rule follows_trans)
qed (simp_all add: follows_def recorded_ops recorded_retry known.R_recv known.R_expect known.R_incr known.R_send
    known.R_retry known.R_flush)

lemma replay_recorded:
  "list_all line_ok ls \<Longrightarrow> \<forall>i rt. fst v i = Some rt \<longrightarrow> rt_TupleID rt = i \<Longrightarrow>
    fst (replay ls v) i = Some rt \<Longrightarrow> rt_TupleID rt = i"
proof (induction ls arbitrary: v)
  case (Cons l ls)
  have "\<forall>i rt. fst (replay_line l v) i = Some rt \<longrightarrow> rt_TupleID rt = i"
    using Cons.prems(1,2) by (auto simp: replay_line_def line_ok_def split: line.splits json.splits option.splits)
  with Cons show ?case by (simp add: replay_def)
qed (simp add: replay_def)

lemma recorded_merge:
  assumes "list_all line_ok ls" "recorded_ok e"
  shows "recorded_ok (mergeStateFromLocalWal ls e)"
  unfolding recorded_ok_def
proof (intro conjI allI impI)
  show "rt_TupleID rt = i" if "eom_received (mergeStateFromLocalWal ls e) i = Some rt" for i rt
    by (rule replay_recorded [OF assms(1), where v = "(eom_received e, eom_sent e)"])
      (use that assms(2) in \<open>simp_all add: mergeStateFromLocalWal_def case_prod_unfold Let_def recorded_ok_def\<close>)
  show "list_all line_ok (eom_writeBuffer (mergeStateFromLocalWal ls e))"
    using assms(2) by (simp add: mergeStateFromLocalWal_def case_prod_unfold Let_def recorded_ok_def)
qed

lemma recorded_new:
  "(\<And>ls. wal = Some ls \<Longrightarrow> list_all line_ok ls) \<Longrightarrow> recorded_ok (NewExactlyOnceManager wal src fin nm task)"
  by (auto simp: NewExactlyOnceManager_def restoreFromLogs_def intro!: recorded_merge split: option.split)
    (simp_all add: recorded_ok_def)

subsection \<open>The tasks of a node\<close>

definition filed_task :: "string \<Rightarrow> TaskInfo \<Rightarrow> bool" where
  "filed_task i ti \<longleftrightarrow> tk_TaskID (ti_Task ti) = i \<and>
     (case ti_EOM ti of None \<Rightarrow> True | Some e \<Rightarrow> \<not> eom_isSource e \<and> recorded_ok e)"

definition tasks_ok :: "NodeManager \<Rightarrow> bool" where
  "tasks_ok nm \<longleftrightarrow> (\<forall>i ti. nm_TaskInfos nm i = Some ti \<longrightarrow> filed_task i ti)"

lemma tasks_ok_evolves:
  assumes "evolves follows nm nm'" "tasks_ok nm"
  shows "tasks_ok nm'"
  unfolding tasks_ok_def
proof (intro allI impI)
  fix i ti' assume "nm_TaskInfos nm' i = Some ti'"
  then obtain ti where ti: "nm_TaskInfos nm i = Some ti" "tk_TaskID (ti_Task ti') = tk_TaskID (ti_Task ti)"
    "rel_option follows (ti_EOM ti) (ti_EOM ti')" by (rule evolves_back [OF assms(1)])
  from ti(1) assms(2) have "filed_task i ti" by (simp add: tasks_ok_def)
  with ti(2,3) show "filed_task i ti'"
    by (cases "ti_EOM ti") (auto simp: filed_task_def option_rel_Some1 follows_def grows_def)
qed

lemma tasks_ok_upd:
  "tasks_ok nm \<Longrightarrow> (\<And>e. follows e (f e)) \<Longrightarrow> tasks_ok (upd_eom i f nm)"
  using tasks_ok_evolves [OF filed.upd] by blast

lemma follows_stop: "follows e (EOM_Stop e)" "follows e (RemoveSentTuple i e)"
  "list_all line_ok ls \<Longrightarrow> follows e (mergeStateFromLocalWal ls e)"
  using recorded_ops stopped.op_grows acked.op_grows merged.op_grows recorded_merge by (auto simp: follows_def)

lemma tasks_ok_start:
  assumes "tasks_ok nm" "\<And>ls. wal = Some ls \<Longrightarrow> list_all line_ok ls"
  shows "tasks_ok (fst (InitializeTask proc wal task jobSpec rate nm))"
proof -
  have "\<not> eom_isSource (NewExactlyOnceManager wal False f True t)" for f t
    by (simp add: NewExactlyOnceManager_def restoreFromLogs_def mergeStateFromLocalWal_def
        case_prod_unfold Let_def split: option.split)
  moreover have "recorded_ok (NewExactlyOnceManager wal False f True t)" for f t
    by (rule recorded_new) (use assms(2) in blast)
  ultimately show ?thesis using assms(1)
    by (auto simp: InitializeTask_def Let_def tasks_ok_def filed_task_def split: sum.split option.splits)
qed

lemma tasks_ok_topo: "tasks_ok nm \<Longrightarrow> tasks_ok (UpdateTopology topology nm)"
  by (auto simp: tasks_ok_def UpdateTopology_def filed_task_def split: option.splits if_splits)

lemma tasks_ok_kill: "tasks_ok nm \<Longrightarrow> tasks_ok (fst (KillTaskProcess k i nm))"
  using tasks_ok_upd [of nm EOM_Stop i] follows_stop(1)
  by (auto simp: KillTaskProcess_def tasks_ok_def split: option.split)

lemma tasks_ok_merge:
  "tasks_ok nm \<Longrightarrow> (\<And>ls. wal = Some (Some ls) \<Longrightarrow> list_all line_ok ls) \<Longrightarrow> tasks_ok (snd (MergeWalForTask wal old keep nm))"
  by (auto simp: MergeWalForTask_def Let_def intro!: tasks_ok_upd follows_stop(3) split: option.split)

lemma tasks_ok_quiet:
  "tasks_ok nm \<Longrightarrow> tasks_ok (fst (collectAndSendMetrics now alive nm))" "tasks_ok nm \<Longrightarrow> tasks_ok (snd (outputFlushTick nm))"
  by (auto simp: collectAndSendMetrics_def outputFlushTick_def tasks_ok_def Let_def split: option.splits)

subsection \<open>What the steps send\<close>

abbreviation no_acks :: "message list \<Rightarrow> bool" where
  "no_acks msgs \<equiv> \<forall>a x j. AckMsg a x j \<notin> set msgs"

lemma forward_sends:
  "forwardTupleToDownstream now ord dlv i t orig nm = Inr (msgs, nm') \<Longrightarrow> no_acks msgs"
  by (auto simp: forwardTupleToDownstream_def SendTuple_def Let_def split: option.splits if_splits prod.splits sum.splits)

lemma forward_all_sends: "forward_all now ord dlv i orig ts nm = Inr (msgs, nm') \<Longrightarrow> no_acks msgs"
proof (induction now ord dlv i orig ts nm arbitrary: msgs nm' rule: forward_all.induct)
  case (2 now ord dlv i orig t ts nm)
  then obtain m1 nm1 m2 where f: "forwardTupleToDownstream now ord dlv i (t\<lparr>tp_SenderID := i\<rparr>) orig nm = Inr (m1, nm1)"
    "forward_all now ord dlv i orig ts (upd_eom i (\<lambda>e. snd (IncrementOutputCount orig e)) nm1) = Inr (m2, nm')"
    "msgs = m1 @ m2"
    by (auto split: sum.splits)
  from forward_sends [OF f(1)] 2(1) [OF f(1) refl f(2)] f(3) show ?case by simp
qed simp

lemma read_line_sends: "read_line now ord dlv i l nm = Inr (msgs, nm') \<Longrightarrow> no_acks msgs"
  using forward_all_sends by (auto simp: read_line_def Let_def split: option.splits sum.splits)

lemma retry_send_sends: "no_acks (fst (retry_send now ord i st nm))"
  by (auto simp: retry_send_def SendTuple_def Let_def split: option.splits prod.splits)

lemma retry_all_sends: "no_acks (fst (retry_all now ord i due nm))"
proof (induction now ord i due nm rule: retry_all.induct)
  case (2 now ord i d due nm)
  obtain m nm1 where r: "retry_send now ord i (snd d) nm = (m, nm1)" by fastforce
  have "no_acks m" using retry_send_sends [of now ord i "snd d" nm] r by simp
  with 2 [OF r [symmetric] refl] r show ?case by (simp add: case_prod_unfold Let_def)
qed simp

lemma task_retry_sends: "task_retry now iv ord ids i nm = (msgs, nm') \<Longrightarrow> no_acks msgs"
proof -
  assume r: "task_retry now iv ord ids i nm = (msgs, nm')"
  have "no_acks (fst (task_retry now iv ord ids i nm))"
    using retry_all_sends by (simp add: task_retry_def case_prod_unfold split: option.split)
  with r show ?thesis by simp
qed

lemma ack_payload: "AckMsg a x j \<in> set (sendACKForTuple i s t) \<Longrightarrow> x = i \<and> j = tk_TaskID t"
  by (auto simp: sendACKForTuple_def split: option.splits)

lemma tuple_acks:
  assumes ok: "tasks_ok nm" and h: "handleTupleMessage now wr payload (Some nm) = (r, msgs, nm')"
    and m: "AckMsg a x j \<in> set msgs"
  shows "tracked (knows x) j nm"
proof -
  obtain t ti e where t: "nm_TaskInfos nm (tp_TaskID t) = Some ti" "ti_EOM ti = Some e"
    "\<not> fst (AddReceivedTuple now t e)" "AckMsg a x j \<in> set (sendACKForTuple (tp_ID t) (tp_SenderID t) (ti_Task ti))"
    using h m by (auto simp: handleTupleMessage_def Let_def split: option.splits if_splits)
  have "filed_task (tp_TaskID t) ti" using ok t(1) by (simp add: tasks_ok_def)
  with t ack_payload [OF t(4)] show ?thesis
    by (auto simp: tracked_def knows_def filed_task_def AddReceivedTuple_def Let_def split: if_splits)
qed

lemma flush_acks_known:
  assumes "recorded_ok e" "(x, s) \<in> set (flush_acks e)"
  shows "eom_received e x \<noteq> None"
proof -
  define g where "g i = (case eom_received e i of None \<Rightarrow> []
      | Some rt \<Rightarrow> if rt_SenderID rt = [] then [] else [(rt_TupleID rt, rt_SenderID rt)])" for i
  have "(x, s) \<in> set (concat (map g (eom_pendingAcks e)))"
    using assms(2) unfolding flush_acks_def g_def [abs_def] by (cases "eom_nm e \<and> eom_task e \<noteq> None") simp_all
  then obtain i where "(x, s) \<in> set (g i)" unfolding set_concat set_map by blast
  then obtain rt where "eom_received e i = Some rt" "x = rt_TupleID rt"
    by (cases "eom_received e i") (simp_all add: g_def split: if_splits)
  with assms(1) show ?thesis by (auto simp: recorded_ok_def)
qed

lemma flush_acks_sent:
  assumes ok: "tasks_ok nm" and f: "task_flush i nm = (wal, msgs, nm')"
  shows "AckMsg a x j \<in> set msgs \<Longrightarrow> tracked (knows x) j nm" and "list_all line_ok wal"
proof -
  have task: "filed_task i ti" if "nm_TaskInfos nm i = Some ti" for ti using ok that by (simp add: tasks_ok_def)
  show "list_all line_ok wal"
    using f task by (fastforce simp: task_flush_def ackFlushTick_def filed_task_def recorded_ok_def
        split: option.splits if_splits)
  assume m: "AckMsg a x j \<in> set msgs"
  obtain ti e where t: "nm_TaskInfos nm i = Some ti" "ti_EOM ti = Some e"
    "msgs = concat (map (\<lambda>(y, s). sendACKForTuple y s (ti_Task ti)) (fst (snd (ackFlushTick e))))"
    using f m by (auto simp: task_flush_def split: option.splits prod.splits)
  then obtain y s where y: "(y, s) \<in> set (fst (snd (ackFlushTick e)))" "AckMsg a x j \<in> set (sendACKForTuple y s (ti_Task ti))"
    using m by auto
  have "fst (snd (ackFlushTick e)) = flush_acks e \<or> fst (snd (ackFlushTick e)) = []" by (simp add: ackFlushTick_def)
  with y have "(x, s) \<in> set (flush_acks e)" "j = tk_TaskID (ti_Task ti)" using ack_payload by fastforce+
  with task [OF t(1)] t(1,2) flush_acks_known show "tracked (knows x) j nm"
    by (auto simp: tracked_def knows_def filed_task_def)
qed

subsection \<open>The network\<close>

text \<open>
  Nodes by the address they listen on, messages ever sent, the log of each task, and, for the record, what
  tasks knew when they were killed or their process crashed.
\<close>

record SNet =
  sn_nodes :: "string \<rightharpoonup> NodeManager"
  sn_net :: "message set"
  sn_logs :: "string \<Rightarrow> line list"
  sn_lost :: "(string \<times> string) set"

definition at_node :: "string \<Rightarrow> NodeManager \<Rightarrow> message list \<Rightarrow> SNet \<Rightarrow> SNet" where
  "at_node a nm msgs s = s\<lparr>sn_nodes := (sn_nodes s)(a \<mapsto> nm), sn_net := sn_net s \<union> set msgs\<rparr>"

definition known_at :: "NodeManager \<Rightarrow> (string \<times> string) set" where
  "known_at nm = {(j, x). tracked (knows x) j nm}"

datatype net_event = At string event | Boot string | Crash string | Source

inductive net_step :: "net_event \<Rightarrow> SNet \<Rightarrow> SNet \<Rightarrow> bool" where
  boot: "sn_nodes s a = None \<Longrightarrow> net_step (Boot a) s (at_node a (NewNodeManager addr) [] s)"
| crash: "sn_nodes s a = Some nm \<Longrightarrow>
    net_step (Crash a) s (s\<lparr>sn_nodes := (sn_nodes s)(a := None), sn_lost := sn_lost s \<union> known_at nm\<rparr>)"
| source: "net_step Source s (s\<lparr>sn_net := insert (TupleMsg a t) (sn_net s)\<rparr>)"
| deliver: "sn_nodes s a = Some nm \<Longrightarrow> TupleMsg a t \<in> sn_net s \<Longrightarrow>
    handleTupleMessage now wr (Tuple_to_json t) (Some nm) = (r, msgs, Some nm') \<Longrightarrow>
    net_step (At a TupleIn) s (at_node a nm' msgs s)"
| ack: "sn_nodes s a = Some nm \<Longrightarrow> AckMsg a x j \<in> sn_net s \<Longrightarrow> find_sender ids x nm = Some i \<Longrightarrow>
    net_step (At a (AckIn x)) s (at_node a (upd_eom i (RemoveSentTuple x) nm) [] s)"
| out_line: "sn_nodes s a = Some nm \<Longrightarrow> read_line now ord dlv i l nm = Inr (msgs, nm') \<Longrightarrow>
    net_step (At a OutLine) s (at_node a nm' msgs s)"
| flush: "sn_nodes s a = Some nm \<Longrightarrow> task_flush i nm = (wal, msgs, nm') \<Longrightarrow>
    net_step (At a FlushWal) s
      (at_node a nm' msgs (s\<lparr>sn_logs := (sn_logs s)(i := sn_logs s i @ (if stored then wal else []))\<rparr>))"
| resend: "sn_nodes s a = Some nm \<Longrightarrow> task_retry now iv ord ids i nm = (msgs, nm') \<Longrightarrow>
    net_step (At a Retry) s (at_node a nm' msgs s)"
| begin_task: "sn_nodes s a = Some nm \<Longrightarrow> wal \<in> {None, Some (sn_logs s (tk_TaskID task))} \<Longrightarrow>
    net_step (At a Start) s (at_node a (fst (InitializeTask proc wal task jobSpec rate nm)) [] s)"
| topology: "sn_nodes s a = Some nm \<Longrightarrow> net_step (At a Topo) s (at_node a (UpdateTopology topology nm) [] s)"
| end_task: "sn_nodes s a = Some nm \<Longrightarrow>
    net_step (At a (Kill i)) s
      (at_node a (fst (KillTaskProcess killed i nm)) [] (s\<lparr>sn_lost := sn_lost s \<union> {p \<in> known_at nm. fst p = i}\<rparr>))"
| take_over: "sn_nodes s a = Some nm \<Longrightarrow> wal \<in> {None, Some None, Some (Some (sn_logs s old))} \<Longrightarrow>
    net_step (At a (Merge keep)) s (at_node a (snd (MergeWalForTask wal old keep nm)) []
      (s\<lparr>sn_logs := (sn_logs s)(keep := sn_logs s keep @ (if stored then sn_logs s old else []))\<rparr>))"
| metrics: "sn_nodes s a = Some nm \<Longrightarrow> net_step (At a Report) s (at_node a (fst (collectAndSendMetrics now alive nm)) [] s)"
| results: "sn_nodes s a = Some nm \<Longrightarrow> net_step (At a FlushOutput) s (at_node a (snd (outputFlushTick nm)) [] s)"

inductive_cases net_stepE: "net_step ev s s'"

inductive net_run :: "net_event list \<Rightarrow> SNet \<Rightarrow> SNet \<Rightarrow> bool" where
  finished: "net_run [] s s"
| further: "net_step ev s s1 \<Longrightarrow> net_run evs s1 s' \<Longrightarrow> net_run (ev # evs) s s'"

definition noNet :: SNet where
  "noNet = \<lparr>sn_nodes = Map.empty, sn_net = {}, sn_logs = (\<lambda>_. []), sn_lost = {}\<rparr>"

text \<open>What the network does at a node is a step of that node.\<close>

lemma net_step_node:
  assumes "net_step (At a ev) s s'"
  obtains nm nm' where "sn_nodes s a = Some nm" "nm_step ev nm nm'" "sn_nodes s' = (sn_nodes s)(a \<mapsto> nm')"
    "sn_lost s' = sn_lost s \<union> {p \<in> known_at nm. ev = Kill (fst p)}"
  using assms
proof (cases rule: net_step.cases)
  case (flush nm i wal msgs nm' stored)
  have "nm_step FlushWal nm (snd (snd (task_flush i nm)))" by (rule nm_step.flush_wal)
  with flush that show ?thesis by (simp add: at_node_def)
next
  case (resend nm now iv ord ids i msgs nm')
  have "nm_step Retry nm (snd (task_retry now iv ord ids i nm))" by (rule nm_step.retry)
  with resend that show ?thesis by (simp add: at_node_def)
qed (auto simp: at_node_def intro: that nm_step.intros)

definition arrived :: "SNet \<Rightarrow> string \<Rightarrow> string \<Rightarrow> bool" where
  "arrived s j x \<longleftrightarrow> (j, x) \<in> sn_lost s \<or> (\<exists>b nm. sn_nodes s b = Some nm \<and> tracked (knows x) j nm)"

lemma arrived_step: "net_step ev s s' \<Longrightarrow> arrived s j x \<Longrightarrow> arrived s' j x"
proof (cases ev)
  case (At a e)
  assume st: "net_step ev s s'" and arr: "arrived s j x"
  from st [unfolded At] obtain nm nm' where n: "sn_nodes s a = Some nm" "nm_step e nm nm'" "sn_nodes s' = (sn_nodes s)(a \<mapsto> nm')"
    "sn_lost s' = sn_lost s \<union> {p \<in> known_at nm. e = Kill (fst p)}" by (rule net_step_node)
  have "arrived s' j x" if "tracked (knows x) j nm"
    using knows_step [OF n(2), of j x] that n(3,4) by (cases "e = Kill j") (auto simp: arrived_def known_at_def)
  moreover have "arrived s' j x" if "sn_nodes s b = Some m" "tracked (knows x) j m" "b \<noteq> a" for b m
    using that n(3) by (auto simp: arrived_def)
  moreover have "arrived s' j x" if "(j, x) \<in> sn_lost s" using that n(4) by (simp add: arrived_def)
  ultimately show ?thesis using arr n(1) unfolding arrived_def [of s] by (metis option.inject)
next
  case (Boot a)
  assume "net_step ev s s'" "arrived s j x"
  then obtain addr where s': "s' = at_node a (NewNodeManager addr) [] s" "sn_nodes s a = None"
    unfolding Boot by (elim net_stepE) auto
  have "arrived s' j x" if "sn_nodes s b = Some m" "tracked (knows x) j m" for b m
    using that s' by (cases "b = a") (auto simp: arrived_def at_node_def)
  moreover have "arrived s' j x" if "(j, x) \<in> sn_lost s" using that by (simp add: arrived_def s'(1) at_node_def)
  ultimately show ?thesis using \<open>arrived s j x\<close> unfolding arrived_def [of s] by blast
next
  case (Crash a)
  assume "net_step ev s s'" "arrived s j x"
  then obtain nm where s': "s' = s\<lparr>sn_nodes := (sn_nodes s)(a := None), sn_lost := sn_lost s \<union> known_at nm\<rparr>"
    "sn_nodes s a = Some nm" unfolding Crash by (elim net_stepE) auto
  have "arrived s' j x" if "sn_nodes s b = Some m" "tracked (knows x) j m" for b m
    using that s' by (cases "b = a") (auto simp: arrived_def known_at_def)
  moreover have "arrived s' j x" if "(j, x) \<in> sn_lost s" using that by (simp add: arrived_def s'(1))
  ultimately show ?thesis using \<open>arrived s j x\<close> unfolding arrived_def [of s] by blast
next
  case Source
  assume "net_step ev s s'" "arrived s j x"
  with Source show ?thesis by (elim net_stepE) (auto simp: arrived_def)
qed

subsection \<open>No ACK without a receiver\<close>

definition net_inv :: "SNet \<Rightarrow> bool" where
  "net_inv s \<longleftrightarrow> (\<forall>a nm. sn_nodes s a = Some nm \<longrightarrow> tasks_ok nm) \<and> (\<forall>i. list_all line_ok (sn_logs s i)) \<and>
     (\<forall>a x j. AckMsg a x j \<in> sn_net s \<longrightarrow> arrived s j x)"

lemma net_inv_at_node:
  assumes inv: "net_inv s" and st: "net_step ev s s'"
    and s': "s' = at_node a nm msgs (s\<lparr>sn_logs := logs, sn_lost := lost\<rparr>)"
    and ok: "tasks_ok nm" "\<And>i. list_all line_ok (logs i)"
    and acks: "\<And>b x j. AckMsg b x j \<in> set msgs \<Longrightarrow> arrived s j x"
  shows "net_inv s'"
  using inv ok acks arrived_step [OF st] by (auto simp: net_inv_def s' at_node_def)

lemma net_inv_step: "net_step ev s s' \<Longrightarrow> net_inv s \<Longrightarrow> net_inv s'"
proof -
  assume st: "net_step ev s s'" and inv: "net_inv s"
  have ok: "tasks_ok nm" if "sn_nodes s a = Some nm" for a nm using inv that by (simp add: net_inv_def)
  have logs: "list_all line_ok (sn_logs s i)" for i using inv by (simp add: net_inv_def)
  have arr: "arrived s j x" if "sn_nodes s a = Some nm" "tracked (knows x) j nm" for a nm j x
    using that by (auto simp: arrived_def)
  note keep = net_inv_at_node [OF inv st]
  from st show ?thesis
  proof (cases rule: net_step.cases)
    case (boot a addr)
    then show ?thesis
      by (intro keep [where logs = "sn_logs s" and lost = "sn_lost s"]) (auto simp: logs tasks_ok_def NewNodeManager_def)
  next
    case (crash a nm)
    with inv arrived_step [OF st] show ?thesis by (auto simp: net_inv_def split: if_splits)
  next
    case (source a t)
    with inv arrived_step [OF st] show ?thesis by (auto simp: net_inv_def)
  next
    case (deliver a nm t now wr r msgs nm')
    with tuple_acks [OF ok] tasks_ok_evolves [OF filed.tuple_in ok] arr show ?thesis
      by (intro keep [where logs = "sn_logs s" and lost = "sn_lost s"]) (auto simp: logs)
  next
    case (ack a nm x j ids i)
    with tasks_ok_upd [OF ok follows_stop(2)] show ?thesis
      by (intro keep [where logs = "sn_logs s" and lost = "sn_lost s"]) (auto simp: logs)
  next
    case (out_line a nm now ord dlv i l msgs nm')
    with read_line_sends tasks_ok_evolves [OF filed.out_line ok] show ?thesis
      by (intro keep [where logs = "sn_logs s" and lost = "sn_lost s"]) (auto simp: logs)
  next
    case (flush a nm i wal msgs nm' stored)
    have "tasks_ok nm'" using tasks_ok_evolves [OF filed.wal_flushed ok [OF flush(3)], of i] flush(4) by simp
    with flush flush_acks_sent [OF ok [OF flush(3)] flush(4)] arr show ?thesis
      by (intro keep [where logs = "(sn_logs s)(i := sn_logs s i @ (if stored then wal else []))" and lost = "sn_lost s"])
        (auto simp: logs at_node_def)
  next
    case (resend a nm now iv ord ids i msgs nm')
    have "tasks_ok nm'" using tasks_ok_evolves [OF filed.retried ok [OF resend(3)], of now iv ord ids i] resend(4) by simp
    with resend task_retry_sends [OF resend(4)] show ?thesis
      by (intro keep [where logs = "sn_logs s" and lost = "sn_lost s"]) (auto simp: logs)
  next
    case (begin_task a nm wal task proc jobSpec rate)
    then have "tasks_ok (fst (InitializeTask proc wal task jobSpec rate nm))"
      by (intro tasks_ok_start [OF ok]) (auto simp: logs)
    with begin_task show ?thesis by (intro keep [where logs = "sn_logs s" and lost = "sn_lost s"]) (auto simp: logs)
  next
    case (topology a nm topo)
    with tasks_ok_topo [OF ok] show ?thesis by (intro keep [where logs = "sn_logs s" and lost = "sn_lost s"]) (auto simp: logs)
  next
    case (end_task a nm i killed)
    with tasks_ok_kill [OF ok] show ?thesis
      by (intro keep [where logs = "sn_logs s" and lost = "sn_lost s \<union> {p \<in> known_at nm. fst p = i}"
          and msgs = "[]" and nm = "fst (KillTaskProcess killed i nm)" and a = a])
        (auto simp: logs at_node_def)
  next
    case (take_over a nm wal old keep_id stored)
    then have "tasks_ok (snd (MergeWalForTask wal old keep_id nm))"
      by (intro tasks_ok_merge [OF ok]) (auto simp: logs)
    with take_over show ?thesis
      by (intro keep [where logs = "(sn_logs s)(keep_id := sn_logs s keep_id @ (if stored then sn_logs s old else []))"
          and lost = "sn_lost s" and msgs = "[]" and nm = "snd (MergeWalForTask wal old keep_id nm)" and a = a])
        (auto simp: logs at_node_def)
  next
    case (metrics a nm now alive)
    with tasks_ok_quiet [OF ok] show ?thesis by (intro keep [where logs = "sn_logs s" and lost = "sn_lost s"]) (auto simp: logs)
  next
    case (results a nm)
    with tasks_ok_quiet [OF ok] show ?thesis by (intro keep [where logs = "sn_logs s" and lost = "sn_lost s"]) (auto simp: logs)
  qed
qed

lemma net_inv_run: "net_run evs s s' \<Longrightarrow> net_inv s \<Longrightarrow> net_inv s'"
  by (induction rule: net_run.induct) (auto intro: net_inv_step)

lemma net_inv_noNet: "net_inv noNet"
  by (simp add: net_inv_def noNet_def)

subsection \<open>Every tuple arrives, once\<close>

definition pending :: "SNet \<Rightarrow> string \<Rightarrow> string \<Rightarrow> string \<Rightarrow> bool" where
  "pending s a i x \<longleftrightarrow> (case sn_nodes s a of None \<Rightarrow> False | Some nm \<Rightarrow> tracked (waiting x) i nm)"

lemma pending_step:
  assumes st: "net_step ev s s'" and inv: "net_inv s" and p: "pending s a i x"
    and ev: "ev \<notin> {At a (Kill i), At a (Merge i), Crash a}"
  shows "pending s' a i x \<or> (\<exists>j. arrived s j x)"
proof -
  obtain nm where nm: "sn_nodes s a = Some nm" "tracked (waiting x) i nm"
    using p by (auto simp: pending_def split: option.splits)
  show ?thesis
  proof (cases ev)
    case (At b e)
    from st [unfolded At] obtain m m' where n: "sn_nodes s b = Some m" "nm_step e m m'" "sn_nodes s' = (sn_nodes s)(b \<mapsto> m')"
      "sn_lost s' = sn_lost s \<union> {p \<in> known_at m. e = Kill (fst p)}" by (rule net_step_node)
    show ?thesis
    proof (cases "b = a")
      case True
      show ?thesis
      proof (cases "e = AckIn x")
        case True
        from st [unfolded At True] obtain j where "AckMsg b x j \<in> sn_net s" by (elim net_stepE) auto
        with inv show ?thesis unfolding net_inv_def by blast
      next
        case False
        with waiting_step [OF n(2), of x i] True ev At nm n show ?thesis by (auto simp: pending_def)
      qed
    qed (use n(3) nm in \<open>simp add: pending_def\<close>)
  qed (use st nm ev in \<open>auto elim!: net_stepE simp: pending_def at_node_def\<close>)
qed

lemma arrived_run: "net_run evs s s' \<Longrightarrow> arrived s j x \<Longrightarrow> arrived s' j x"
  by (induction rule: net_run.induct) (auto intro: arrived_step)

lemma pending_run:
  "net_run evs s s' \<Longrightarrow> net_inv s \<Longrightarrow> pending s a i x \<Longrightarrow>
    set evs \<inter> {At a (Kill i), At a (Merge i), Crash a} = {} \<Longrightarrow> pending s' a i x \<or> (\<exists>j. arrived s' j x)"
proof (induction rule: net_run.induct)
  case (further ev s s1 evs s')
  show ?case
  proof (cases "pending s1 a i x")
    case True
    with further net_inv_step show ?thesis by auto
  next
    case False
    with pending_step [OF further(1,4,5)] further(6) obtain j where "arrived s j x" by auto
    with arrived_step [OF further(1)] arrived_run [OF further(2)] show ?thesis by blast
  qed
qed simp

lemma net_nodes_inv:
  "net_run evs s s' \<Longrightarrow> (\<And>b m. sn_nodes s b = Some m \<Longrightarrow> nm_inv m) \<Longrightarrow> sn_nodes s' b = Some m \<Longrightarrow> nm_inv m"
proof (induction rule: net_run.induct)
  case (further ev s s1 evs s')
  have "nm_inv m" if "sn_nodes s1 b = Some m" for b m
  proof (cases ev)
    case (At a e)
    from further(1) [unfolded At] obtain k k' where "sn_nodes s a = Some k" "nm_step e k k'" "sn_nodes s1 = (sn_nodes s)(a \<mapsto> k')"
      by (rule net_step_node)
    with that further(4) nm_step_inv show ?thesis by (auto split: if_splits)
  qed (use further(1,4) that NewNodeManager_inv in \<open>auto elim!: net_stepE simp: at_node_def split: if_splits\<close>)
  with further show ?case by blast
qed simp

text \<open>A node of one task that got a tuple and sent its output on.\<close>

definition outY :: Tuple where
  "outY = zeroTuple\<lparr>tp_ID := ''y''\<rparr>"

definition nodeSent :: NodeManager where
  "nodeSent = snd (projr (read_line 6 (\<lambda>_. [''t2'']) (\<lambda>_. True) ''t1'' (output_line ''x'' [outY]) nodeAfterTuple))"

lemma nodeSent_facts:
  "\<exists>msgs. read_line 6 (\<lambda>_. [''t2'']) (\<lambda>_. True) ''t1'' (output_line ''x'' [outY]) nodeAfterTuple = Inr (msgs, nodeSent)"
  "tracked (waiting ''y'') ''t1'' nodeSent"
proof -
  have p: "parse_output (output_line ''x'' [t]) = Some (''x'', [t])" for t by (rule parse_output_line) simp
  have c: "selectDownstreamTask [''t2''] [''t2'' \<mapsto> ''m:1''] k = (''t2'', ''m:1'')" for k
    by (simp add: selectDownstreamTask_def Let_def sortStrings_def sort_slice_def)
  note eval = read_line_def p nodeAfterTuple_def node_eval outY_def forwardTupleToDownstream_def isFinalStage_def c
    SendTuple_def AddSentTuple_def SetExpectedOutputCount_def IncrementOutputCount_def logRecord_def
  show r: "\<exists>msgs. read_line 6 (\<lambda>_. [''t2'']) (\<lambda>_. True) ''t1'' (output_line ''x'' [outY]) nodeAfterTuple = Inr (msgs, nodeSent)"
    unfolding nodeSent_def by (simp add: eval)
  show "tracked (waiting ''y'') ''t1'' nodeSent"
    unfolding nodeSent_def by (simp add: eval tracked_def waiting_def GetSentTuple_def)
qed

lemma nodeSent_run:
  "\<exists>evs s. net_run evs noNet s \<and> sn_nodes s ''n'' = Some nodeSent"
proof -
  let ?s1 = "at_node ''n'' (NewNodeManager ''n'') [] noNet"
  let ?s2 = "at_node ''n'' nodeWithTask [] ?s1"
  let ?s3 = "?s2\<lparr>sn_net := insert (TupleMsg ''n'' inTuple) (sn_net ?s2)\<rparr>"
  let ?s4 = "at_node ''n'' nodeAfterTuple [] ?s3"
  obtain msgs where r: "read_line 6 (\<lambda>_. [''t2'']) (\<lambda>_. True) ''t1'' (output_line ''x'' [outY]) nodeAfterTuple = Inr (msgs, nodeSent)"
    using nodeSent_facts(1) by blast
  have "net_step (Boot ''n'') noNet ?s1" by (rule boot) (simp add: noNet_def)
  moreover have "net_step (At ''n'' Start) ?s1 ?s2"
    unfolding nodeWithTask_def by (rule begin_task) (simp_all add: at_node_def)
  moreover have "net_step Source ?s2 ?s3" by (rule source)
  moreover have "net_step (At ''n'' TupleIn) ?s3 ?s4"
    by (rule deliver [OF _ _ nodeAfterTuple_step(1)]) (simp_all add: at_node_def)
  moreover have "net_step (At ''n'' OutLine) ?s4 (at_node ''n'' nodeSent msgs ?s4)"
    by (rule net_step.out_line [OF _ r]) (simp add: at_node_def)
  ultimately have "net_run [Boot ''n'', At ''n'' Start, Source, At ''n'' TupleIn, At ''n'' OutLine] noNet (at_node ''n'' nodeSent msgs ?s4)"
    by (blast intro: further finished)
  moreover have "sn_nodes (at_node ''n'' nodeSent msgs ?s4) ''n'' = Some nodeSent" by (simp add: at_node_def)
  ultimately show ?thesis by blast
qed



end
