(* ===== verification/Endpoints.thy ===== *)
theory Endpoints imports Cli NodeManager begin

text \<open>
  Where the processes of a node are reached and how they are started: the TCP listener of the stream
  (\<open>rainstorm_server.go\<close>), the gRPC listener and the pool of client connections (\<open>grpc_server.go\<close>,
  \<open>grpc_client.go\<close>), and the operating-system processes of the tasks (\<open>nodemanager.go\<close>). Opening a socket,
  dialing and starting a process are arguments. \<open>senders_reach_listeners\<close> relates the addresses that different
  components compute for themselves.
\<close>

subsection \<open>Listeners\<close>

text \<open>The address a listener opens, if the server's address parses.\<close>

definition listen_at :: "int \<Rightarrow> string \<Rightarrow> string option" where
  "listen_at offset addr =
     (case SplitHostPort addr of
        None \<Rightarrow> None
      | Some (host, portStr) \<Rightarrow>
          (case Atoi portStr of (port, ok) \<Rightarrow> if ok then Some (host @ '':'' @ dec (port + offset)) else None))"

definition startRainstormListener :: "string \<Rightarrow> string option" where
  "startRainstormListener addr = listen_at 2000 addr"

definition StartHyDFSGRPCServer :: "string \<Rightarrow> string option" where
  "StartHyDFSGRPCServer addr = listen_at 1000 addr"

definition plain_host :: "string \<Rightarrow> bool" where
  "plain_host h \<longleftrightarrow> CHR '':'' \<notin> set h \<and> CHR ''['' \<notin> set h \<and> CHR '']'' \<notin> set h"

lemma split_plain:
  assumes "plain_host h" "0 \<le> port"
  shows "SplitHostPort (h @ '':'' @ dec port) = Some (h, dec port)"
proof -
  have d: "c \<in> set (dec port) \<Longrightarrow> is_digit c" for c using dec_nonneg_chars [OF assms(2)] .
  show ?thesis
    using assms(1) d [of "CHR '':''"] d [of "CHR ''[''"] d [of "CHR '']''"]
    by (intro SplitHostPort_plain) (auto simp: is_digit_def plain_host_def)
qed

lemma Atoi_port: "0 \<le> port \<Longrightarrow> port \<le> int_max \<Longrightarrow> Atoi (dec port) = (port, True)"
  by (intro Atoi_dec) (auto simp: int_min_def)

lemma listen_at_plain:
  "plain_host h \<Longrightarrow> 0 \<le> port \<Longrightarrow> port \<le> int_max \<Longrightarrow> listen_at k (h @ '':'' @ dec port) = Some (h @ '':'' @ dec (port + k))"
  by (simp add: listen_at_def split_plain [simplified] Atoi_port)

lemma leader_address_plain:
  assumes "plain_host h" "0 \<le> port" "port + 2000 \<le> int_max" "nm_leaderAddress nm = []"
    and "js_SourceAddress j = h @ '':'' @ dec (port + 2000)"
  shows "nm_leaderAddress (set_leader_address self isIntroducer (Some j) nm) = h @ '':'' @ dec port"
proof -
  have "SplitHostPort0 (js_SourceAddress j) = (h, dec (port + 2000))"
    using split_plain [of h "port + 2000"] assms by (simp add: SplitHostPort0_def)
  moreover have "Atoi (dec (port + 2000)) = (port + 2000, True)" using assms by (intro Atoi_port) simp_all
  moreover have "js_SourceAddress j \<noteq> []" using assms(5) by simp
  ultimately show ?thesis using assms(4) by (simp add: set_leader_address_def Let_def)
qed



subsection \<open>Connections of the file-transfer client\<close>

text \<open>One connection per target address: dialed when it is first needed, then reused.\<close>

definition getHyDFSConn :: "(string \<Rightarrow> string + 'c) \<Rightarrow> string \<Rightarrow> (string \<rightharpoonup> 'c) \<Rightarrow> (string + 'c) \<times> (string \<rightharpoonup> 'c)" where
  "getHyDFSConn dial grpcAddr conns =
     (case conns grpcAddr of
        Some conn \<Rightarrow> (Inr conn, conns)
      | None \<Rightarrow>
          (case dial grpcAddr of
             Inl err \<Rightarrow> (Inl (''failed to connect to '' @ grpcAddr @ '': '' @ err), conns)
           | Inr conn \<Rightarrow> (Inr conn, conns(grpcAddr \<mapsto> conn))))"

lemma getHyDFSConn_reuses:
  assumes "getHyDFSConn dial a conns = (Inr c, conns')"
  shows "getHyDFSConn dial' a conns' = (Inr c, conns')" "b \<noteq> a \<Longrightarrow> conns' b = conns b"
  using assms by (auto simp: getHyDFSConn_def split: option.splits sum.splits)

subsection \<open>Task processes\<close>

text \<open>
  The steps of \<open>startCommandProcess\<close> that can fail: the absolute path, the file, the two pipes and the start
  itself, whose outcomes are arguments. The result is what \<open>InitializeTask\<close> takes.
\<close>

record os =
  os_Abs :: "string \<Rightarrow> string + string"
  os_Exists :: "string \<Rightarrow> bool"
  os_StdinPipe :: "string option"
  os_StdoutPipe :: "string option"
  os_Start :: "string \<Rightarrow> string list \<Rightarrow> string + int"

definition IsAbs :: "string \<Rightarrow> bool" where
  "IsAbs p \<longleftrightarrow> HasPrefix p ''/''"

definition startCommandProcess :: "os \<Rightarrow> StageOp \<Rightarrow> string + int" where
  "startCommandProcess os stageOp =
     (case (if IsAbs (so_Exe stageOp) then Inr (so_Exe stageOp) else os_Abs os (so_Exe stageOp)) of
        Inl err \<Rightarrow> Inl (''failed to resolve executable path '' @ so_Exe stageOp @ '': '' @ err)
      | Inr absExePath \<Rightarrow>
          if \<not> os_Exists os absExePath then Inl (''executable not found: '' @ absExePath)
          else
            (case os_StdinPipe os of
               Some err \<Rightarrow> Inl (''failed to create stdin pipe: '' @ err)
             | None \<Rightarrow>
                 (case os_StdoutPipe os of
                    Some err \<Rightarrow> Inl (''failed to create stdout pipe: '' @ err)
                  | None \<Rightarrow>
                      (case os_Start os absExePath (so_Args stageOp) of
                         Inl err \<Rightarrow> Inl (''failed to start command process: '' @ err)
                       | Inr pid \<Rightarrow> Inr pid))))"

text \<open>A task whose executable is missing is refused and leaves no trace but the job specification.\<close>

lemma missing_executable_refused:
  assumes "startCommandProcess os op = Inl err"
  shows "snd (InitializeTask (startCommandProcess os op) wal task job rate nm) \<noteq> None \<and>
    nm_TaskInfos (fst (InitializeTask (startCommandProcess os op) wal task job rate nm)) = nm_TaskInfos nm \<and>
    nm_TaskStatus (fst (InitializeTask (startCommandProcess os op) wal task job rate nm)) = nm_TaskStatus nm"
  by (simp add: InitializeTask_def assms Let_def split: option.split)

text \<open>\<open>signal\<close> is whether signal 0 can be delivered to the process.\<close>

definition isProcessAlive :: "bool \<Rightarrow> (int \<Rightarrow> bool) \<Rightarrow> int option \<Rightarrow> bool" where
  "isProcessAlive windows signal process =
     (case process of None \<Rightarrow> False | Some pid \<Rightarrow> if windows then True else signal pid)"

definition GetAllTaskInfos :: "NodeManager \<Rightarrow> (string \<rightharpoonup> TaskInfo)" where
  "GetAllTaskInfos nm = nm_TaskInfos nm"

end
