(* ===== verification/FileClient.thy ===== *)
theory FileClient imports ClusterSteps begin

text \<open>
  The file commands of a client across nodes (\<open>hydfs_operations.go\<close>): a file that one node creates can be
  read by any node, also after crashes, as long as one of its replicas is still running and among the targets
  the reader tries.
\<close>

text \<open>A node that keeps the file \<open>n\<close> with the given bytes and no appends.\<close>

definition serves :: "string \<Rightarrow> string \<Rightarrow> cluster \<Rightarrow> string \<Rightarrow> bool" where
  "serves n data cl a \<longleftrightarrow> (\<exists>disk md m. stores cl a = Some (disk, md) \<and> GetFile md n = Some m \<and>
     fm_FileName m = n \<and> fm_Appends m = [] \<and> disk n = Some data)"

definition lacks :: "string \<Rightarrow> cluster \<Rightarrow> string \<Rightarrow> bool" where
  "lacks n cl a \<longleftrightarrow> (\<forall>disk md. stores cl a = Some (disk, md) \<longrightarrow> GetFile md n = None)"

lemma lacksD: "lacks n cl a \<Longrightarrow> cl a = Some r \<Longrightarrow> GetFile (hn_Metadata r) n = None"
  by (simp add: lacks_def stores_def)

lemma serves_reads:
  assumes "serves n data cl a" "cl self = Some h"
  shows "\<exists>cl' h'. ReceiveFileFromNode self a n LocalDir p cl = (True, cl') \<and> cl' self = Some h' \<and>
    hn_local h' (Base p) = Some data"
proof -
  obtain r m where r: "cl a = Some r" "GetFile (hn_Metadata r) n = Some m" "fm_FileName m = n" "fm_Appends m = []"
    "hn_disk r n = Some data"
    using assms(1) by (auto simp: serves_def dest!: stores_Some)
  obtain chunks r' where c: "Hydfs_GetFile n r = Inr (chunks, r')" "received_data chunks = data"
    using read_file_log [OF r(2-5)] by (auto simp: read_file_def split: sum.splits)
  have "\<exists>g. (cl(a \<mapsto> r')) self = Some g" using assms(2) by simp
  with r(1) c show ?thesis
    by (auto simp: ReceiveFileFromNode_def on_node_apply write_dir_def)
qed

lemma lacks_fails:
  assumes "lacks n cl a" "cl self = Some h"
  shows "\<exists>cl' h'. ReceiveFileFromNode self a n LocalDir p cl = (False, cl') \<and> cl' self = Some h' \<and> stores cl' = stores cl"
proof -
  note l = lacksD [OF assms(1)]
  have "stores (on_node self (write_dir LocalDir (Base p) None) cl) = stores cl"
    by (rule ext) (simp add: stores_def on_node_apply write_dir_def option.map_comp comp_def)
  with assms(2) l show ?thesis
    by (cases "cl a") (auto simp: ReceiveFileFromNode_def Hydfs_GetFile_def on_node_apply)
qed

lemma try_replicas_reads:
  assumes "\<forall>t \<in> set ts. lacks n cl (m_Address t) \<or> serves n data cl (m_Address t)"
    and "\<exists>t \<in> set ts. serves n data cl (m_Address t)" and "cl self = Some h"
  shows "\<exists>cl' h'. try_replicas (\<lambda>a. ReceiveFileFromNode self a n LocalDir p) ts cl = (True, cl') \<and>
    cl' self = Some h' \<and> hn_local h' (Base p) = Some data"
  using assms
proof (induction ts arbitrary: cl h)
  case (Cons t ts)
  show ?case
  proof (cases "serves n data cl (m_Address t)")
    case True
    from serves_reads [OF this Cons.prems(3), of p] show ?thesis by auto
  next
    case False
    with Cons.prems(1) have "lacks n cl (m_Address t)" by simp
    then obtain cl1 h1 where one: "ReceiveFileFromNode self (m_Address t) n LocalDir p cl = (False, cl1)"
      "cl1 self = Some h1" "stores cl1 = stores cl" using lacks_fails [where cl = cl and self = self and n = n and p = p] Cons.prems(3) by blast
    have same: "serves n data cl1 a = serves n data cl a" "lacks n cl1 a = lacks n cl a" for a
      by (simp_all add: serves_def lacks_def one(3))
    from Cons.IH [of cl1 h1] Cons.prems(1,2) False one(1,2) show ?thesis by (auto simp: same)
  qed
qed simp

lemma create_serves:
  assumes "data \<noteq> []" "n \<noteq> []" and self: "cl self = Some h" "hn_local h (Base src) = Some data"
    and ts: "ts = targets_of e h n" "ts \<noteq> []" "distinct (map m_Address ts)"
    and env: "e_sha256 e data \<noteq> []" "cfg_HashBits (e_cfg e) \<le> 31"
    and new: "\<forall>a. lacks n cl a" and up: "\<forall>t \<in> set ts. cl (m_Address t) \<noteq> None"
  shows "fst (handleCreate e now self src n cl) = length ts"
    and "a \<in> m_Address ` set ts \<Longrightarrow> serves n data (snd (handleCreate e now self src n cl)) a"
    and "a \<notin> m_Address ` set ts \<Longrightarrow> stores (snd (handleCreate e now self src n cl)) a = stores cl a"
proof -
  let ?meta = "new_file_metadata e now n data"
  have eq: "handleCreate e now self src n cl = send_all (\<lambda>a. SendFileToNode self a data ?meta) ts cl"
    using self ts(1,2) by (simp add: handleCreate_def Let_def)
  have "(2::int) ^ cfg_HashBits (e_cfg e) \<le> 2 ^ 31" using env(2) by (intro power_increasing) auto
  with HashToMbits_range [of "e_sha1 e" "e_cfg e" n]
  have range: "- (2 ^ 31) \<le> fm_FileNameHash ?meta" "fm_FileNameHash ?meta < 2 ^ 31"
    by (auto simp: new_file_metadata_def)
  have "\<forall>t \<in> set ts. transfers (new_file ?meta data) (\<lambda>a. SendFileToNode self a data ?meta) cl (m_Address t)"
  proof
    fix t assume "t \<in> set ts"
    then obtain r where r: "cl (m_Address t) = Some r" using up by auto
    then have "GetFile (hn_Metadata r) n = None" using new lacksD by blast
    with assms(1,2) r env(1) range
    show "transfers (new_file ?meta data) (\<lambda>a. SendFileToNode self a data ?meta) cl (m_Address t)"
      by (intro transfers_create) (simp_all add: new_file_metadata_def)
  qed
  note f = send_all_stores [OF ts(3) this, folded eq]
  show "fst (handleCreate e now self src n cl) = length ts" by (rule f(1))
  show "serves n data (snd (handleCreate e now self src n cl)) a" if "a \<in> m_Address ` set ts"
  proof -
    obtain r where "cl a = Some r" using up \<open>a \<in> m_Address ` set ts\<close> by auto
    then have "stores (snd (handleCreate e now self src n cl)) a =
        Some ((hn_disk r)(n \<mapsto> data), AddFile (hn_Metadata r) ?meta)"
      unfolding f(2) using that by (simp add: stores_def new_file_def new_file_metadata_def)
    moreover have "GetFile (AddFile (hn_Metadata r) ?meta) n = Some ?meta"
      by (simp add: GetFile_AddFile new_file_metadata_def)
    ultimately show ?thesis unfolding serves_def by (force simp: new_file_metadata_def)
  qed
  show "stores (snd (handleCreate e now self src n cl)) a = stores cl a" if "a \<notin> m_Address ` set ts"
    unfolding f(2) using that by simp
qed



end
