(* ===== verification/Spec2Isabelle.thy ===== *)
theory Spec2Isabelle
  imports Displays Operators StreamNetwork Endpoints FileClient
begin

text \<open>
  A verification library for Rainstorm, a stream-processing system written in Go that runs on its own
  replicated file system (HyDFS) and its own gossip or ping-ack membership service. Every node runs one process
  with all parts: a member list kept by failure detection and merging, files placed on a ring of 256 positions,
  a node manager that runs the tasks of a job as operating-system processes and routes their tuples, and on the
  introducer the leader that submits, restarts and scales jobs. This theory imports the whole library.

  \<^bold>\<open>How the code is modelled.\<close> A struct is a record, a string enumeration a datatype with a constructor for
  the values the code does not name, a Go map a partial function (or a list where order matters), a
  \<^verbatim>\<open>uint64\<close> a \<^verbatim>\<open>64 word\<close>, an \<^verbatim>\<open>int\<close> an \<^verbatim>\<open>int\<close> with its range where it
  matters. Times are nanoseconds since Go's zero time. Errors are values of type \<^verbatim>\<open>'a go\<close>: \<open>GoError\<close> is a
  returned error, \<open>GoPanic\<close> a panic, which ends the process. Methods on shared state are functions from the state to
  the new state; a mutex makes each of them atomic. The order in which Go visits a map is an argument, constrained
  only by \<open>visits\<close>: every key once. Clocks, SHA-1, random numbers, the JSON text form of messages, sockets, the
  file system below HyDFS and the start of processes are arguments; hypotheses about them are named where they are
  used (a message that arrives is decoded to what was encoded).

  \<^bold>\<open>Foundations.\<close> \<open>Prelude\<close> and \<open>GoLib\<close> hold the result type, fact collections and the used parts of Go's library
  (\<^verbatim>\<open>strconv\<close>, \<^verbatim>\<open>strings\<close>, \<^verbatim>\<open>net.SplitHostPort\<close>, \<^verbatim>\<open>sort.Slice\<close>). \<open>KeyedTable\<close> and \<open>Journal\<close> are
  interfaces: a table with one entry per key, interpreted on the member list and the file metadata, and a
  journal whose replay gives the state, interpreted on the exactly-once manager.

  \<^bold>\<open>Membership.\<close>
  \<^item> \<open>Member\<close> (\<^verbatim>\<open>member.go\<close>, \<^verbatim>\<open>utils.go\<close>, \<^verbatim>\<open>config.go\<close>, \<^verbatim>\<open>bandwidth.go\<close>), \<open>MembershipList\<close>
    (\<^verbatim>\<open>membership_list.go\<close>): entries, identifiers, configuration; the list sorted by ring position, with the
    invariant \<open>ml_inv\<close> that every operation keeps.
  \<^item> \<open>Server\<close> (\<^verbatim>\<open>server.go\<close>): the state of a node, its construction, heartbeat and leave. Stabilization work
    that the code starts in goroutines is recorded in \<open>srv_launched\<close>.
  \<^item> \<open>FailureDetector\<close> (\<^verbatim>\<open>MarkSuspectIfNeeded\<close>): a tick implements the pointwise \<open>timeout_spec\<close>; a silent
    member is suspected, declared dead and forgotten.
  \<^item> \<open>MembershipMerge\<close> (\<^verbatim>\<open>membership_merge.go\<close>): the locale \<open>merge_policy\<close>, interpreted on both merge rules
    under both protocols; merging implements the rank-based \<open>merge_spec\<close>, and gossip converges.
  \<^item> \<open>Protocols\<close> (\<^verbatim>\<open>protocols.go\<close>): the round-robin choice of peers, a gossip and a ping round, joining.

  \<^bold>\<open>File system.\<close>
  \<^item> \<open>Metadata\<close> (\<^verbatim>\<open>metadata.go\<close>): the files a node stores and the order of their appends.
  \<^item> \<open>Ring\<close> (\<^verbatim>\<open>ring.go\<close>, \<^verbatim>\<open>findTargetNodes\<close>): key ranges, successors and targets.
  \<^item> \<open>HyDFS\<close> (\<^verbatim>\<open>grpc_server.go\<close>, \<^verbatim>\<open>grpc_client.go\<close>): files and appends in chunks, on byte contents.
  \<^item> \<open>Replication\<close>, \<open>Stabilization\<close> (\<^verbatim>\<open>hydfs_operations.go\<close>, \<^verbatim>\<open>ring.go\<close>): client operations, pushes and
    pulls between ring neighbours, merging, garbage collection, over a map \<open>cluster\<close> of running nodes;
    \<open>ClusterSteps\<close> states what no file operation does, \<open>FileClient\<close> what a client reads after crashes.

  \<^bold>\<open>Streams.\<close>
  \<^item> \<open>ExactlyOnce\<close> (\<^verbatim>\<open>exactly_once.go\<close>): the manager of a task, its log records, flushing, retrying, recovery.
  \<^item> \<open>Topology\<close>, \<open>Routing\<close> (\<^verbatim>\<open>task.go\<close>, parts of \<^verbatim>\<open>leader.go\<close> and \<^verbatim>\<open>nodemanager.go\<close>): tasks, their
    links and placement, the choice of a task by key (locale \<open>key_router\<close>).
  \<^item> \<open>NodeManager\<close> (\<^verbatim>\<open>nodemanager.go\<close>, \<^verbatim>\<open>rainstorm_server.go\<close>, \<^verbatim>\<open>rainstorm_client.go\<close>): tasks,
    metrics, forwarding, tuple and ACK messages. \<open>StreamNode\<close>: the step relation of a node, the locales \<open>growing\<close>
    and \<open>evolution\<close> of what the steps do to a manager, and the guarantees of one node. \<open>StreamNetwork\<close>: all nodes,
    the messages between them and their logs, and the end-to-end guarantee.
  \<^item> \<open>Leader\<close>, \<open>Autoscale\<close> (\<^verbatim>\<open>leader.go\<close>, \<^verbatim>\<open>resource_manager.go\<close>): submission, restarts, scaling, the
    source; \<open>Scaling\<close>, \<open>JobControl\<close>, \<open>Submission\<close> and \<open>ScaleDown\<close> show what they achieve on the nodes.
  \<^item> \<open>Csv\<close>, \<open>Operators\<close> (\<^verbatim>\<open>task_executable/\<close>): the three task programs line by line.

  \<^bold>\<open>The node as a whole.\<close>
  \<^item> \<open>Service\<close> (\<^verbatim>\<open>rpc_types.go\<close>, the handlers of \<^verbatim>\<open>rpc_server.go\<close>): the state \<open>System\<close> of all processes and the
    effect of every request; \<open>RpcServer\<close> (\<^verbatim>\<open>rpc_server.go\<close>, \<^verbatim>\<open>rpc_client.go\<close>): datagrams, dispatch, errors, calls.
  \<^item> \<open>Cli\<close>, \<open>Commands\<close> (\<^verbatim>\<open>cli.go\<close>): parsing, and what every command does to the system.
  \<^item> \<open>Runtime\<close> (\<^verbatim>\<open>main.go\<close>, the loops of \<^verbatim>\<open>server.go\<close>): the running system as a transition relation and
    the invariant of every node in every reachable state.
  \<^item> \<open>Endpoints\<close>: listeners, connection pool, task processes. \<open>Displays\<close>: what the printing commands select, and
    the connections of the stream.

  \<^bold>\<open>What the theorems show.\<close> Exactly-once processing: end to end over an unreliable network, per node, and
  across a crash and recovery from the log; the order of outputs, log records and ACKs. Membership: the detector
  and the merge refine their specifications, gossip converges, joining works, peers are reached in turn. Files: one
  primary per key, transfers are byte-exact, a created file survives crashes, a push makes a replica, a merge makes replicas agree, garbage
  collection deletes exactly what is out of range. Jobs: topologies are wired and stay wired under scaling, a
  submission starts every task, a killed task resumes, scaling down ends at one task. Requests and commands: at
  most one execution per call, no execution on an error, and exactly which requests end a process.

  \<^bold>\<open>Bounds and fuel.\<close> Recursion is structural or has a measure. The search for the nearest alive predecessor has
  fuel: the number of members, after which every index was visited. Timeouts are below the maximum of a
  \<^verbatim>\<open>time.Duration\<close>. Ring positions are below 256.

  \<^bold>\<open>Where guarantees end.\<close> The library also proves limits of the code: a duplicate that is ACKed before its first
  copy is logged, a failed write to a task's input or to the log that is ACKed all the same, a task without
  exactly-once tracking whose first output panics, an operator that answers nothing, a crashed task that is never
  restarted, ranges that panic or claim the whole ring, empty uploads, oversized requests.

  \<^bold>\<open>Not modelled.\<close> \<^verbatim>\<open>logger.go\<close> and the layout of console output; the generated protocol code under
  \<^verbatim>\<open>proto/\<close>; the transports themselves. The code transfers to several replicas and calls several nodes
  concurrently; the model does so in list order, which is the same where the targets are different nodes. Data races
  on fields that the code reads without its mutex are not modelled.
\<close>

end
